theory Spec2Isabelle
  imports Main
begin

section \<open>JavaScript values, objects and the object heap\<close>

text \<open>
  The controller in \<^verbatim>\<open>src/SweetAlert.js\<close> works on plain JavaScript objects
  (option bags), on instances of the class \<^verbatim>\<open>SweetAlert\<close>, on promises and on DOM
  elements. Option bags live in an explicit heap, because \<^verbatim>\<open>Object.freeze\<close> and
  property assignment act on object identities: an object is its own properties (a map
  from keys to values) and its frozen flag. Numbers are restricted to integers, and a
  property read on an option bag sees own properties only. A function is a value of its
  own, \<open>JFun\<close>, known by a number; what it does when it is called belongs to the
  environment. A promise is a value as well, known by its number.
\<close>

type_synonym addr = nat
type_synonym fid = nat
type_synonym pid = nat

datatype jsval =
  JUndefined | JNull | JBool bool | JNum int | JStr string | JRef addr | JFun fid | JPromise pid

record jsobj =
  props :: "string \<rightharpoonup> jsval"
  frozen :: bool

type_synonym heap = "jsobj list"

datatype error = TypeError

definition bindE :: "'e + 'a \<Rightarrow> ('a \<Rightarrow> 'e + 'b) \<Rightarrow> 'e + 'b" where
  "bindE m f = (case m of Inl e \<Rightarrow> Inl e | Inr x \<Rightarrow> f x)"

text \<open>JavaScript truthiness, as used by \<^verbatim>\<open>if (x)\<close> and \<^verbatim>\<open>!x\<close>.\<close>

fun truthy :: "jsval \<Rightarrow> bool" where
  "truthy JUndefined = False"
| "truthy JNull = False"
| "truthy (JBool b) = b"
| "truthy (JNum n) = (n \<noteq> 0)"
| "truthy (JStr s) = (s \<noteq> [])"
| "truthy (JRef a) = True"
| "truthy (JFun f) = True"
| "truthy (JPromise p) = True"

definition digit_char :: "nat \<Rightarrow> char" where
  "digit_char n = char_of (48 + n)"

fun dec_string :: "nat \<Rightarrow> string" where
  "dec_string n =
     (if n < 10 then [digit_char n] else dec_string (n div 10) @ [digit_char (n mod 10)])"

text \<open>
  The own enumerable properties that \<^verbatim>\<open>Object.assign\<close> copies from a source:
  those of an object, the indexed characters of a string, nothing for
  \<^verbatim>\<open>undefined\<close>, \<^verbatim>\<open>null\<close>, booleans and numbers.
\<close>

definition string_props :: "string \<Rightarrow> (string \<rightharpoonup> jsval)" where
  "string_props s = map_of (map (\<lambda>i. (dec_string i, JStr [s ! i])) [0..<length s])"

definition own_props :: "heap \<Rightarrow> jsval \<Rightarrow> (string \<rightharpoonup> jsval)" where
  "own_props h v =
     (case v of
        JRef a \<Rightarrow> (if a < length h then props (h ! a) else Map.empty)
      | JStr s \<Rightarrow> string_props s
      | _ \<Rightarrow> Map.empty)"

text \<open>Reading \<^verbatim>\<open>o.k\<close> on an object: a missing property reads as \<^verbatim>\<open>undefined\<close>.\<close>

definition get_prop :: "heap \<Rightarrow> addr \<Rightarrow> string \<Rightarrow> jsval" where
  "get_prop h a k = (case own_props h (JRef a) k of Some v \<Rightarrow> v | None \<Rightarrow> JUndefined)"

text \<open>
  Writing \<^verbatim>\<open>o.k = v\<close> in module (strict) code: a frozen object rejects the write
  with a \<^verbatim>\<open>TypeError\<close>.
\<close>

definition set_prop :: "addr \<Rightarrow> string \<Rightarrow> jsval \<Rightarrow> heap \<Rightarrow> error + heap" where
  "set_prop a k v h =
     (if a < length h \<and> \<not> frozen (h ! a)
      then Inr (h[a := (h ! a)\<lparr>props := (props (h ! a))(k \<mapsto> v)\<rparr>])
      else Inl TypeError)"

text \<open>
  \<^verbatim>\<open>delete o.k\<close> in strict code: a frozen object rejects the deletion of a
  property that it has with a \<^verbatim>\<open>TypeError\<close>; deleting a property that the object
  does not have succeeds and changes nothing.
\<close>

definition delete_prop :: "addr \<Rightarrow> string \<Rightarrow> heap \<Rightarrow> error + heap" where
  "delete_prop a k h =
     (if a < length h \<and> \<not> (frozen (h ! a) \<and> k \<in> dom (props (h ! a)))
      then Inr (h[a := (h ! a)\<lparr>props := (props (h ! a))(k := None)\<rparr>])
      else Inl TypeError)"

text \<open>An object literal allocates a fresh, unfrozen object.\<close>

definition alloc :: "(string \<rightharpoonup> jsval) \<Rightarrow> heap \<Rightarrow> addr \<times> heap" where
  "alloc ps h = (length h, h @ [\<lparr>props = ps, frozen = False\<rparr>])"

text \<open>
  \<^verbatim>\<open>Object.assign({}, src1, ..., srcn)\<close>: a fresh object receives the own properties
  of the sources from left to right, a later source overwriting an earlier one.
\<close>

definition object_assign_new :: "jsval list \<Rightarrow> heap \<Rightarrow> addr \<times> heap" where
  "object_assign_new srcs h = alloc (foldl (\<lambda>acc src. acc ++ own_props h src) Map.empty srcs) h"

text \<open>\<^verbatim>\<open>Object.freeze(o)\<close> is shallow: it marks the one object it is given.\<close>

definition object_freeze :: "jsval \<Rightarrow> heap \<Rightarrow> heap" where
  "object_freeze v h =
     (case v of
        JRef a \<Rightarrow> (if a < length h then h[a := (h ! a)\<lparr>frozen := True\<rparr>] else h)
      | _ \<Rightarrow> h)"


section \<open>The controller's state\<close>

text \<open>
  Identities of \<^verbatim>\<open>SweetAlert\<close> instances, of DOM elements, of promises and of
  timers are natural numbers. An instance has the three fields the constructor assigns;
  a field that was never assigned is \<open>None\<close>.
\<close>

type_synonym inst = nat
type_synonym elem = nat
type_synonym tid = nat

text \<open>A result object literal such as \<^verbatim>\<open>{ isDismissed: true }\<close>, by its contents.\<close>

type_synonym jsrecord = "(string \<times> jsval) list"

datatype promise_state = Pending | Fulfilled jsrecord | Rejected error

record swal =
  params :: "jsval option"
  isAwaitingPromise :: "bool option"
  promise :: "pid option"

datatype dom_part =
    Popup | Container | Actions | ConfirmButton | DenyButton | CancelButton
  | Loader | CloseButton | ValidationMessage | ProgressSteps | TimerProgressBar

record dom_cache =
  popup :: "elem option"
  container :: "elem option"
  actions :: "elem option"
  confirmButton :: "elem option"
  denyButton :: "elem option"
  cancelButton :: "elem option"
  loader :: "elem option"
  closeButton :: "elem option"
  validationMessage :: "elem option"
  progressSteps :: "elem option"

text \<open>The closures that the controller hands to the DOM and to the scheduler.\<close>

datatype handler =
    OnConfirmClick inst   \<comment> \<open>\<^verbatim>\<open>() => handleConfirmButtonClick(instance)\<close>\<close>
  | OnDenyClick inst      \<comment> \<open>\<^verbatim>\<open>() => handleDenyButtonClick(instance)\<close>\<close>
  | OnCancelClick inst    \<comment> \<open>\<^verbatim>\<open>() => handleCancelButtonClick(instance, dismissWith)\<close>\<close>
  | OnCloseClick inst     \<comment> \<open>\<^verbatim>\<open>() => dismissWith(DismissReason.close)\<close>\<close>

datatype deferred =
    ScrollContainerToTop "elem option"
  | AnimateTimerProgressBar jsval

text \<open>
  Every call that leaves \<^verbatim>\<open>SweetAlert.js\<close> (a helper from another module, a DOM
  method, a method of a promise, a settlement of a promise) and every write of the
  registry's current instance is recorded, in program order, in a trace.
\<close>

datatype event =
    ArgsToParams "jsval list"
  | ShowWarningsForParams jsval
  | Destroy inst
  | Resolve pid jsrecord
  | UnsetAriaHidden
  | SetCurrentInstance "inst option"
  | GetTemplateParams jsval
  | SetParameters jsval
  | ClearTimeout "nat option"
  | Render "inst option" jsval
  | SetOnclick elem handler
  | HandlePopupClick jsval inst
  | AddKeydownHandler jsval inst
  | HandleInputOptionsAndValue inst jsval
  | OpenPopup jsval
  | Hide "elem option"
  | Show "elem option"
  | ApplyCustomClass "elem option" jsval string
  | SetTimeout deferred
  | CallIfFunction jsval
  | WarnAboutDeprecation string
  | Blur elem
  | Focus elem
  | TimerFired tid
  | Close inst jsrecord
  | InstanceMethod string inst "jsval list"
  | PromiseThen pid jsval
  | PromiseFinally pid jsval

text \<open>
  Modelled from the spec: the class \<^verbatim>\<open>Timer\<close> of \<^verbatim>\<open>utils/Timer.js\<close> is not among
  the sources. Section 4.3 gives its states, \<^verbatim>\<open>idle\<close>, \<^verbatim>\<open>running\<close>,
  \<^verbatim>\<open>paused\<close>, \<^verbatim>\<open>fired\<close> and \<^verbatim>\<open>stopped\<close>; a timer counts down a remaining
  duration and belongs to the instance whose \<^verbatim>\<open>dismissWith\<close> its callback closes over.
\<close>

datatype timer_status = Idle | Running | Paused | Fired | Stopped

record timer =
  timer_owner :: inst
  remaining :: nat
  status :: timer_status

text \<open>
  The state: the outside world (the document, left abstract), the object heap, the
  instances, the module-level variable \<^verbatim>\<open>currentInstance\<close>, the three slots of
  \<^verbatim>\<open>globalState\<close>, the weak maps of \<^verbatim>\<open>privateMethods\<close> and
  \<^verbatim>\<open>privateProps\<close>, the promises, the timers and the trace.
\<close>

record 'x state =
  world :: 'x
  heap :: heap
  instances :: "inst \<Rightarrow> swal"
  currentInstance :: "inst option"
  gs_currentInstance :: "inst option"
  gs_timeout :: "tid option"
  gs_restoreFocusTimeout :: "nat option"
  pm_swalPromiseResolve :: "inst \<rightharpoonup> pid"
  pm_swalPromiseReject :: "inst \<rightharpoonup> pid"
  pp_innerParams :: "inst \<rightharpoonup> jsval"
  pp_domCache :: "inst \<rightharpoonup> dom_cache"
  promises :: "promise_state list"
  timers :: "timer list"
  trace :: "event list"

text \<open>
  The environment: what the modules that are not among the sources, and the JavaScript
  runtime, do. The effect of a call is any function of the whole state (a helper may run
  user hooks, which may in turn use the controller); queries of the document only read
  the state. The module \<^verbatim>\<open>instanceMethods\<close> is the map from the names it exports to
  the exported values; \<open>apply_function\<close> is the call of a function value on an
  instance as \<^verbatim>\<open>this\<close>; \<open>promise_then\<close> and \<open>promise_finally\<close> are the
  methods of a promise; \<open>object_prototype\<close> is what a property read finds on
  \<^verbatim>\<open>Object.prototype\<close> (\<^verbatim>\<open>undefined\<close> when it has no such property).
\<close>

record 'x env =
  window_defined :: bool
  defaultParams :: addr
  ext :: "event \<Rightarrow> 'x state \<Rightarrow> 'x state"
  argsToParams :: "jsval list \<Rightarrow> 'x state \<Rightarrow> jsval \<times> 'x state"
  getTemplateParams :: "jsval \<Rightarrow> 'x state \<Rightarrow> jsval \<times> 'x state"
  callIfFunction :: "jsval \<Rightarrow> 'x state \<Rightarrow> jsval \<times> 'x state"
  isModal :: "'x state \<Rightarrow> bool"
  dom_get :: "dom_part \<Rightarrow> 'x state \<Rightarrow> elem option"
  isVisible :: "elem \<Rightarrow> 'x state \<Rightarrow> bool"
  querySelectorAll :: "elem \<Rightarrow> string \<Rightarrow> 'x state \<Rightarrow> elem list"
  isHTMLElement :: "elem \<Rightarrow> 'x state \<Rightarrow> bool"
  activeElement :: "'x state \<Rightarrow> elem option"
  hasBlur :: "elem \<Rightarrow> 'x state \<Rightarrow> bool"
  getFocusableElements :: "'x state \<Rightarrow> elem list"
  instanceMethods :: "string \<rightharpoonup> jsval"
  apply_function :: "fid \<Rightarrow> inst \<Rightarrow> jsval list \<Rightarrow> 'x state \<Rightarrow> jsval \<times> 'x state"
  promise_then :: "pid \<Rightarrow> jsval \<Rightarrow> 'x state \<Rightarrow> jsval \<times> 'x state"
  promise_finally :: "pid \<Rightarrow> jsval \<Rightarrow> 'x state \<Rightarrow> jsval \<times> 'x state"
  object_prototype :: "string \<Rightarrow> jsval"

text \<open>A function either returns a value and a state, or throws in a state.\<close>

type_synonym ('a, 'x) res = "(error \<times> 'x state) + ('a \<times> 'x state)"

definition log :: "event \<Rightarrow> 'x state \<Rightarrow> 'x state" where
  "log ev s = s\<lparr>trace := trace s @ [ev]\<rparr>"

text \<open>
  A call of a helper: the call is recorded in the trace, then the helper runs. Whatever
  the helper does to the state stands, the trace included: when a helper runs code that
  uses the controller again, what that code does is recorded after the call.
\<close>

definition call :: "'x env \<Rightarrow> event \<Rightarrow> 'x state \<Rightarrow> 'x state" where
  "call env ev s = ext env ev (log ev s)"

definition call_val :: "('x state \<Rightarrow> 'a \<times> 'x state) \<Rightarrow> event \<Rightarrow> 'x state \<Rightarrow> 'a \<times> 'x state" where
  "call_val f ev s = f (log ev s)"

definition set_propS :: "addr \<Rightarrow> string \<Rightarrow> jsval \<Rightarrow> 'x state \<Rightarrow> (unit, 'x) res" where
  "set_propS a k v s =
     (case set_prop a k v (heap s) of
        Inl e \<Rightarrow> Inl (e, s)
      | Inr h \<Rightarrow> Inr ((), s\<lparr>heap := h\<rparr>))"

definition allocS :: "(string \<rightharpoonup> jsval) \<Rightarrow> 'x state \<Rightarrow> addr \<times> 'x state" where
  "allocS ps s = (fst (alloc ps (heap s)), s\<lparr>heap := snd (alloc ps (heap s))\<rparr>)"

definition object_assign_newS :: "jsval list \<Rightarrow> 'x state \<Rightarrow> addr \<times> 'x state" where
  "object_assign_newS srcs s =
     (fst (object_assign_new srcs (heap s)), s\<lparr>heap := snd (object_assign_new srcs (heap s))\<rparr>)"

text \<open>
  A promise settles once: \<^verbatim>\<open>resolve\<close> and \<^verbatim>\<open>reject\<close> act on a pending promise
  only. The call of \<^verbatim>\<open>resolve\<close> is recorded either way.
\<close>

definition new_promise :: "'x state \<Rightarrow> pid \<times> 'x state" where
  "new_promise s = (length (promises s), s\<lparr>promises := promises s @ [Pending]\<rparr>)"

definition settle :: "pid \<Rightarrow> promise_state \<Rightarrow> 'x state \<Rightarrow> 'x state" where
  "settle p r s =
     (if p < length (promises s) \<and> promises s ! p = Pending
      then s\<lparr>promises := (promises s)[p := r]\<rparr> else s)"

definition resolve :: "pid \<Rightarrow> jsrecord \<Rightarrow> 'x state \<Rightarrow> 'x state" where
  "resolve p v s = log (Resolve p v) (settle p (Fulfilled v) s)"


section \<open>Parameter preparation\<close>

text \<open>
  \<^verbatim>\<open>prepareParams\<close> (lines 161--173). The template parameters come from a helper
  outside the sources; the defaults are an object of the heap. The local object
  \<^verbatim>\<open>params\<close> is \<open>ps\<close>.
\<close>

definition prepareParams :: "'x env \<Rightarrow> jsval \<Rightarrow> jsval \<Rightarrow> 'x state \<Rightarrow> (addr, 'x) res" where
  "prepareParams env userParams mixinParams s0 =
     (let (templateParams, s1) =
            call_val (getTemplateParams env userParams) (GetTemplateParams userParams) s0;
          (ps, s2) =
            object_assign_newS
              [JRef (defaultParams env), mixinParams, templateParams, userParams] s1;
          (sc, s3) =
            object_assign_newS
              [get_prop (heap s2) (defaultParams env) ''showClass'',
               get_prop (heap s2) ps ''showClass''] s2
      in bindE (set_propS ps ''showClass'' (JRef sc) s3) (\<lambda>(_, s4).
         let (hc, s5) =
               object_assign_newS
                 [get_prop (heap s4) (defaultParams env) ''hideClass'',
                  get_prop (heap s4) ps ''hideClass''] s4
         in bindE (set_propS ps ''hideClass'' (JRef hc) s5) (\<lambda>(_, s6).
            if get_prop (heap s6) ps ''animation'' = JBool False
            then let (na, s7) = allocS [''backdrop'' \<mapsto> JStr ''swal2-noanimation''] s6
                 in bindE (set_propS ps ''showClass'' (JRef na) s7) (\<lambda>(_, s8).
                    let (em, s9) = allocS Map.empty s8
                    in bindE (set_propS ps ''hideClass'' (JRef em) s9) (\<lambda>(_, s10).
                       Inr (ps, s10)))
            else Inr (ps, s6))))"

section \<open>Focus\<close>

text \<open>
  \<^verbatim>\<open>dom.isVisible\<close> of a button that the document does not have is false, so that
  \<^verbatim>\<open>.focus()\<close> is only ever called on an element.
\<close>

definition visible :: "'x env \<Rightarrow> elem option \<Rightarrow> 'x state \<Rightarrow> bool" where
  "visible env eo s = (case eo of None \<Rightarrow> False | Some e \<Rightarrow> isVisible env e s)"

definition focus_elem :: "'x env \<Rightarrow> elem option \<Rightarrow> 'x state \<Rightarrow> 'x state" where
  "focus_elem env eo s = (case eo of None \<Rightarrow> s | Some e \<Rightarrow> call env (Focus e) s)"

text \<open>\<^verbatim>\<open>focusButton\<close> (lines 278--295).\<close>

definition focusButton :: "'x env \<Rightarrow> dom_cache \<Rightarrow> addr \<Rightarrow> 'x state \<Rightarrow> bool \<times> 'x state" where
  "focusButton env domCache innerParams s =
     (if truthy (get_prop (heap s) innerParams ''focusDeny'') \<and> visible env (denyButton domCache) s
      then (True, focus_elem env (denyButton domCache) s)
      else if truthy (get_prop (heap s) innerParams ''focusCancel'')
              \<and> visible env (cancelButton domCache) s
      then (True, focus_elem env (cancelButton domCache) s)
      else if truthy (get_prop (heap s) innerParams ''focusConfirm'')
              \<and> visible env (confirmButton domCache) s
      then (True, focus_elem env (confirmButton domCache) s)
      else (False, s))"

text \<open>\<^verbatim>\<open>focusAutofocus\<close> (lines 262--271): the loop, then the function.\<close>

fun focusAutofocus_loop :: "'x env \<Rightarrow> elem list \<Rightarrow> 'x state \<Rightarrow> bool \<times> 'x state" where
  "focusAutofocus_loop env [] s = (False, s)"
| "focusAutofocus_loop env (e # es) s =
     (if isHTMLElement env e s \<and> isVisible env e s
      then (True, call env (Focus e) s)
      else focusAutofocus_loop env es s)"

definition focusAutofocus :: "'x env \<Rightarrow> dom_cache \<Rightarrow> 'x state \<Rightarrow> (bool, 'x) res" where
  "focusAutofocus env domCache s =
     (case popup domCache of
        None \<Rightarrow> Inl (TypeError, s)
      | Some p \<Rightarrow> Inr (focusAutofocus_loop env (querySelectorAll env p ''[autofocus]'' s) s))"

text \<open>\<^verbatim>\<open>blurActiveElement\<close> (lines 297--301).\<close>

definition blurActiveElement :: "'x env \<Rightarrow> 'x state \<Rightarrow> 'x state" where
  "blurActiveElement env s =
     (case activeElement env s of
        None \<Rightarrow> s
      | Some e \<Rightarrow> if isHTMLElement env e s \<and> hasBlur env e s then call env (Blur e) s else s)"

text \<open>
  Modelled from the spec: \<^verbatim>\<open>setFocus\<close> of \<^verbatim>\<open>keydown-handler.js\<close> is not among the
  sources. Section 4.5, step 5, says of the call \<^verbatim>\<open>setFocus(-1, 1)\<close>: focus the first
  focusable element inside the dialog, or no-op if none exists. The element focused is
  the one at position \<open>index + increment\<close>.
\<close>

definition setFocus :: "'x env \<Rightarrow> int \<Rightarrow> int \<Rightarrow> 'x state \<Rightarrow> 'x state" where
  "setFocus env index increment s =
     (let es = getFocusableElements env s; i = index + increment
      in if 0 \<le> i \<and> nat i < length es then call env (Focus (es ! nat i)) s else s)"

text \<open>\<^verbatim>\<open>initFocus\<close> (lines 236--256).\<close>

definition initFocus :: "'x env \<Rightarrow> dom_cache \<Rightarrow> addr \<Rightarrow> 'x state \<Rightarrow> (unit, 'x) res" where
  "initFocus env domCache innerParams s =
     (if truthy (get_prop (heap s) innerParams ''toast'') then Inr ((), s)
      else
        let allowEnterKey = get_prop (heap s) innerParams ''allowEnterKey'';
            (v, s1) = call_val (callIfFunction env allowEnterKey) (CallIfFunction allowEnterKey) s
        in if \<not> truthy v
           then Inr ((), blurActiveElement env (call env (WarnAboutDeprecation ''allowEnterKey'') s1))
           else bindE (focusAutofocus env domCache s1) (\<lambda>(found, s2).
                if found then Inr ((), s2)
                else let (focused, s3) = focusButton env domCache innerParams s2
                     in if focused then Inr ((), s3)
                        else Inr ((), setFocus env (- 1) 1 s3)))"

section \<open>Timer\<close>

text \<open>
  Modelled from the spec: the operations of \<^verbatim>\<open>Timer\<close> (Section 4.3). A timer counts
  down from the moment it is constructed (line 214 of the source expects a timer that was
  just constructed to be \<^verbatim>\<open>running\<close>); a delay that is not a positive number counts
  as zero. \<^verbatim>\<open>stop()\<close> is terminal and has no effect after the timer fired or stopped.
\<close>

definition delay_ms :: "jsval \<Rightarrow> nat" where
  "delay_ms v = (case v of JNum n \<Rightarrow> nat n | _ \<Rightarrow> 0)"

definition new_Timer :: "inst \<Rightarrow> jsval \<Rightarrow> 'x state \<Rightarrow> tid \<times> 'x state" where
  "new_Timer owner delay s =
     (length (timers s),
      s\<lparr>timers := timers s @ [\<lparr>timer_owner = owner, remaining = delay_ms delay, status = Running\<rparr>]\<rparr>)"

definition timer_stop :: "tid \<Rightarrow> 'x state \<Rightarrow> 'x state" where
  "timer_stop t s =
     (if t < length (timers s) \<and> status (timers s ! t) \<notin> {Fired, Stopped}
      then s\<lparr>timers := (timers s)[t := (timers s ! t)\<lparr>status := Stopped\<rparr>]\<rparr>
      else s)"

text \<open>
  \<^verbatim>\<open>setupTimer\<close> (lines 202--221). The closure \<^verbatim>\<open>dismissWith\<close> is given by the
  instance it closes over.
\<close>

definition setupTimer :: "'x env \<Rightarrow> addr \<Rightarrow> inst \<Rightarrow> 'x state \<Rightarrow> 'x state" where
  "setupTimer env innerParams instance s =
     (let timerProgressBar = dom_get env TimerProgressBar s;
          s1 = call env (Hide timerProgressBar) s
      in if truthy (get_prop (heap s1) innerParams ''timer'')
         then
           let (t, s2) = new_Timer instance (get_prop (heap s1) innerParams ''timer'') s1;
               s3 = s2\<lparr>gs_timeout := Some t\<rparr>
           in if truthy (get_prop (heap s3) innerParams ''timerProgressBar'')
              then
                let s4 = call env (Show timerProgressBar) s3;
                    s5 = call env (ApplyCustomClass timerProgressBar (JRef innerParams)
                                     ''timerProgressBar'') s4
                in call env (SetTimeout (AnimateTimerProgressBar
                                           (get_prop (heap s5) innerParams ''timer''))) s5
              else s3
         else s1)"

section \<open>Opening a dialog\<close>

text \<open>\<^verbatim>\<open>populateDomCache\<close> (lines 179--195). A weak map rejects a key that is not an object.\<close>

definition populateDomCache :: "'x env \<Rightarrow> inst option \<Rightarrow> 'x state \<Rightarrow> (dom_cache, 'x) res" where
  "populateDomCache env instance s =
     (let domCache =
            \<lparr>popup = dom_get env Popup s,
             container = dom_get env Container s,
             actions = dom_get env Actions s,
             confirmButton = dom_get env ConfirmButton s,
             denyButton = dom_get env DenyButton s,
             cancelButton = dom_get env CancelButton s,
             loader = dom_get env Loader s,
             closeButton = dom_get env CloseButton s,
             validationMessage = dom_get env ValidationMessage s,
             progressSteps = dom_get env ProgressSteps s\<rparr>
      in case instance of
           None \<Rightarrow> Inl (TypeError, s)
         | Some i \<Rightarrow> Inr (domCache, s\<lparr>pp_domCache := (pp_domCache s)(i \<mapsto> domCache)\<rparr>))"

text \<open>Assigning \<^verbatim>\<open>button.onclick\<close> throws when the document has no such button.\<close>

definition set_onclick :: "'x env \<Rightarrow> elem option \<Rightarrow> handler \<Rightarrow> 'x state \<Rightarrow> (unit, 'x) res" where
  "set_onclick env eo h s =
     (case eo of
        None \<Rightarrow> Inl (TypeError, s)
      | Some e \<Rightarrow> Inr ((), call env (SetOnclick e h) s))"

text \<open>
  \<^verbatim>\<open>swalPromise\<close> (lines 108--154): the body of the executor, then the promise
  around it. An exception thrown inside an executor rejects the promise.
\<close>

definition swalPromise_executor ::
  "'x env \<Rightarrow> pid \<Rightarrow> inst option \<Rightarrow> dom_cache \<Rightarrow> addr \<Rightarrow> 'x state \<Rightarrow> (unit, 'x) res" where
  "swalPromise_executor env p instance domCache innerParams s =
     (case instance of
        None \<Rightarrow> Inl (TypeError, s)
      | Some i \<Rightarrow>
          let s1 = s\<lparr>pm_swalPromiseResolve := (pm_swalPromiseResolve s)(i \<mapsto> p)\<rparr>;
              s2 = s1\<lparr>pm_swalPromiseReject := (pm_swalPromiseReject s1)(i \<mapsto> p)\<rparr>
          in bindE (set_onclick env (confirmButton domCache) (OnConfirmClick i) s2) (\<lambda>(_, s3).
             bindE (set_onclick env (denyButton domCache) (OnDenyClick i) s3) (\<lambda>(_, s4).
             bindE (set_onclick env (cancelButton domCache) (OnCancelClick i) s4) (\<lambda>(_, s5).
             bindE (set_onclick env (closeButton domCache) (OnCloseClick i) s5) (\<lambda>(_, s6).
             let s7 = call env (HandlePopupClick (JRef innerParams) i) s6;
                 s8 = call env (AddKeydownHandler (JRef innerParams) i) s7;
                 s9 = call env (HandleInputOptionsAndValue i (JRef innerParams)) s8;
                 s10 = call env (OpenPopup (JRef innerParams)) s9;
                 s11 = setupTimer env innerParams i s10
             in bindE (initFocus env domCache innerParams s11) (\<lambda>(_, s12).
                Inr ((), call env (SetTimeout (ScrollContainerToTop (container domCache))) s12)))))))"

definition swalPromise ::
  "'x env \<Rightarrow> inst option \<Rightarrow> dom_cache \<Rightarrow> addr \<Rightarrow> 'x state \<Rightarrow> pid \<times> 'x state" where
  "swalPromise env instance domCache innerParams s =
     (let (p, s1) = new_promise s
      in case swalPromise_executor env p instance domCache innerParams s1 of
           Inr (_, s2) \<Rightarrow> (p, s2)
         | Inl (e, s2) \<Rightarrow> (p, settle p (Rejected e) s2))"

text \<open>
  The eviction of the registry's current instance, lines 56--66 of \<^verbatim>\<open>_main\<close>: the
  resolver and the flag are read before \<^verbatim>\<open>_destroy\<close> runs.
\<close>

definition main_evict :: "'x env \<Rightarrow> 'x state \<Rightarrow> (unit, 'x) res" where
  "main_evict env s =
     (case gs_currentInstance s of
        None \<Rightarrow> Inr ((), s)
      | Some a \<Rightarrow>
          let swalPromiseResolve = pm_swalPromiseResolve s a;
              awaiting = isAwaitingPromise (instances s a);
              s1 = call env (Destroy a) s
          in bindE
               (if awaiting = Some True then Inr ((), s1)
                else (case swalPromiseResolve of
                        None \<Rightarrow> Inl (TypeError, s1)
                      | Some p \<Rightarrow> Inr ((), resolve p [(''isDismissed'', JBool True)] s1)))
               (\<lambda>(_, s2). Inr ((), if isModal env s2 then call env UnsetAriaHidden s2 else s2)))"

text \<open>
  \<^verbatim>\<open>_main\<close> (lines 53--90), in three parts: the warnings of lines 53--54, where an
  omitted \<^verbatim>\<open>mixinParams\<close> is \<^verbatim>\<open>undefined\<close> and defaults to a fresh empty object;
  the eviction above; and the opening proper, lines 68--89.
\<close>

definition main_warnings :: "'x env \<Rightarrow> jsval \<Rightarrow> jsval \<Rightarrow> 'x state \<Rightarrow> jsval \<times> 'x state" where
  "main_warnings env userParams mixinParams0 s =
     (let (mixinParams, s0) =
            (if mixinParams0 = JUndefined
             then (JRef (fst (allocS Map.empty s)), snd (allocS Map.empty s))
             else (mixinParams0, s));
          (w, s1) = object_assign_newS [mixinParams, userParams] s0
      in (mixinParams, call env (ShowWarningsForParams (JRef w)) s1))"

definition main_open :: "'x env \<Rightarrow> jsval \<Rightarrow> jsval \<Rightarrow> 'x state \<Rightarrow> (pid, 'x) res" where
  "main_open env userParams mixinParams s3 =
     (let s4 = log (SetCurrentInstance (currentInstance s3))
                 (s3\<lparr>gs_currentInstance := currentInstance s3\<rparr>)
      in bindE (prepareParams env userParams mixinParams s4) (\<lambda>(innerParams, s5).
         let s6 = call env (SetParameters (JRef innerParams)) s5;
             s7 = s6\<lparr>heap := object_freeze (JRef innerParams) (heap s6)\<rparr>;
             s8 = (case gs_timeout s7 of
                     None \<Rightarrow> s7
                   | Some t \<Rightarrow> (timer_stop t s7)\<lparr>gs_timeout := None\<rparr>);
             s9 = call env (ClearTimeout (gs_restoreFocusTimeout s8)) s8
         in bindE (populateDomCache env (currentInstance s9) s9) (\<lambda>(domCache, s10).
            let s11 = call env (Render (currentInstance s10) (JRef innerParams)) s10
            in case currentInstance s11 of
                 None \<Rightarrow> Inl (TypeError, s11)
               | Some c \<Rightarrow>
                   Inr (swalPromise env (Some c) domCache innerParams
                          (s11\<lparr>pp_innerParams := (pp_innerParams s11)(c \<mapsto> JRef innerParams)\<rparr>)))))"

definition main :: "'x env \<Rightarrow> jsval \<Rightarrow> jsval \<Rightarrow> 'x state \<Rightarrow> (pid, 'x) res" where
  "main env userParams mixinParams0 s =
     (let (mixinParams, s2) = main_warnings env userParams mixinParams0 s
      in bindE (main_evict env s2) (\<lambda>(_, s3). main_open env userParams mixinParams s3))"

text \<open>
  The constructor (lines 33--51), run on the object \<open>this\<close> that \<^verbatim>\<open>new\<close> has
  allocated.
\<close>

definition constructor :: "'x env \<Rightarrow> inst \<Rightarrow> jsval list \<Rightarrow> 'x state \<Rightarrow> (unit, 'x) res" where
  "constructor env this args s =
     (if \<not> window_defined env then Inr ((), s)
      else
        let s1 = s\<lparr>currentInstance := Some this\<rparr>;
            (outerParams, s2) = call_val (argsToParams env args) (ArgsToParams args) s1;
            s3 = s2\<lparr>heap := object_freeze outerParams (heap s2)\<rparr>;
            s4 = s3\<lparr>instances := (instances s3)(this := (instances s3 this)\<lparr>params := Some outerParams\<rparr>)\<rparr>;
            s5 = s4\<lparr>instances := (instances s4)(this := (instances s4 this)\<lparr>isAwaitingPromise := Some False\<rparr>)\<rparr>
        in case currentInstance s5 of
             None \<Rightarrow> Inl (TypeError, s5)
           | Some c \<Rightarrow>
               bindE (main env (case params (instances s5 c) of Some v \<Rightarrow> v | None \<Rightarrow> JUndefined)
                        JUndefined s5)
                 (\<lambda>(p, s6).
                    Inr ((), s6\<lparr>instances := (instances s6)(this := (instances s6 this)\<lparr>promise := Some p\<rparr>)\<rparr>)))"


text \<open>
  The property read \<^verbatim>\<open>currentInstance[key]\<close> of line 463. An instance has the own
  properties that the constructor assigns, \<^verbatim>\<open>params\<close> and
  \<^verbatim>\<open>isAwaitingPromise\<close> (the field \<^verbatim>\<open>#promise\<close> is private and not a
  property); its prototype has the sixteen properties that lines 436--451 assign, each
  with the value that the module \<^verbatim>\<open>instanceMethods\<close> exports under that name
  (\<^verbatim>\<open>undefined\<close> when it exports none), and the members of the class,
  \<^verbatim>\<open>_main\<close>, \<^verbatim>\<open>then\<close>, \<^verbatim>\<open>finally\<close> and \<^verbatim>\<open>constructor\<close>; every
  other key is looked up on \<^verbatim>\<open>Object.prototype\<close>.
\<close>

definition prototype_methods :: "string list" where
  "prototype_methods =
     [''disableButtons'', ''enableButtons'', ''getInput'', ''disableInput'', ''enableInput'',
      ''hideLoading'', ''disableLoading'', ''showValidationMessage'',
      ''resetValidationMessage'', ''close'', ''closePopup'', ''closeModal'', ''closeToast'',
      ''rejectPromise'', ''update'', ''_destroy'']"

datatype member = Value jsval | MainMethod | ThenMethod | FinallyMethod | ClassConstructor

definition instance_member :: "'x env \<Rightarrow> 'x state \<Rightarrow> inst \<Rightarrow> string \<Rightarrow> member" where
  "instance_member env s c key =
     (case (if key = ''params'' then params (instances s c)
            else if key = ''isAwaitingPromise''
            then map_option JBool (isAwaitingPromise (instances s c))
            else None) of
        Some v \<Rightarrow> Value v
      | None \<Rightarrow>
          if key \<in> set prototype_methods
          then Value (case instanceMethods env key of Some v \<Rightarrow> v | None \<Rightarrow> JUndefined)
          else if key = ''_main'' then MainMethod
          else if key = ''then'' then ThenMethod
          else if key = ''finally'' then FinallyMethod
          else if key = ''constructor'' then ClassConstructor
          else Value (object_prototype env key))"

text \<open>The argument at a position, \<^verbatim>\<open>undefined\<close> when the call has fewer arguments.\<close>

definition nth_arg :: "jsval list \<Rightarrow> nat \<Rightarrow> jsval" where
  "nth_arg args i = (if i < length args then args ! i else JUndefined)"

text \<open>
  What lines 463--466 do with the value \<open>v\<close> of the property: a falsy value gives
  \<^verbatim>\<open>null\<close>; a truthy value is called on the instance with the arguments, which
  throws a \<^verbatim>\<open>TypeError\<close> when the value is not a function.
\<close>

definition proxy_call ::
  "'x env \<Rightarrow> string \<Rightarrow> inst \<Rightarrow> jsval list \<Rightarrow> jsval \<Rightarrow> 'x state \<Rightarrow> (jsval, 'x) res" where
  "proxy_call env key c args v s =
     (if \<not> truthy v then Inr (JNull, s)
      else (case v of
              JFun f \<Rightarrow> Inr (call_val (apply_function env f c args) (InstanceMethod key c args) s)
            | _ \<Rightarrow> Inl (TypeError, s)))"

text \<open>
  The static proxy that lines 457--468 install under every key of
  \<^verbatim>\<open>instanceMethods\<close>. It reads the module-level variable \<^verbatim>\<open>currentInstance\<close>.
  The members of the class are \<^verbatim>\<open>_main\<close> above, \<^verbatim>\<open>then\<close> and
  \<^verbatim>\<open>finally\<close> (lines 93--99), which call the method of \<^verbatim>\<open>this.#promise\<close>
  with their one parameter, and the constructor, which cannot be called without
  \<^verbatim>\<open>new\<close>.
\<close>

definition static_proxy :: "'x env \<Rightarrow> string \<Rightarrow> jsval list \<Rightarrow> 'x state \<Rightarrow> (jsval, 'x) res" where
  "static_proxy env key args s =
     (case currentInstance s of
        None \<Rightarrow> Inr (JNull, s)
      | Some c \<Rightarrow>
          (case instance_member env s c key of
             Value v \<Rightarrow> proxy_call env key c args v s
           | MainMethod \<Rightarrow>
               bindE (main env (nth_arg args 0) (nth_arg args 1) s) (\<lambda>(p, s'). Inr (JPromise p, s'))
           | ThenMethod \<Rightarrow>
               (case promise (instances s c) of
                  None \<Rightarrow> Inl (TypeError, s)
                | Some p \<Rightarrow>
                    Inr (call_val (promise_then env p (nth_arg args 0))
                           (PromiseThen p (nth_arg args 0)) s))
           | FinallyMethod \<Rightarrow>
               (case promise (instances s c) of
                  None \<Rightarrow> Inl (TypeError, s)
                | Some p \<Rightarrow>
                    Inr (call_val (promise_finally env p (nth_arg args 0))
                           (PromiseFinally p (nth_arg args 0)) s))
           | ClassConstructor \<Rightarrow> Inl (TypeError, s)))"

section \<open>Dismissal by the timer\<close>

text \<open>
  Modelled from the spec: the method \<^verbatim>\<open>close\<close> of \<^verbatim>\<open>instanceMethods.js\<close> is not
  among the sources. Section 4.1: it ``settles the asynchronous-result handle with the
  given partial result (filling omitted boolean fields as false/undefined), tears down
  rendered state, stops any owned Timer, clears itself from GlobalState if it is still
  current, and schedules focus restoration''; Section 8: a second \<^verbatim>\<open>close()\<close> is a
  no-op. The tear-down and the scheduling belong to the render layer and are one call
  of the environment.
\<close>

definition fill_result :: "jsrecord \<Rightarrow> jsrecord" where
  "fill_result r =
     map (\<lambda>k. (k, case map_of r k of Some v \<Rightarrow> v | None \<Rightarrow> JBool False))
       [''isConfirmed'', ''isDenied'', ''isDismissed'']
     @ filter (\<lambda>(k, v). k \<notin> {''isConfirmed'', ''isDenied'', ''isDismissed''}) r"

definition close :: "'x env \<Rightarrow> inst \<Rightarrow> jsrecord \<Rightarrow> 'x state \<Rightarrow> 'x state" where
  "close env instance resultPartial s =
     (case pm_swalPromiseResolve s instance of
        None \<Rightarrow> s
      | Some p \<Rightarrow>
          let s1 = resolve p (fill_result resultPartial) s;
              s2 = s1\<lparr>pm_swalPromiseResolve := (pm_swalPromiseResolve s1)(instance := None)\<rparr>;
              s3 = call env (Close instance resultPartial) s2;
              s4 = (case gs_timeout s3 of
                      None \<Rightarrow> s3
                    | Some t \<Rightarrow> (timer_stop t s3)\<lparr>gs_timeout := None\<rparr>)
          in if gs_currentInstance s4 = Some instance
             then s4\<lparr>gs_currentInstance := None\<rparr> else s4)"

text \<open>
  The closure \<^verbatim>\<open>dismissWith\<close> of \<^verbatim>\<open>swalPromise\<close> (lines 114--116), and the
  callback that \<^verbatim>\<open>setupTimer\<close> gives to the timer (lines 206--209).
\<close>

definition dismissWith :: "'x env \<Rightarrow> inst \<Rightarrow> jsval \<Rightarrow> 'x state \<Rightarrow> 'x state" where
  "dismissWith env instance dismiss s =
     close env instance [(''isDismissed'', JBool True), (''dismiss'', dismiss)] s"

definition timer_callback :: "'x env \<Rightarrow> inst \<Rightarrow> 'x state \<Rightarrow> 'x state" where
  "timer_callback env instance s = (dismissWith env instance (JStr ''timer'') s)\<lparr>gs_timeout := None\<rparr>"

text \<open>
  Modelled from the spec: the passing of time (Section 4.3). When \<open>dt\<close> milliseconds
  pass, a running timer whose remaining duration has expired transitions to
  \<^verbatim>\<open>fired\<close> and invokes its callback; otherwise its remaining duration decreases. A
  timer that is not running is not affected.
\<close>

definition timer_elapse :: "'x env \<Rightarrow> nat \<Rightarrow> tid \<Rightarrow> 'x state \<Rightarrow> 'x state" where
  "timer_elapse env dt t s =
     (if t < length (timers s) \<and> status (timers s ! t) = Running
      then
        if remaining (timers s ! t) \<le> dt
        then timer_callback env (timer_owner (timers s ! t))
               (log (TimerFired t)
                  (s\<lparr>timers := (timers s)[t := (timers s ! t)\<lparr>remaining := 0, status := Fired\<rparr>]\<rparr>))
        else s\<lparr>timers := (timers s)[t := (timers s ! t)\<lparr>remaining := remaining (timers s ! t) - dt\<rparr>]\<rparr>
      else s)"

definition elapse :: "'x env \<Rightarrow> nat \<Rightarrow> 'x state \<Rightarrow> 'x state" where
  "elapse env dt s = fold (timer_elapse env dt) [0..<length (timers s)] s"

text \<open>Time passing in several steps, with no other event in between.\<close>

definition elapse_all :: "'x env \<Rightarrow> nat list \<Rightarrow> 'x state \<Rightarrow> 'x state" where
  "elapse_all env dts s = fold (elapse env) dts s"

text \<open>
  The state of an armed timer: \<open>t\<close> is the last timer constructed, it is the
  registry's timer, it belongs to instance \<open>i\<close> and is running with \<open>r\<close>
  milliseconds left, no other timer is running, and the result of \<open>i\<close> is pending.
\<close>

definition armed :: "tid \<Rightarrow> inst \<Rightarrow> pid \<Rightarrow> nat \<Rightarrow> 'x state \<Rightarrow> bool" where
  "armed t i p r s =
     (length (timers s) = Suc t
      \<and> timers s ! t = \<lparr>timer_owner = i, remaining = r, status = Running\<rparr>
      \<and> list_all (\<lambda>tm. status tm \<noteq> Running) (take t (timers s))
      \<and> gs_timeout s = Some t
      \<and> pm_swalPromiseResolve s i = Some p
      \<and> p < length (promises s) \<and> promises s ! p = Pending)"

section \<open>Observing a run\<close>

text \<open>The state in which a function returned or threw.\<close>

definition res_state :: "('a, 'x) res \<Rightarrow> 'x state" where
  "res_state r = (case r of Inl (e, s) \<Rightarrow> s | Inr (x, s) \<Rightarrow> s)"

text \<open>
  The events of eviction and installation: the destruction of an instance, the
  settlement of a result, the write of the registry's current instance.
\<close>

fun registry_event :: "event \<Rightarrow> bool" where
  "registry_event (Destroy a) = True"
| "registry_event (Resolve p v) = True"
| "registry_event (SetCurrentInstance i) = True"
| "registry_event _ = False"

text \<open>
  An object never disappears, and a frozen object can never change again, whatever code
  runs. An environment respects this when none of its helpers removes an object from
  the heap or alters an object that is frozen.
\<close>

definition keeps_frozen :: "heap \<Rightarrow> heap \<Rightarrow> bool" where
  "keeps_frozen h h' =
     (length h \<le> length h' \<and> (\<forall>a. a < length h \<and> frozen (h ! a) \<longrightarrow> h' ! a = h ! a))"

definition respects_frozen :: "'x env \<Rightarrow> bool" where
  "respects_frozen env =
     ((\<forall>ev s. keeps_frozen (heap s) (heap (ext env ev s)))
      \<and> (\<forall>v s. keeps_frozen (heap s) (heap (snd (callIfFunction env v s)))))"

text \<open>
  Likewise a promise never disappears, and a promise that is settled can never change
  again, whatever code runs.
\<close>

definition keeps_settled :: "promise_state list \<Rightarrow> promise_state list \<Rightarrow> bool" where
  "keeps_settled ps ps' =
     (length ps \<le> length ps' \<and> (\<forall>p. p < length ps \<and> ps ! p \<noteq> Pending \<longrightarrow> ps' ! p = ps ! p))"

definition respects_settled :: "'x env \<Rightarrow> bool" where
  "respects_settled env =
     ((\<forall>ev s. keeps_settled (promises s) (promises (ext env ev s)))
      \<and> (\<forall>v s. keeps_settled (promises s) (promises (snd (callIfFunction env v s))))
      \<and> (\<forall>u s. keeps_settled (promises s) (promises (snd (getTemplateParams env u s)))))"

text \<open>
  A trace extends another quietly when what it adds are no registry events. No helper of
  an environment is re-entrant when all that a helper adds to the trace are no registry
  events: it runs no code that evicts an instance, settles a result through the
  controller or installs an instance.
\<close>

definition extends_quietly :: "event list \<Rightarrow> event list \<Rightarrow> bool" where
  "extends_quietly t t' = (\<exists>evs. t' = t @ evs \<and> list_all (\<lambda>e. \<not> registry_event e) evs)"

definition not_reentrant :: "'x env \<Rightarrow> bool" where
  "not_reentrant env =
     ((\<forall>ev s. extends_quietly (trace s) (trace (ext env ev s)))
      \<and> (\<forall>v s. extends_quietly (trace s) (trace (snd (callIfFunction env v s))))
      \<and> (\<forall>u s. extends_quietly (trace s) (trace (snd (getTemplateParams env u s)))))"

text \<open>
  An environment is inert when its helpers leave the state alone (they act on the
  document only, which the state does not describe further).
\<close>

definition inert :: "'x env \<Rightarrow> bool" where
  "inert env =
     ((\<forall>ev s. ext env ev s = s)
      \<and> (\<forall>v s. snd (callIfFunction env v s) = s)
      \<and> (\<forall>u s. snd (getTemplateParams env u s) = s))"

text \<open>
  A state follows another in an environment: when no helper is re-entrant, its trace
  extends the other's quietly; when the environment respects frozen objects, the frozen
  objects are still what they were; when it respects settled promises, so are the settled
  promises; and when it is inert, the heap, the module's current instance and the
  registry's current instance are what they were.
\<close>

definition follows :: "'x env \<Rightarrow> 'x state \<Rightarrow> 'x state \<Rightarrow> bool" where
  "follows env s s' =
     ((not_reentrant env \<longrightarrow> extends_quietly (trace s) (trace s'))
      \<and> (respects_frozen env \<longrightarrow> keeps_frozen (heap s) (heap s'))
      \<and> (respects_settled env \<longrightarrow> keeps_settled (promises s) (promises s'))
      \<and> (inert env \<longrightarrow>
            heap s' = heap s \<and> currentInstance s' = currentInstance s
            \<and> gs_currentInstance s' = gs_currentInstance s))"

section \<open>The wording of the specification\<close>

text \<open>
  The merge of Section 4.4, read in a heap: the defaults, overlaid by the mixin
  parameters, then by the template (declarative) parameters, then by the caller's
  parameters. It is the content of the object that line 163 of \<^verbatim>\<open>prepareParams\<close>
  builds.
\<close>

definition merged_props :: "'x env \<Rightarrow> heap \<Rightarrow> jsval \<Rightarrow> jsval \<Rightarrow> jsval \<Rightarrow> (string \<rightharpoonup> jsval)" where
  "merged_props env h mixinParams templateParams userParams =
     own_props h (JRef (defaultParams env)) ++ own_props h mixinParams
       ++ own_props h templateParams ++ own_props h userParams"

text \<open>
  The button step of focus acquisition in the words of the specification: the directives
  are tried in the order given, and the first one that is set and whose button is
  visible names the button to focus.
\<close>

fun first_directed_button :: "'x env \<Rightarrow> 'x state \<Rightarrow> (jsval \<times> elem option) list \<Rightarrow> elem option" where
  "first_directed_button env s [] = None"
| "first_directed_button env s ((directive, button) # rest) =
     (if truthy directive \<and> visible env button s then button
      else first_directed_button env s rest)"

definition focus_directives :: "dom_cache \<Rightarrow> heap \<Rightarrow> addr \<Rightarrow> (jsval \<times> elem option) list" where
  "focus_directives domCache h innerParams =
     [(get_prop h innerParams ''focusDeny'', denyButton domCache),
      (get_prop h innerParams ''focusCancel'', cancelButton domCache),
      (get_prop h innerParams ''focusConfirm'', confirmButton domCache)]"

section \<open>Example environments and states\<close>

text \<open>
  A browser in which every helper leaves the state alone, the document has all the parts
  of a dialog (element \<open>0\<close> to \<open>10\<close>), every element is a visible \<^verbatim>\<open>HTMLElement\<close>,
  no template is given, the module \<^verbatim>\<open>instanceMethods\<close> exports nothing, the methods
  of a promise return a new pending promise, and \<^verbatim>\<open>Object.prototype\<close> is left empty.
\<close>

fun part_elem :: "dom_part \<Rightarrow> elem" where
  "part_elem Popup = 0"
| "part_elem Container = 1"
| "part_elem Actions = 2"
| "part_elem ConfirmButton = 3"
| "part_elem DenyButton = 4"
| "part_elem CancelButton = 5"
| "part_elem Loader = 6"
| "part_elem CloseButton = 7"
| "part_elem ValidationMessage = 8"
| "part_elem ProgressSteps = 9"
| "part_elem TimerProgressBar = 10"

definition env0 :: "unit env" where
  "env0 =
     \<lparr>window_defined = True,
      defaultParams = 0,
      ext = (\<lambda>ev s. s),
      argsToParams = (\<lambda>args s. (case args of [] \<Rightarrow> JUndefined | a # _ \<Rightarrow> a, s)),
      getTemplateParams = (\<lambda>u s. (JUndefined, s)),
      callIfFunction = (\<lambda>v s. (v, s)),
      isModal = (\<lambda>s. True),
      dom_get = (\<lambda>part s. Some (part_elem part)),
      isVisible = (\<lambda>e s. True),
      querySelectorAll = (\<lambda>e q s. []),
      isHTMLElement = (\<lambda>e s. True),
      activeElement = (\<lambda>s. None),
      hasBlur = (\<lambda>e s. True),
      getFocusableElements = (\<lambda>s. []),
      instanceMethods = Map.empty,
      apply_function = (\<lambda>f this args s. (JUndefined, s)),
      promise_then = (\<lambda>p f s. (JPromise (length (promises s)), s\<lparr>promises := promises s @ [Pending]\<rparr>)),
      promise_finally = (\<lambda>p f s. (JPromise (length (promises s)), s\<lparr>promises := promises s @ [Pending]\<rparr>)),
      object_prototype = (\<lambda>k. JUndefined)\<rparr>"

definition state0 :: "unit state" where
  "state0 =
     \<lparr>world = (),
      heap = [],
      instances = (\<lambda>i. \<lparr>params = None, isAwaitingPromise = None, promise = None\<rparr>),
      currentInstance = None,
      gs_currentInstance = None,
      gs_timeout = None,
      gs_restoreFocusTimeout = None,
      pm_swalPromiseResolve = Map.empty,
      pm_swalPromiseReject = Map.empty,
      pp_innerParams = Map.empty,
      pp_domCache = Map.empty,
      promises = [],
      timers = [],
      trace = []\<rparr>"

text \<open>
  The merge example of the specification: defaults \<^verbatim>\<open>{a:1,b:1}\<close> at address 0, mixin
  \<^verbatim>\<open>{b:2}\<close> at 1, declarative \<^verbatim>\<open>{c:3}\<close> at 2, caller \<^verbatim>\<open>{a:9}\<close> at 3.
\<close>

definition merge_env :: "unit env" where
  "merge_env = env0\<lparr>getTemplateParams := (\<lambda>u s. (JRef 2, s))\<rparr>"

definition merge_state :: "unit state" where
  "merge_state =
     state0\<lparr>heap :=
       [\<lparr>props = [''a'' \<mapsto> JNum 1, ''b'' \<mapsto> JNum 1], frozen = False\<rparr>,
        \<lparr>props = [''b'' \<mapsto> JNum 2], frozen = False\<rparr>,
        \<lparr>props = [''c'' \<mapsto> JNum 3], frozen = False\<rparr>,
        \<lparr>props = [''a'' \<mapsto> JNum 9], frozen = True\<rparr>]\<rparr>"

text \<open>
  A caller who asks for no animation and supplies classes of its own: defaults
  \<^verbatim>\<open>{showClass: {popup: 'swal2-show'}, hideClass: {popup: 'swal2-hide'}}\<close> at address 0
  (the two class objects at 1 and 2), and the caller's
  \<^verbatim>\<open>{animation: false, showClass: {popup: 'mine'}}\<close> at 4 (its class object at 3).
\<close>

definition noanim_state :: "unit state" where
  "noanim_state =
     state0\<lparr>heap :=
       [\<lparr>props = [''showClass'' \<mapsto> JRef 1, ''hideClass'' \<mapsto> JRef 2], frozen = False\<rparr>,
        \<lparr>props = [''popup'' \<mapsto> JStr ''swal2-show''], frozen = False\<rparr>,
        \<lparr>props = [''popup'' \<mapsto> JStr ''swal2-hide''], frozen = False\<rparr>,
        \<lparr>props = [''popup'' \<mapsto> JStr ''mine''], frozen = False\<rparr>,
        \<lparr>props = [''animation'' \<mapsto> JBool False, ''showClass'' \<mapsto> JRef 3], frozen = True\<rparr>]\<rparr>"

text \<open>
  Examples for focus acquisition. The cache of a complete dialog; a heap with four
  configurations, \<^verbatim>\<open>{toast: true}\<close> at address 0, \<^verbatim>\<open>{allowEnterKey: false}\<close> at 1,
  \<^verbatim>\<open>{allowEnterKey: true, focusDeny: true, focusConfirm: true}\<close> at 2 and
  \<^verbatim>\<open>{allowEnterKey: true}\<close> at 3; a document in which element 30 has the focus and
  the buttons 3, 4 and 5 are focusable; and the same document with two elements marked
  \<^verbatim>\<open>autofocus\<close> in the popup, 20 (an SVG element, not an \<^verbatim>\<open>HTMLElement\<close>) and 21.
\<close>

definition dialog_cache :: dom_cache where
  "dialog_cache =
     \<lparr>popup = Some 0, container = Some 1, actions = Some 2, confirmButton = Some 3,
      denyButton = Some 4, cancelButton = Some 5, loader = Some 6, closeButton = Some 7,
      validationMessage = Some 8, progressSteps = Some 9\<rparr>"

definition focus_state :: "unit state" where
  "focus_state =
     state0\<lparr>heap :=
       [\<lparr>props = [''toast'' \<mapsto> JBool True], frozen = True\<rparr>,
        \<lparr>props = [''allowEnterKey'' \<mapsto> JBool False], frozen = True\<rparr>,
        \<lparr>props = [''allowEnterKey'' \<mapsto> JBool True, ''focusDeny'' \<mapsto> JBool True,
                  ''focusConfirm'' \<mapsto> JBool True], frozen = True\<rparr>,
        \<lparr>props = [''allowEnterKey'' \<mapsto> JBool True], frozen = True\<rparr>]\<rparr>"

definition focus_env :: "unit env" where
  "focus_env = env0\<lparr>activeElement := (\<lambda>s. Some 30), getFocusableElements := (\<lambda>s. [3, 4, 5])\<rparr>"

definition svg_env :: "unit env" where
  "svg_env =
     focus_env\<lparr>querySelectorAll := (\<lambda>e q s. if e = 0 \<and> q = ''[autofocus]'' then [20, 21] else []),
               isHTMLElement := (\<lambda>e s. e \<noteq> 20)\<rparr>"

text \<open>
  Examples for opening a dialog. In \<open>open_state\<close> a dialog, instance 0, is open and
  awaits nothing: it is the registry's current instance, its promise (number 0) is
  pending and its resolver is registered; instance 1 has just been constructed with the
  parameters at address 1 and is the module's \<^verbatim>\<open>currentInstance\<close>. The defaults, at
  address 0, are empty. In \<open>awaiting_state\<close> instance 0 awaits the result of an action.
  In \<open>orphan_state\<close> the opening of instance 0 is still under way, as it is while
  line 85 renders its dialog: instance 0 is the registry's current instance (line 68), it
  awaits nothing, and it has no promise and no registered resolver yet (line 118); instance
  1 has just been constructed, by a hook that the renderer runs.
  \<open>node_env\<close> is an environment without \<^verbatim>\<open>window\<close>.
\<close>

definition open_state :: "unit state" where
  "open_state =
     state0\<lparr>heap := [\<lparr>props = Map.empty, frozen = False\<rparr>,
                      \<lparr>props = [''title'' \<mapsto> JStr ''B''], frozen = True\<rparr>],
            instances := (\<lambda>i. \<lparr>params = (if i \<le> 1 then Some (JRef 1) else None),
                                isAwaitingPromise = (if i \<le> 1 then Some False else None),
                                promise = (if i = 0 then Some 0 else None)\<rparr>),
            currentInstance := Some 1,
            gs_currentInstance := Some 0,
            pm_swalPromiseResolve := [0 \<mapsto> 0],
            pm_swalPromiseReject := [0 \<mapsto> 0],
            promises := [Pending]\<rparr>"

definition awaiting_state :: "unit state" where
  "awaiting_state =
     open_state\<lparr>instances := (\<lambda>i. \<lparr>params = (if i \<le> 1 then Some (JRef 1) else None),
                                    isAwaitingPromise = (if i \<le> 1 then Some (i = 0) else None),
                                    promise = (if i = 0 then Some 0 else None)\<rparr>)\<rparr>"

definition orphan_state :: "unit state" where
  "orphan_state =
     open_state\<lparr>instances := (\<lambda>i. \<lparr>params = (if i \<le> 1 then Some (JRef 1) else None),
                                    isAwaitingPromise = (if i \<le> 1 then Some False else None),
                                    promise = None\<rparr>),
                pm_swalPromiseResolve := Map.empty,
                pm_swalPromiseReject := Map.empty,
                promises := []\<rparr>"

definition node_env :: "unit env" where
  "node_env = env0\<lparr>window_defined := False\<rparr>"

text \<open>
  Examples for the static proxy. The module \<^verbatim>\<open>instanceMethods\<close> exports three
  functions: \<^verbatim>\<open>getInput\<close> (function 0), which returns the string \<^verbatim>\<open>'input'\<close>;
  \<^verbatim>\<open>close\<close> (function 1), which clears the registry when the instance is the
  current one (Section 4.1 of the specification: closing ``clears itself from GlobalState
  if it is still current''); and \<^verbatim>\<open>isAwaitingPromise\<close> (function 2), which lines
  436--451 do not assign to the prototype. In \<open>fresh_state\<close> no instance has been
  constructed; the defaults are at address 0 and a caller's parameters at address 1. In
  \<open>busy_state\<close> the module's \<^verbatim>\<open>currentInstance\<close> is instance 0, whose dialog is
  open and awaits the result of an action; \<open>idle_state\<close> is the same state with
  instance 0 awaiting nothing.
\<close>

definition method_env :: "unit env" where
  "method_env =
     env0\<lparr>instanceMethods :=
            [''getInput'' \<mapsto> JFun 0, ''close'' \<mapsto> JFun 1, ''isAwaitingPromise'' \<mapsto> JFun 2],
          apply_function := (\<lambda>f i args s.
            if f = 0 then (JStr ''input'', s)
            else if f = 1
            then (JUndefined, if gs_currentInstance s = Some i then s\<lparr>gs_currentInstance := None\<rparr> else s)
            else (JBool False, s))\<rparr>"

definition busy_state :: "unit state" where
  "busy_state = awaiting_state\<lparr>currentInstance := Some 0\<rparr>"

definition idle_state :: "unit state" where
  "idle_state = open_state\<lparr>currentInstance := Some 0\<rparr>"

definition fresh_state :: "unit state" where
  "fresh_state =
     state0\<lparr>heap := [\<lparr>props = Map.empty, frozen = False\<rparr>,
                      \<lparr>props = [''title'' \<mapsto> JStr ''A''], frozen = False\<rparr>]\<rparr>"

text \<open>
  An example for the timer: the dialog of instance 0 is open, its configuration, at
  address 2, asks for a timer of 3000 milliseconds, and no timer exists yet.
\<close>

definition timer_state :: "unit state" where
  "timer_state =
     open_state\<lparr>heap := [\<lparr>props = Map.empty, frozen = False\<rparr>,
                         \<lparr>props = [''title'' \<mapsto> JStr ''B''], frozen = True\<rparr>,
                         \<lparr>props = [''timer'' \<mapsto> JNum 3000], frozen = True\<rparr>]\<rparr>"

section \<open>Facts about the heap and about parameter preparation\<close>

lemma object_assign_newS_eq:
  "object_assign_newS srcs s =
     (length (heap s),
      s\<lparr>heap := heap s @
         [\<lparr>props = foldl (\<lambda>acc src. acc ++ own_props (heap s) src) Map.empty srcs,
           frozen = False\<rparr>]\<rparr>)"
  by (simp add: object_assign_newS_def object_assign_new_def alloc_def)

lemma allocS_eq:
  "allocS ps s = (length (heap s), s\<lparr>heap := heap s @ [\<lparr>props = ps, frozen = False\<rparr>]\<rparr>)"
  by (simp add: allocS_def alloc_def)

lemma set_propS_unfrozen:
  "a < length (heap s) \<Longrightarrow> \<not> frozen (heap s ! a) \<Longrightarrow>
   set_propS a k v s =
     Inr ((), s\<lparr>heap := (heap s)[a := (heap s ! a)\<lparr>props := (props (heap s ! a))(k \<mapsto> v)\<rparr>]\<rparr>)"
  by (simp add: set_propS_def set_prop_def)

lemma get_prop_valid:
  "a < length h \<Longrightarrow>
   get_prop h a k = (case props (h ! a) k of Some v \<Rightarrow> v | None \<Rightarrow> JUndefined)"
  by (simp add: get_prop_def own_props_def)

lemma own_props_valid: "a < length h \<Longrightarrow> own_props h (JRef a) = props (h ! a)"
  by (simp add: own_props_def)

text \<open>
  What \<^verbatim>\<open>prepareParams\<close> returns: it never throws; the result is a fresh, unfrozen
  object; the objects that existed before are untouched; every key but
  \<^verbatim>\<open>showClass\<close> and \<^verbatim>\<open>hideClass\<close> has its merged value; those two keys hold
  fresh, unfrozen objects.
\<close>

lemma prepareParams_result:
  fixes mixinParams :: jsval
  assumes gtp: "call_val (getTemplateParams env userParams) (GetTemplateParams userParams) s0
                  = (templateParams, s1)"
  defines "n \<equiv> length (heap s1)"
  defines "m \<equiv> merged_props env (heap s1) mixinParams templateParams userParams"
  shows "\<exists>s' sc hc. prepareParams env userParams mixinParams s0 = Inr (n, s')
     \<and> s' = s1\<lparr>heap := heap s'\<rparr>
     \<and> take n (heap s') = heap s1
     \<and> n < length (heap s') \<and> \<not> frozen (heap s' ! n)
     \<and> (\<forall>k. k \<noteq> ''showClass'' \<longrightarrow> k \<noteq> ''hideClass'' \<longrightarrow> props (heap s' ! n) k = m k)
     \<and> props (heap s' ! n) ''showClass'' = Some (JRef sc)
     \<and> props (heap s' ! n) ''hideClass'' = Some (JRef hc)
     \<and> n < sc \<and> sc < length (heap s') \<and> \<not> frozen (heap s' ! sc)
     \<and> n < hc \<and> hc < length (heap s') \<and> \<not> frozen (heap s' ! hc)
     \<and> sc = (if m ''animation'' = Some (JBool False) then n + 3 else n + 1)
     \<and> (m ''animation'' = Some (JBool False) \<longrightarrow>
          props (heap s' ! sc) = [''backdrop'' \<mapsto> JStr ''swal2-noanimation'']
          \<and> props (heap s' ! hc) = Map.empty)"
proof (cases "m ''animation'' = Some (JBool False)")
  case True
  then show ?thesis
    unfolding m_def merged_props_def
    unfolding prepareParams_def gtp n_def m_def merged_props_def
    by (simp add: Let_def object_assign_newS_eq allocS_eq set_propS_unfrozen bindE_def nth_append
        get_prop_valid)
next
  case False
  then have "(case m ''animation'' of None \<Rightarrow> JUndefined | Some v \<Rightarrow> v) \<noteq> JBool False"
    by (auto split: option.splits)
  with False show ?thesis
    unfolding m_def merged_props_def
    unfolding prepareParams_def gtp n_def m_def merged_props_def
    by (simp add: Let_def object_assign_newS_eq allocS_eq set_propS_unfrozen bindE_def nth_append
        get_prop_valid)
qed

lemma map_add4_precedence:
  "(d ++ m ++ t ++ u) k =
     (case u k of Some v \<Rightarrow> Some v | None \<Rightarrow>
      (case t k of Some v \<Rightarrow> Some v | None \<Rightarrow>
       (case m k of Some v \<Rightarrow> Some v | None \<Rightarrow> d k)))"
  by (simp add: map_add_def split: option.splits)

section \<open>Parameter preparation: the claims\<close>

text \<open>
  Claim C4. \<^verbatim>\<open>prepareParams\<close> never throws, and every option of the effective
  configuration other than \<^verbatim>\<open>showClass\<close> and \<^verbatim>\<open>hideClass\<close> (which lines
  164--171 rebuild) has the value of the source of highest precedence that has the
  option: the caller's parameters, else the template (declarative) parameters, else the
  mixin parameters, else the defaults. The sources are read in the state in which
  \<^verbatim>\<open>getTemplateParams\<close> returned.
\<close>

theorem prepareParams_precedence:
  assumes "call_val (getTemplateParams env userParams) (GetTemplateParams userParams) s0
             = (templateParams, s1)"
    and "k \<noteq> ''showClass''" and "k \<noteq> ''hideClass''"
  shows "\<exists>ps s'. prepareParams env userParams mixinParams s0 = Inr (ps, s') \<and>
           own_props (heap s') (JRef ps) k =
             (case own_props (heap s1) userParams k of Some v \<Rightarrow> Some v | None \<Rightarrow>
              (case own_props (heap s1) templateParams k of Some v \<Rightarrow> Some v | None \<Rightarrow>
               (case own_props (heap s1) mixinParams k of Some v \<Rightarrow> Some v | None \<Rightarrow>
                own_props (heap s1) (JRef (defaultParams env)) k)))"
proof -
  from prepareParams_result [OF assms(1), of mixinParams]
  obtain s' where r: "prepareParams env userParams mixinParams s0 = Inr (length (heap s1), s')"
    and v: "length (heap s1) < length (heap s')"
    and m: "props (heap s' ! length (heap s1)) k
              = merged_props env (heap s1) mixinParams templateParams userParams k"
    using assms(2,3) by blast
  have "own_props (heap s') (JRef (length (heap s1))) k
          = merged_props env (heap s1) mixinParams templateParams userParams k"
    using v m by (simp add: own_props_valid)
  then show ?thesis
    using r by (simp add: merged_props_def map_add4_precedence)
qed

text \<open>
  The example of the specification: with defaults \<^verbatim>\<open>{a:1,b:1}\<close>, mixin
  \<^verbatim>\<open>{b:2}\<close>, declarative \<^verbatim>\<open>{c:3}\<close> and caller \<^verbatim>\<open>{a:9}\<close>, the effective
  configuration maps \<^verbatim>\<open>a\<close> to 9, \<^verbatim>\<open>b\<close> to 2 and \<^verbatim>\<open>c\<close> to 3.
\<close>

theorem prepareParams_precedence_witness:
  "\<exists>ps s'. prepareParams merge_env (JRef 3) (JRef 1) merge_state = Inr (ps, s') \<and>
     own_props (heap s') (JRef ps) ''a'' = Some (JNum 9) \<and>
     own_props (heap s') (JRef ps) ''b'' = Some (JNum 2) \<and>
     own_props (heap s') (JRef ps) ''c'' = Some (JNum 3)"
proof -
  let ?s1 = "merge_state\<lparr>trace := [GetTemplateParams (JRef 3)]\<rparr>"
  have g: "call_val (getTemplateParams merge_env (JRef 3)) (GetTemplateParams (JRef 3)) merge_state
             = (JRef 2, ?s1)"
    by (simp add: call_val_def log_def merge_env_def merge_state_def state0_def)
  have h: "heap ?s1 = heap merge_state"
    by simp
  have d: "defaultParams merge_env = 0"
    by (simp add: merge_env_def env0_def)
  have e0: "own_props (heap merge_state) (JRef 0) = [''a'' \<mapsto> JNum 1, ''b'' \<mapsto> JNum 1]"
    and e1: "own_props (heap merge_state) (JRef 1) = [''b'' \<mapsto> JNum 2]"
    and e2: "own_props (heap merge_state) (JRef 2) = [''c'' \<mapsto> JNum 3]"
    and e3: "own_props (heap merge_state) (JRef 3) = [''a'' \<mapsto> JNum 9]"
    by (simp_all add: own_props_def merge_state_def state0_def)
  note th = prepareParams_precedence [OF g, of _ "JRef 1", unfolded h d e0 e1 e2 e3]
  obtain ps s' where r: "prepareParams merge_env (JRef 3) (JRef 1) merge_state = Inr (ps, s')"
    and a: "own_props (heap s') (JRef ps) ''a'' = Some (JNum 9)"
    using th [of "''a''"] by auto
  have b: "own_props (heap s') (JRef ps) ''b'' = Some (JNum 2)"
    using th [of "''b''"] r by auto
  have c: "own_props (heap s') (JRef ps) ''c'' = Some (JNum 3)"
    using th [of "''c''"] r by auto
  from r a b c show ?thesis by blast
qed

text \<open>
  Claim C5. When the merged \<^verbatim>\<open>animation\<close> flag is \<^verbatim>\<open>false\<close>, the effective
  configuration has, whatever classes the four sources supply, a \<^verbatim>\<open>showClass\<close> that
  is an object with the single entry \<^verbatim>\<open>backdrop: 'swal2-noanimation'\<close> and a
  \<^verbatim>\<open>hideClass\<close> that is an object without entries.
\<close>

theorem prepareParams_no_animation:
  assumes "call_val (getTemplateParams env userParams) (GetTemplateParams userParams) s0
             = (templateParams, s1)"
    and "merged_props env (heap s1) mixinParams templateParams userParams ''animation''
           = Some (JBool False)"
  shows "\<exists>ps s' sc hc. prepareParams env userParams mixinParams s0 = Inr (ps, s') \<and>
           own_props (heap s') (JRef ps) ''showClass'' = Some (JRef sc) \<and>
           own_props (heap s') (JRef sc) = [''backdrop'' \<mapsto> JStr ''swal2-noanimation''] \<and>
           own_props (heap s') (JRef ps) ''hideClass'' = Some (JRef hc) \<and>
           own_props (heap s') (JRef hc) = Map.empty"
proof -
  from prepareParams_result [OF assms(1), of mixinParams]
  obtain s' sc hc where
    r: "prepareParams env userParams mixinParams s0 = Inr (length (heap s1), s')
     \<and> s' = s1\<lparr>heap := heap s'\<rparr>
     \<and> take (length (heap s1)) (heap s') = heap s1
     \<and> length (heap s1) < length (heap s') \<and> \<not> frozen (heap s' ! length (heap s1))
     \<and> (\<forall>k. k \<noteq> ''showClass'' \<longrightarrow> k \<noteq> ''hideClass'' \<longrightarrow> props (heap s' ! length (heap s1)) k = merged_props env (heap s1) mixinParams templateParams userParams k)
     \<and> props (heap s' ! length (heap s1)) ''showClass'' = Some (JRef sc)
     \<and> props (heap s' ! length (heap s1)) ''hideClass'' = Some (JRef hc)
     \<and> length (heap s1) < sc \<and> sc < length (heap s') \<and> \<not> frozen (heap s' ! sc)
     \<and> length (heap s1) < hc \<and> hc < length (heap s') \<and> \<not> frozen (heap s' ! hc)
     \<and> sc = (if merged_props env (heap s1) mixinParams templateParams userParams ''animation'' = Some (JBool False) then length (heap s1) + 3 else length (heap s1) + 1)
     \<and> (merged_props env (heap s1) mixinParams templateParams userParams ''animation'' = Some (JBool False) \<longrightarrow>
          props (heap s' ! sc) = [''backdrop'' \<mapsto> JStr ''swal2-noanimation'']
          \<and> props (heap s' ! hc) = Map.empty)"
    by (elim exE) 
  have 1: "prepareParams env userParams mixinParams s0 = Inr (length (heap s1), s')"
    and 2: "length (heap s1) < length (heap s')"
    and 3: "props (heap s' ! length (heap s1)) ''showClass'' = Some (JRef sc)"
    and 4: "props (heap s' ! length (heap s1)) ''hideClass'' = Some (JRef hc)"
    and 5: "sc < length (heap s')" and 6: "hc < length (heap s')"
    using r by simp_all
  have 7: "props (heap s' ! sc) = [''backdrop'' \<mapsto> JStr ''swal2-noanimation'']"
    and 8: "props (heap s' ! hc) = Map.empty"
    using r assms(2) by auto
  show ?thesis
    using 1 2 3 4 5 6 7 8 by (simp add: own_props_valid)
qed

theorem prepareParams_no_animation_witness:
  "merged_props env0 (heap noanim_state) JUndefined JUndefined (JRef 4) ''animation''
     = Some (JBool False) \<and>
   (\<exists>ps s' sc hc. prepareParams env0 (JRef 4) JUndefined noanim_state = Inr (ps, s') \<and>
      own_props (heap s') (JRef ps) ''showClass'' = Some (JRef sc) \<and>
      own_props (heap s') (JRef sc) = [''backdrop'' \<mapsto> JStr ''swal2-noanimation''] \<and>
      own_props (heap s') (JRef ps) ''hideClass'' = Some (JRef hc) \<and>
      own_props (heap s') (JRef hc) = Map.empty)"
proof -
  let ?s1 = "noanim_state\<lparr>trace := [GetTemplateParams (JRef 4)]\<rparr>"
  have g: "call_val (getTemplateParams env0 (JRef 4)) (GetTemplateParams (JRef 4)) noanim_state
             = (JUndefined, ?s1)"
    by (simp add: call_val_def log_def env0_def noanim_state_def state0_def)
  have h: "heap ?s1 = heap noanim_state"
    by simp
  have a: "merged_props env0 (heap noanim_state) JUndefined JUndefined (JRef 4) ''animation''
             = Some (JBool False)"
    by (simp add: merged_props_def own_props_def noanim_state_def state0_def env0_def)
  from prepareParams_no_animation [OF g, of JUndefined, unfolded h, OF a] a show ?thesis
    by blast
qed

section \<open>Focus acquisition: the claims\<close>

text \<open>The loop of \<^verbatim>\<open>focusAutofocus\<close> finds the first element that passes both tests.\<close>

lemma focusAutofocus_loop_find:
  "focusAutofocus_loop env es s =
     (case find (\<lambda>e. isHTMLElement env e s \<and> isVisible env e s) es of
        Some e \<Rightarrow> (True, call env (Focus e) s)
      | None \<Rightarrow> (False, s))"
  by (induction es) simp_all

lemma focusButton_first:
  "focusButton env domCache innerParams s =
     (case first_directed_button env s (focus_directives domCache (heap s) innerParams) of
        Some e \<Rightarrow> (True, call env (Focus e) s)
      | None \<Rightarrow> (False, s))"
  by (auto simp add: focusButton_def focus_directives_def visible_def focus_elem_def
      split: option.splits)

lemma focus_state_props:
  "get_prop (heap focus_state) 0 ''toast'' = JBool True"
  "get_prop (heap focus_state) 1 ''toast'' = JUndefined"
  "get_prop (heap focus_state) 2 ''toast'' = JUndefined"
  "get_prop (heap focus_state) 3 ''toast'' = JUndefined"
  "get_prop (heap focus_state) 1 ''allowEnterKey'' = JBool False"
  "get_prop (heap focus_state) 2 ''allowEnterKey'' = JBool True"
  "get_prop (heap focus_state) 3 ''allowEnterKey'' = JBool True"
  "get_prop (heap focus_state) 2 ''focusDeny'' = JBool True"
  "get_prop (heap focus_state) 2 ''focusCancel'' = JUndefined"
  "get_prop (heap focus_state) 2 ''focusConfirm'' = JBool True"
  "get_prop (heap focus_state) 3 ''focusDeny'' = JUndefined"
  "get_prop (heap focus_state) 3 ''focusCancel'' = JUndefined"
  "get_prop (heap focus_state) 3 ''focusConfirm'' = JUndefined"
  "get_prop (heap focus_state) (Suc 0) ''toast'' = JUndefined"
  "get_prop (heap focus_state) (Suc 0) ''allowEnterKey'' = JBool False"
  by (simp_all add: get_prop_def own_props_def focus_state_def state0_def)

lemma focus_state_fields:
  "trace focus_state = []"
  "heap (focus_state\<lparr>trace := t\<rparr>) = heap focus_state"
  by (simp_all add: focus_state_def state0_def)

lemma focus_env_fields:
  "callIfFunction focus_env = (\<lambda>v s. (v, s))"
  "callIfFunction svg_env = (\<lambda>v s. (v, s))"
  "ext focus_env = (\<lambda>ev s. s)"
  "ext svg_env = (\<lambda>ev s. s)"
  "activeElement focus_env = (\<lambda>s. Some 30)"
  "isHTMLElement focus_env = (\<lambda>e s. True)"
  "isHTMLElement svg_env = (\<lambda>e s. e \<noteq> 20)"
  "hasBlur focus_env = (\<lambda>e s. True)"
  "isVisible focus_env = (\<lambda>e s. True)"
  "isVisible svg_env = (\<lambda>e s. True)"
  "querySelectorAll focus_env = (\<lambda>e q s. [])"
  "querySelectorAll svg_env = (\<lambda>e q s. if e = 0 \<and> q = ''[autofocus]'' then [20, 21] else [])"
  "getFocusableElements focus_env = (\<lambda>s. [3, 4, 5])"
  by (simp_all add: svg_env_def focus_env_def env0_def)

lemma dialog_cache_fields:
  "popup dialog_cache = Some 0" "denyButton dialog_cache = Some 4"
  "cancelButton dialog_cache = Some 5" "confirmButton dialog_cache = Some 3"
  by (simp_all add: dialog_cache_def)

text \<open>
  Claim C6. The button step tries \<^verbatim>\<open>focusDeny\<close>, then \<^verbatim>\<open>focusCancel\<close>, then
  \<^verbatim>\<open>focusConfirm\<close>, each together with the visibility of its button; the first
  match is focused, nothing else happens, and the function reports \<^verbatim>\<open>true\<close>; without
  a match nothing happens and it reports \<^verbatim>\<open>false\<close>. In particular, with
  \<^verbatim>\<open>focusDeny\<close> set and the deny and confirm buttons visible, the deny button is
  focused, whatever \<^verbatim>\<open>focusConfirm\<close> says.
\<close>

theorem focusButton_order:
  "focusButton env domCache innerParams s =
     (case first_directed_button env s (focus_directives domCache (heap s) innerParams) of
        Some e \<Rightarrow> (True, call env (Focus e) s)
      | None \<Rightarrow> (False, s))
   \<and> (truthy (get_prop (heap s) innerParams ''focusDeny'') \<and> denyButton domCache = Some d
        \<and> isVisible env d s \<and> confirmButton domCache = Some c \<and> isVisible env c s
        \<longrightarrow> focusButton env domCache innerParams s = (True, call env (Focus d) s))"
  by (auto simp add: focusButton_def focus_directives_def visible_def focus_elem_def
      split: option.splits)

text \<open>
  With \<^verbatim>\<open>focusDeny\<close> and \<^verbatim>\<open>focusConfirm\<close> both \<^verbatim>\<open>true\<close> and all
  buttons visible, the only thing that happens is that the deny button (element 4)
  receives the focus.
\<close>

theorem focusButton_order_witness:
  "truthy (get_prop (heap focus_state) 2 ''focusDeny'')
   \<and> truthy (get_prop (heap focus_state) 2 ''focusConfirm'')
   \<and> denyButton dialog_cache = Some 4 \<and> isVisible focus_env 4 focus_state
   \<and> confirmButton dialog_cache = Some 3 \<and> isVisible focus_env 3 focus_state
   \<and> focusButton focus_env dialog_cache 2 focus_state = (True, call focus_env (Focus 4) focus_state)
   \<and> trace (call focus_env (Focus 4) focus_state) = [Focus 4]"
proof -
  have a: "truthy (get_prop (heap focus_state) 2 ''focusDeny'')"
    and b: "truthy (get_prop (heap focus_state) 2 ''focusConfirm'')"
    by (simp_all add: get_prop_def own_props_def focus_state_def state0_def)
  have c: "denyButton dialog_cache = Some 4" "confirmButton dialog_cache = Some 3"
    by (simp_all add: dialog_cache_def)
  have v: "isVisible focus_env 4 focus_state" "isVisible focus_env 3 focus_state"
    by (simp_all add: focus_env_def env0_def)
  have t: "trace (call focus_env (Focus 4) focus_state) = [Focus 4]"
    by (simp add: call_def log_def focus_env_fields focus_state_def state0_def)
  have r: "focusButton focus_env dialog_cache 2 focus_state
             = (True, call focus_env (Focus 4) focus_state)"
    using focusButton_order [of focus_env dialog_cache 2 focus_state 4 3, THEN conjunct2] a c v
    by blast
  from a b c v r t show ?thesis by blast
qed

text \<open>
  Claim C7, as amended. Focus acquisition follows a fixed chain in which an earlier step
  that applies prevents the later ones: (1) with \<^verbatim>\<open>toast\<close> set nothing happens;
  (2) else, when the \<^verbatim>\<open>allowEnterKey\<close> directive evaluates to a falsy value, a
  deprecation warning is issued, the element that has the focus is blurred provided it
  is an \<^verbatim>\<open>HTMLElement\<close> with a \<^verbatim>\<open>blur\<close> method, and the chain stops; (3) else,
  in a dialog that has a popup, the first element marked \<^verbatim>\<open>autofocus\<close> that is an
  \<^verbatim>\<open>HTMLElement\<close> and visible is focused; (4) else the first button whose focus
  directive is set and which is visible is focused, in the order deny, cancel, confirm;
  (5) else the first focusable element of the dialog is focused, or nothing when there is
  none. The state \<open>s1\<close> is the one in which the evaluation of \<^verbatim>\<open>allowEnterKey\<close>
  returned.
\<close>

theorem initFocus_fallback_chain:
  assumes "call_val (callIfFunction env (get_prop (heap s) innerParams ''allowEnterKey''))
             (CallIfFunction (get_prop (heap s) innerParams ''allowEnterKey'')) s = (v, s1)"
  shows
    "(truthy (get_prop (heap s) innerParams ''toast'') \<longrightarrow>
        initFocus env domCache innerParams s = Inr ((), s))
     \<and> (\<not> truthy (get_prop (heap s) innerParams ''toast'') \<and> \<not> truthy v \<longrightarrow>
        initFocus env domCache innerParams s =
          Inr ((), let s2 = call env (WarnAboutDeprecation ''allowEnterKey'') s1
                   in case activeElement env s2 of
                        None \<Rightarrow> s2
                      | Some a \<Rightarrow> if isHTMLElement env a s2 \<and> hasBlur env a s2
                                  then call env (Blur a) s2 else s2))
     \<and> (\<not> truthy (get_prop (heap s) innerParams ''toast'') \<and> truthy v
          \<and> popup domCache = Some p \<longrightarrow>
        initFocus env domCache innerParams s =
          Inr ((),
            case find (\<lambda>e. isHTMLElement env e s1 \<and> isVisible env e s1)
                   (querySelectorAll env p ''[autofocus]'' s1) of
              Some e \<Rightarrow> call env (Focus e) s1
            | None \<Rightarrow>
                (case first_directed_button env s1 (focus_directives domCache (heap s1) innerParams) of
                   Some b \<Rightarrow> call env (Focus b) s1
                 | None \<Rightarrow>
                     (case getFocusableElements env s1 of
                        [] \<Rightarrow> s1
                      | f # fs \<Rightarrow> call env (Focus f) s1))))"
  using assms
  by (auto simp add: initFocus_def blurActiveElement_def focusAutofocus_def bindE_def Let_def
      focusAutofocus_loop_find focusButton_first setFocus_def
      split: option.splits list.splits)

text \<open>
  One run for each step of the chain: a toast; \<^verbatim>\<open>allowEnterKey: false\<close> while
  element 30 has the focus; two \<^verbatim>\<open>autofocus\<close> elements of which the first is not an
  \<^verbatim>\<open>HTMLElement\<close>; focus directives for deny and confirm; no directive at all.
\<close>

theorem initFocus_fallback_chain_witness:
  "initFocus focus_env dialog_cache 0 focus_state = Inr ((), focus_state)
   \<and> initFocus focus_env dialog_cache 1 focus_state =
       Inr ((), focus_state\<lparr>trace := [CallIfFunction (JBool False),
                  WarnAboutDeprecation ''allowEnterKey'', Blur 30]\<rparr>)
   \<and> initFocus svg_env dialog_cache 3 focus_state =
       Inr ((), focus_state\<lparr>trace := [CallIfFunction (JBool True), Focus 21]\<rparr>)
   \<and> initFocus focus_env dialog_cache 2 focus_state =
       Inr ((), focus_state\<lparr>trace := [CallIfFunction (JBool True), Focus 4]\<rparr>)
   \<and> initFocus focus_env dialog_cache 3 focus_state =
       Inr ((), focus_state\<lparr>trace := [CallIfFunction (JBool True), Focus 3]\<rparr>)"
proof -
  have c: "\<And>env b a. callIfFunction env = (\<lambda>v s. (v, s)) \<Longrightarrow> get_prop (heap focus_state) a ''allowEnterKey'' = b \<Longrightarrow>
     call_val (callIfFunction env (get_prop (heap focus_state) a ''allowEnterKey''))
       (CallIfFunction (get_prop (heap focus_state) a ''allowEnterKey'')) focus_state
       = (b, focus_state\<lparr>trace := [CallIfFunction b]\<rparr>)"
    by (simp add: call_val_def log_def focus_state_fields)
  note c0 = c [OF focus_env_fields(1)]
  note c1 = c [OF focus_env_fields(2)]
  have 1: "initFocus focus_env dialog_cache 0 focus_state = Inr ((), focus_state)"
    using initFocus_fallback_chain [OF c0 [OF refl], of 0 dialog_cache 0, THEN conjunct1]
    by (simp add: focus_state_props)
  have 2: "initFocus focus_env dialog_cache 1 focus_state =
       Inr ((), focus_state\<lparr>trace := [CallIfFunction (JBool False),
                  WarnAboutDeprecation ''allowEnterKey'', Blur 30]\<rparr>)"
    using initFocus_fallback_chain [OF c0 [OF focus_state_props(5)], of dialog_cache 0,
        THEN conjunct2, THEN conjunct1]
    by (simp add: focus_state_props focus_state_fields focus_env_fields call_def log_def)
  have 3: "initFocus svg_env dialog_cache 3 focus_state =
       Inr ((), focus_state\<lparr>trace := [CallIfFunction (JBool True), Focus 21]\<rparr>)"
    using initFocus_fallback_chain [OF c1 [OF focus_state_props(7)], of dialog_cache 0,
        THEN conjunct2, THEN conjunct2]
    by (simp add: focus_state_props focus_state_fields focus_env_fields dialog_cache_fields call_def log_def)
  have 4: "initFocus focus_env dialog_cache 2 focus_state =
       Inr ((), focus_state\<lparr>trace := [CallIfFunction (JBool True), Focus 4]\<rparr>)"
    using initFocus_fallback_chain [OF c0 [OF focus_state_props(6)], of dialog_cache 0,
        THEN conjunct2, THEN conjunct2]
    by (simp add: focus_state_props focus_state_fields focus_env_fields dialog_cache_fields
        call_def log_def focus_directives_def visible_def)
  have 5: "initFocus focus_env dialog_cache 3 focus_state =
       Inr ((), focus_state\<lparr>trace := [CallIfFunction (JBool True), Focus 3]\<rparr>)"
    using initFocus_fallback_chain [OF c0 [OF focus_state_props(7)], of dialog_cache 0,
        THEN conjunct2, THEN conjunct2]
    by (simp add: focus_state_props focus_state_fields focus_env_fields dialog_cache_fields
        call_def log_def focus_directives_def visible_def)
  from 1 2 3 4 5 show ?thesis by blast
qed

text \<open>
  Claim C7 as stated fails at step (3): the popup has two visible elements marked
  \<^verbatim>\<open>autofocus\<close>, the first of which (20) is not an \<^verbatim>\<open>HTMLElement\<close>; the
  element focused is the second (21), not the first visible one.
\<close>

theorem initFocus_first_autofocus_counterexample:
  "querySelectorAll svg_env 0 ''[autofocus]'' focus_state = [20, 21]
   \<and> isVisible svg_env 20 focus_state
   \<and> \<not> truthy (get_prop (heap focus_state) 3 ''toast'')
   \<and> truthy (get_prop (heap focus_state) 3 ''allowEnterKey'')
   \<and> initFocus svg_env dialog_cache 3 focus_state =
       Inr ((), focus_state\<lparr>trace := [CallIfFunction (JBool True), Focus 21]\<rparr>)"
  by (simp add: initFocus_def focusAutofocus_def bindE_def Let_def call_val_def call_def log_def
      focus_state_props focus_state_fields focus_env_fields dialog_cache_fields)

section \<open>Facts about a run of the controller\<close>

lemma keeps_frozen_refl: "keeps_frozen h h"
  by (simp add: keeps_frozen_def)

lemma keeps_frozen_trans: "keeps_frozen h h' \<Longrightarrow> keeps_frozen h' h'' \<Longrightarrow> keeps_frozen h h''"
  by (auto simp add: keeps_frozen_def)

lemma keeps_settled_refl: "keeps_settled ps ps"
  by (simp add: keeps_settled_def)

lemma keeps_settled_trans:
  assumes "keeps_settled ps ps'" and "keeps_settled ps' ps''"
  shows "keeps_settled ps ps''"
  unfolding keeps_settled_def
proof (intro conjI allI impI)
  from assms show "length ps \<le> length ps''"
    by (simp add: keeps_settled_def)
next
  fix p
  assume p: "p < length ps \<and> ps ! p \<noteq> Pending"
  with assms(1) have 1: "ps' ! p = ps ! p" and 2: "p < length ps'"
    by (simp_all add: keeps_settled_def)
  with p assms(2) have "ps'' ! p = ps' ! p"
    by (simp add: keeps_settled_def)
  with 1 show "ps'' ! p = ps ! p" by simp
qed

lemma extends_quietly_refl: "extends_quietly t t"
  by (simp add: extends_quietly_def)

lemma extends_quietly_trans:
  assumes "extends_quietly t t'" and "extends_quietly t' t''"
  shows "extends_quietly t t''"
proof -
  from assms obtain e1 e2 where "t' = t @ e1" "list_all (\<lambda>e. \<not> registry_event e) e1"
    "t'' = t' @ e2" "list_all (\<lambda>e. \<not> registry_event e) e2"
    by (auto simp add: extends_quietly_def)
  then have "t'' = t @ (e1 @ e2) \<and> list_all (\<lambda>e. \<not> registry_event e) (e1 @ e2)"
    by simp
  then show ?thesis
    unfolding extends_quietly_def by blast
qed

lemma extends_quietly_snoc: "\<not> registry_event ev \<Longrightarrow> extends_quietly t (t @ [ev])"
  by (simp add: extends_quietly_def)

lemma log_fields:
  "trace (log ev s) = trace s @ [ev]"
  "heap (log ev s) = heap s"
  "promises (log ev s) = promises s"
  "currentInstance (log ev s) = currentInstance s"
  "gs_currentInstance (log ev s) = gs_currentInstance s"
  "instances (log ev s) = instances s"
  "pm_swalPromiseResolve (log ev s) = pm_swalPromiseResolve s"
  "pp_innerParams (log ev s) = pp_innerParams s"
  "timers (log ev s) = timers s"
  "gs_timeout (log ev s) = gs_timeout s"
  by (simp_all add: log_def)

lemma inert_call: "inert env \<Longrightarrow> call env ev s = log ev s"
  by (simp add: call_def inert_def)

lemma inert_not_reentrant: "inert env \<Longrightarrow> not_reentrant env"
  by (simp add: inert_def not_reentrant_def extends_quietly_refl)

lemma inert_respects_settled: "inert env \<Longrightarrow> respects_settled env"
  by (simp add: inert_def respects_settled_def keeps_settled_refl)

lemma inert_respects_frozen: "inert env \<Longrightarrow> respects_frozen env"
  by (simp add: inert_def respects_frozen_def keeps_frozen_refl)

lemma follows_refl: "follows env s s"
  by (simp add: follows_def keeps_frozen_refl keeps_settled_refl extends_quietly_refl)

lemma follows_trans: "follows env s s' \<Longrightarrow> follows env s' s'' \<Longrightarrow> follows env s s''"
  unfolding follows_def
  by (auto intro: keeps_frozen_trans keeps_settled_trans extends_quietly_trans)

lemma follows_log: "\<not> registry_event ev \<Longrightarrow> follows env s (log ev s)"
  by (simp add: follows_def log_fields keeps_frozen_refl keeps_settled_refl extends_quietly_snoc)

lemma follows_ext: "follows env s (ext env ev s)"
  by (simp add: follows_def not_reentrant_def respects_frozen_def respects_settled_def inert_def)

lemma follows_call: "\<not> registry_event ev \<Longrightarrow> follows env s (call env ev s)"
  unfolding call_def by (rule follows_trans [OF follows_log follows_ext])

lemma follows_callIfFunction:
  "follows env s (snd (call_val (callIfFunction env v) (CallIfFunction v) s))"
proof -
  have "follows env t (snd (callIfFunction env v t))" for t
    by (simp add: follows_def not_reentrant_def respects_frozen_def respects_settled_def inert_def)
  from follows_trans [OF follows_log this] show ?thesis
    by (simp add: call_val_def)
qed

lemma follows_call_after: "\<not> registry_event ev \<Longrightarrow> follows env s s' \<Longrightarrow> follows env s (call env ev s')"
  by (blast intro: follows_trans follows_call)

lemma follows_focusAutofocus_loop:
  "follows env s (snd (focusAutofocus_loop env es s))"
  by (induction es) (simp_all add: follows_refl follows_call)

lemma follows_focusButton: "follows env s (snd (focusButton env domCache innerParams s))"
  by (simp add: focusButton_def focus_elem_def follows_refl follows_call split: option.splits)

lemma follows_blurActiveElement: "follows env s (blurActiveElement env s)"
  by (simp add: blurActiveElement_def follows_refl follows_call split: option.splits)

lemma follows_setFocus: "follows env s (setFocus env i j s)"
  by (simp add: setFocus_def Let_def follows_refl follows_call)

lemma follows_initFocus: "follows env s (res_state (initFocus env domCache innerParams s))"
proof -
  let ?a = "get_prop (heap s) innerParams ''allowEnterKey''"
  let ?s1 = "snd (call_val (callIfFunction env ?a) (CallIfFunction ?a) s)"
  have 1: "follows env s ?s1" by (rule follows_callIfFunction)
  have 2: "follows env s (blurActiveElement env (call env (WarnAboutDeprecation ''allowEnterKey'') ?s1))"
    by (rule follows_trans [OF follows_call_after [OF _ 1] follows_blurActiveElement]) simp
  have 3: "follows env s (snd (focusAutofocus_loop env es ?s1))" for es
    by (rule follows_trans [OF 1 follows_focusAutofocus_loop])
  have 4: "follows env s (snd (focusButton env domCache innerParams (snd (focusAutofocus_loop env es ?s1))))" for es
    by (rule follows_trans [OF 3 follows_focusButton])
  have 5: "follows env s (setFocus env (- 1) 1 (snd (focusButton env domCache innerParams (snd (focusAutofocus_loop env es ?s1)))))" for es
    by (rule follows_trans [OF 4 follows_setFocus])
  show ?thesis
    using 1 2 3 4 5
    by (simp add: initFocus_def res_state_def follows_refl Let_def split_def bindE_def
        focusAutofocus_def split: option.splits)
qed


lemma follows_fields:
  "follows env s (s'\<lparr>timers := t\<rparr>) = follows env s s'"
  "follows env s (s'\<lparr>gs_timeout := gt\<rparr>) = follows env s s'"
  "follows env s (s'\<lparr>pm_swalPromiseResolve := r1\<rparr>) = follows env s s'"
  "follows env s (s'\<lparr>pm_swalPromiseReject := r2\<rparr>) = follows env s s'"
  "follows env s (s'\<lparr>pp_innerParams := ip\<rparr>) = follows env s s'"
  "follows env s (s'\<lparr>pp_domCache := dc\<rparr>) = follows env s s'"
  by (simp_all add: follows_def)

lemma follows_fields_left:
  "follows env (s\<lparr>timers := t\<rparr>) s' = follows env s s'"
  "follows env (s\<lparr>gs_timeout := gt\<rparr>) s' = follows env s s'"
  "follows env (s\<lparr>pm_swalPromiseResolve := r1\<rparr>) s' = follows env s s'"
  "follows env (s\<lparr>pm_swalPromiseReject := r2\<rparr>) s' = follows env s s'"
  "follows env (s\<lparr>pp_innerParams := ip\<rparr>) s' = follows env s s'"
  "follows env (s\<lparr>pp_domCache := dc\<rparr>) s' = follows env s s'"
  by (simp_all add: follows_def)

lemma keeps_settled_update:
  assumes "keeps_settled ps ps'" and "ps' ! p = Pending"
  shows "keeps_settled ps (ps'[p := r])"
  unfolding keeps_settled_def
proof (intro conjI allI impI)
  from assms(1) show "length ps \<le> length (ps'[p := r])"
    by (simp add: keeps_settled_def)
next
  fix q
  assume q: "q < length ps \<and> ps ! q \<noteq> Pending"
  with assms(1) have 1: "ps' ! q = ps ! q"
    by (simp add: keeps_settled_def)
  with q assms(2) have "q \<noteq> p" by auto
  with 1 show "ps'[p := r] ! q = ps ! q" by simp
qed

lemma follows_settle: "follows env s s' \<Longrightarrow> follows env s (settle p r s')"
  by (simp add: settle_def follows_def keeps_settled_update)

lemma follows_new_promise: "follows env s (snd (new_promise s))"
  by (simp add: new_promise_def follows_def keeps_frozen_refl extends_quietly_refl
      keeps_settled_def nth_append)

lemma follows_timer_stop: "follows env s (timer_stop t s') = follows env s s'"
  by (simp add: timer_stop_def follows_fields)

lemma follows_setupTimer: "follows env s (setupTimer env innerParams i s)"
  by (simp add: setupTimer_def new_Timer_def Let_def follows_fields follows_call
      follows_call_after follows_refl)

lemma follows_bindE:
  assumes "follows env s (res_state m)"
    and "\<And>x s'. m = Inr (x, s') \<Longrightarrow> follows env s' (res_state (f (x, s')))"
  shows "follows env s (res_state (bindE m f))"
proof (cases m)
  case (Inl a)
  with assms(1) show ?thesis by (simp add: bindE_def res_state_def)
next
  case (Inr b)
  obtain x s' where b: "b = (x, s')" by (cases b)
  from assms(1) Inr b have "follows env s s'" by (simp add: res_state_def)
  moreover from assms(2) Inr b have "follows env s' (res_state (f (x, s')))" by simp
  ultimately show ?thesis using Inr b by (simp add: bindE_def follows_trans)
qed

lemma follows_set_onclick: "follows env s (res_state (set_onclick env eo h s))"
  by (simp add: set_onclick_def res_state_def follows_refl follows_call split: option.splits)

lemma follows_executor:
  "follows env s (res_state (swalPromise_executor env p instance domCache innerParams s))"
proof (cases "instance")
  case None
  then show ?thesis by (simp add: swalPromise_executor_def res_state_def follows_refl)
next
  case (Some i)
  have tail: "follows env s6
     (res_state
       (let s7 = call env (HandlePopupClick (JRef innerParams) i) s6;
            s8 = call env (AddKeydownHandler (JRef innerParams) i) s7;
            s9 = call env (HandleInputOptionsAndValue i (JRef innerParams)) s8;
            s10 = call env (OpenPopup (JRef innerParams)) s9;
            s11 = setupTimer env innerParams i s10
        in bindE (initFocus env domCache innerParams s11) (\<lambda>(_, s12).
             Inr ((), call env (SetTimeout (ScrollContainerToTop (container domCache))) s12))))" for s6
    unfolding Let_def
    apply (rule follows_bindE)
     apply (rule follows_trans [OF _ follows_initFocus])
     apply (rule follows_trans [OF _ follows_setupTimer])
     apply (simp add: follows_call follows_call_after)
    apply (simp add: res_state_def follows_call split: prod.splits)
    done
  show ?thesis
    unfolding swalPromise_executor_def Some option.case Let_def
    apply (rule follows_bindE)
     apply (rule follows_trans [OF _ follows_set_onclick])
     apply (simp add: follows_fields follows_refl)
    apply (simp only: prod.case)
    apply (rule follows_bindE [OF follows_set_onclick])
    apply (simp only: prod.case)
    apply (rule follows_bindE [OF follows_set_onclick])
    apply (simp only: prod.case)
    apply (rule follows_bindE [OF follows_set_onclick])
    apply (simp only: prod.case)
    apply (rule tail [unfolded Let_def])
    done
qed

lemma follows_swalPromise:
  "follows env s (snd (swalPromise env instance domCache innerParams s))"
proof -
  let ?s1 = "snd (new_promise s)"
  let ?p = "fst (new_promise s)"
  have "follows env s (res_state (swalPromise_executor env ?p instance domCache innerParams ?s1))"
    by (rule follows_trans [OF follows_new_promise follows_executor])
  then show ?thesis
    by (auto simp add: swalPromise_def res_state_def split_def Let_def follows_settle
        split: sum.splits prod.splits)
qed


text \<open>
  In an inert environment the building of the promise leaves the attached configurations
  as they are.
\<close>

lemma innerParams_loop:
  "inert env \<Longrightarrow> pp_innerParams (snd (focusAutofocus_loop env es s)) = pp_innerParams s"
  by (induction es) (simp_all add: inert_call log_fields)

lemma innerParams_initFocus:
  "inert env \<Longrightarrow> pp_innerParams (res_state (initFocus env dc n s)) = pp_innerParams s"
  by (auto simp add: initFocus_def res_state_def Let_def split_def bindE_def call_val_def
      focusAutofocus_def focusButton_def focus_elem_def blurActiveElement_def setFocus_def
      inert_call log_fields innerParams_loop inert_def
      split: option.splits)

lemma innerParams_initFocus_cases:
  assumes "inert env"
  shows "initFocus env dc n s = Inr (x, s') \<Longrightarrow> pp_innerParams s' = pp_innerParams s"
    and "initFocus env dc n s = Inl (e, s') \<Longrightarrow> pp_innerParams s' = pp_innerParams s"
  using innerParams_initFocus [OF assms, of dc n s] by (simp_all add: res_state_def)

lemma innerParams_setupTimer:
  "inert env \<Longrightarrow> pp_innerParams (setupTimer env n i s) = pp_innerParams s"
  by (simp add: setupTimer_def new_Timer_def Let_def inert_call log_fields)

lemma innerParams_executor:
  assumes i: "inert env"
  shows "pp_innerParams (res_state (swalPromise_executor env p inst dc n s)) = pp_innerParams s"
proof (cases inst)
  case None
  then show ?thesis by (simp add: swalPromise_executor_def res_state_def)
next
  case (Some c)
  show ?thesis
    unfolding swalPromise_executor_def Some option.case Let_def
    by (auto simp add: set_onclick_def bindE_def res_state_def inert_call [OF i] log_fields
        innerParams_setupTimer [OF i] dest!: innerParams_initFocus_cases [OF i]
        split: option.splits sum.splits prod.splits)
qed

lemma innerParams_swalPromise:
  assumes i: "inert env"
  shows "pp_innerParams (snd (swalPromise env inst dc n s)) = pp_innerParams s"
  using innerParams_executor [OF i, of "length (promises s)" inst dc n
      "s\<lparr>promises := promises s @ [Pending]\<rparr>"]
  by (auto simp add: swalPromise_def new_promise_def res_state_def settle_def
      split: sum.splits prod.splits)

lemma res_state_Inr: "res_state (Inr p) = snd p"
  by (cases p) (simp add: res_state_def)

lemma res_state_Inl: "res_state (Inl p) = snd p"
  by (cases p) (simp add: res_state_def)

lemma follows_populateDomCache:
  "follows env s (res_state (populateDomCache env i s))"
  by (simp add: populateDomCache_def Let_def res_state_def follows_refl follows_fields
      split: option.splits)

text \<open>The part of \<^verbatim>\<open>_main\<close> that follows the freezing of the configuration.\<close>

lemma main_open_after_freeze:
  assumes pp: "prepareParams env userParams mixinParams
                 (log (SetCurrentInstance (currentInstance s3))
                    (s3\<lparr>gs_currentInstance := currentInstance s3\<rparr>)) = Inr (n, s5)"
  defines "s7 \<equiv> (call env (SetParameters (JRef n)) s5)
                   \<lparr>heap := object_freeze (JRef n) (heap (call env (SetParameters (JRef n)) s5))\<rparr>"
  shows "follows env s7 (res_state (main_open env userParams mixinParams s3))"
    and "main_open env userParams mixinParams s3 = Inr (q, s') \<Longrightarrow>
           \<exists>s10 c0 c domCache.
              follows env s7 s10 \<and> currentInstance s10 = Some c0
              \<and> (q, s') = swalPromise env (Some c) domCache n
                   ((call env (Render (Some c0) (JRef n)) s10)
                      \<lparr>pp_innerParams :=
                         (pp_innerParams (call env (Render (Some c0) (JRef n)) s10))(c \<mapsto> JRef n)\<rparr>)"
proof -
  define s8 where "s8 = (case gs_timeout s7 of None \<Rightarrow> s7
                          | Some t \<Rightarrow> (timer_stop t s7)\<lparr>gs_timeout := None\<rparr>)"
  define s9 where "s9 = call env (ClearTimeout (gs_restoreFocusTimeout s8)) s8"
  have u: "main_open env userParams mixinParams s3 =
     bindE (populateDomCache env (currentInstance s9) s9) (\<lambda>(domCache, s10).
            let s11 = call env (Render (currentInstance s10) (JRef n)) s10
            in case currentInstance s11 of
                 None \<Rightarrow> Inl (TypeError, s11)
               | Some c \<Rightarrow>
                   Inr (swalPromise env (Some c) domCache n
                          (s11\<lparr>pp_innerParams := (pp_innerParams s11)(c \<mapsto> JRef n)\<rparr>)))"
    unfolding main_open_def Let_def pp s9_def s8_def s7_def
    by (simp only: bindE_def sum.case prod.case)
  have 8: "follows env s7 s8"
    by (simp add: s8_def follows_refl follows_fields follows_timer_stop split: option.splits)
  have 9: "follows env s7 s9"
    unfolding s9_def by (rule follows_call_after [OF _ 8]) simp
  have rest: "follows env s10
       (res_state (let s11 = call env (Render (currentInstance s10) (JRef n)) s10
            in case currentInstance s11 of
                 None \<Rightarrow> Inl (TypeError, s11)
               | Some c \<Rightarrow>
                   Inr (swalPromise env (Some c) domCache n
                          (s11\<lparr>pp_innerParams := (pp_innerParams s11)(c \<mapsto> JRef n)\<rparr>))))"
    for s10 domCache
  proof -
    let ?s11 = "call env (Render (currentInstance s10) (JRef n)) s10"
    have a: "follows env s10 ?s11" by (simp add: follows_call)
    have b: "follows env ?s11 (snd (swalPromise env (Some c) domCache n
                 (?s11\<lparr>pp_innerParams := (pp_innerParams ?s11)(c \<mapsto> JRef n)\<rparr>)))" for c
      using follows_swalPromise [of env "?s11\<lparr>pp_innerParams := (pp_innerParams ?s11)(c \<mapsto> JRef n)\<rparr>"]
      by (simp add: follows_fields_left)
    show ?thesis
      using a follows_trans [OF a b]
      by (simp add: Let_def res_state_Inr res_state_Inl split: option.splits)
  qed
  show "follows env s7 (res_state (main_open env userParams mixinParams s3))"
    unfolding u
    apply (rule follows_bindE)
     apply (rule follows_trans [OF 9 follows_populateDomCache])
    apply (simp only: prod.case)
    apply (rule rest)
    done
  show "\<exists>s10 c0 c domCache.
              follows env s7 s10 \<and> currentInstance s10 = Some c0
              \<and> (q, s') = swalPromise env (Some c) domCache n
                   ((call env (Render (Some c0) (JRef n)) s10)
                      \<lparr>pp_innerParams :=
                         (pp_innerParams (call env (Render (Some c0) (JRef n)) s10))(c \<mapsto> JRef n)\<rparr>)"
    if r: "main_open env userParams mixinParams s3 = Inr (q, s')"
  proof -
    from r u obtain domCache s10 where
      p: "populateDomCache env (currentInstance s9) s9 = Inr (domCache, s10)"
      by (auto simp add: bindE_def split: sum.splits)
    let ?s11 = "call env (Render (currentInstance s10) (JRef n)) s10"
    from r u p obtain c where c: "currentInstance ?s11 = Some c"
      and s': "(q, s') = swalPromise env (Some c) domCache n
                 (?s11\<lparr>pp_innerParams := (pp_innerParams ?s11)(c \<mapsto> JRef n)\<rparr>)"
      by (auto simp add: bindE_def Let_def split: option.splits)
    from p have i: "currentInstance s10 = currentInstance s9"
      by (auto simp add: populateDomCache_def Let_def split: option.splits)
    from p obtain c0 where c0: "currentInstance s9 = Some c0"
      by (auto simp add: populateDomCache_def Let_def split: option.splits)
    from follows_populateDomCache [of env s9 "currentInstance s9"] p
    have "follows env s9 s10" by (simp add: res_state_def)
    with 9 have "follows env s7 s10" by (rule follows_trans)
    with s' i c0 show ?thesis by auto
  qed
qed

text \<open>
  What \<^verbatim>\<open>prepareParams\<close> leaves as it is: everything but the heap, where it adds
  objects.
\<close>

lemma prepareParams_frame:
  fixes mixinParams :: jsval
  assumes g: "call_val (getTemplateParams env userParams) (GetTemplateParams userParams) s0
                = (templateParams, s1)"
  shows "\<exists>s'. prepareParams env userParams mixinParams s0 = Inr (length (heap s1), s')
           \<and> trace s' = trace s1 \<and> promises s' = promises s1
           \<and> currentInstance s' = currentInstance s1
           \<and> gs_currentInstance s' = gs_currentInstance s1
           \<and> length (heap s1) < length (heap s') \<and> \<not> frozen (heap s' ! length (heap s1))"
proof -
  from prepareParams_result [OF g, of mixinParams]
  obtain s' where r: "prepareParams env userParams mixinParams s0 = Inr (length (heap s1), s')
      \<and> s' = s1\<lparr>heap := heap s'\<rparr> \<and> take (length (heap s1)) (heap s') = heap s1
      \<and> length (heap s1) < length (heap s') \<and> \<not> frozen (heap s' ! length (heap s1))"
    by (elim exE conjE) (rule that, intro conjI)
  then have f: "s' = s1\<lparr>heap := heap s'\<rparr>" by (elim conjE)
  from arg_cong [OF f, of trace] have 1: "trace s' = trace s1" by simp
  from arg_cong [OF f, of promises] have 2: "promises s' = promises s1" by simp
  from arg_cong [OF f, of currentInstance] have 3: "currentInstance s' = currentInstance s1" by simp
  from arg_cong [OF f, of gs_currentInstance] have 4: "gs_currentInstance s' = gs_currentInstance s1"
    by simp
  from r 1 2 3 4 show ?thesis by (intro exI [of _ s']) (elim conjE, intro conjI)
qed

text \<open>
  The opening proper, lines 68--89, from the state \<open>s3\<close> in which the eviction
  returned: the state \<open>s7\<close> in which the configuration has just been frozen, and what
  holds of it.
\<close>

lemma main_open_prefix:
  fixes mixinParams :: jsval
  shows "\<exists>n s5 tp s1.
      call_val (getTemplateParams env userParams) (GetTemplateParams userParams)
        (log (SetCurrentInstance (currentInstance s3))
           (s3\<lparr>gs_currentInstance := currentInstance s3\<rparr>)) = (tp, s1)
    \<and> prepareParams env userParams mixinParams
        (log (SetCurrentInstance (currentInstance s3))
           (s3\<lparr>gs_currentInstance := currentInstance s3\<rparr>)) = Inr (n, s5)
    \<and> trace s5 = trace s1 \<and> promises s5 = promises s1
    \<and> currentInstance s5 = currentInstance s1 \<and> gs_currentInstance s5 = gs_currentInstance s1
    \<and> n < length (heap s5) \<and> \<not> frozen (heap s5 ! n)
    \<and> follows env
         ((call env (SetParameters (JRef n)) s5)
            \<lparr>heap := object_freeze (JRef n) (heap (call env (SetParameters (JRef n)) s5))\<rparr>)
         (res_state (main_open env userParams mixinParams s3))"
proof -
  let ?s4 = "log (SetCurrentInstance (currentInstance s3)) (s3\<lparr>gs_currentInstance := currentInstance s3\<rparr>)"
  obtain tp s1 where g: "call_val (getTemplateParams env userParams) (GetTemplateParams userParams) ?s4 = (tp, s1)"
    by (cases "call_val (getTemplateParams env userParams) (GetTemplateParams userParams) ?s4")
  from prepareParams_frame [OF g, of mixinParams]
  obtain s5 where r: "prepareParams env userParams mixinParams ?s4 = Inr (length (heap s1), s5)"
    and f: "trace s5 = trace s1" "promises s5 = promises s1"
      "currentInstance s5 = currentInstance s1" "gs_currentInstance s5 = gs_currentInstance s1"
      "length (heap s1) < length (heap s5)" "\<not> frozen (heap s5 ! length (heap s1))"
    by (elim exE conjE)
  from main_open_after_freeze(1) [OF r] g r f show ?thesis
    by blast
qed

lemma main_open_trace:
  assumes nr: "not_reentrant env"
  shows "\<exists>evs. trace (res_state (main_open env userParams mixinParams s3))
            = trace s3 @ SetCurrentInstance (currentInstance s3) # evs
          \<and> list_all (\<lambda>e. \<not> registry_event e) evs"
proof -
  let ?s4 = "log (SetCurrentInstance (currentInstance s3)) (s3\<lparr>gs_currentInstance := currentInstance s3\<rparr>)"
  from main_open_prefix [of env userParams s3 mixinParams]
  obtain n s5 tp s1 where
    g: "call_val (getTemplateParams env userParams) (GetTemplateParams userParams) ?s4 = (tp, s1)"
    and t5: "trace s5 = trace s1"
    and fo: "follows env
         ((call env (SetParameters (JRef n)) s5)
            \<lparr>heap := object_freeze (JRef n) (heap (call env (SetParameters (JRef n)) s5))\<rparr>)
         (res_state (main_open env userParams mixinParams s3))"
    by (elim exE conjE)
  from g have "s1 = snd (getTemplateParams env userParams (log (GetTemplateParams userParams) ?s4))"
    by (simp add: call_val_def)
  with nr have "extends_quietly (trace (log (GetTemplateParams userParams) ?s4)) (trace s1)"
    by (simp add: not_reentrant_def)
  then obtain e1 where e1: "trace s1 = trace s3 @ [SetCurrentInstance (currentInstance s3),
      GetTemplateParams userParams] @ e1" "list_all (\<lambda>e. \<not> registry_event e) e1"
    by (auto simp add: extends_quietly_def log_def)
  have "follows env s5 (call env (SetParameters (JRef n)) s5)"
    by (simp add: follows_call)
  with nr obtain e2 where e2: "trace (call env (SetParameters (JRef n)) s5) = trace s5 @ e2"
    "list_all (\<lambda>e. \<not> registry_event e) e2"
    by (auto simp add: follows_def extends_quietly_def)
  from fo nr obtain e3 where e3: "trace (res_state (main_open env userParams mixinParams s3))
       = trace (call env (SetParameters (JRef n)) s5) @ e3" "list_all (\<lambda>e. \<not> registry_event e) e3"
    by (auto simp add: follows_def extends_quietly_def)
  have "trace (res_state (main_open env userParams mixinParams s3))
          = trace s3 @ SetCurrentInstance (currentInstance s3)
              # (GetTemplateParams userParams # e1 @ e2 @ e3)"
    by (simp add: e3(1) e2(1) t5 e1(1))
  moreover have "list_all (\<lambda>e. \<not> registry_event e) (GetTemplateParams userParams # e1 @ e2 @ e3)"
    using e1(2) e2(2) e3(2) by simp
  ultimately show ?thesis by blast
qed

lemma main_open_settled:
  assumes rs: "respects_settled env"
  shows "keeps_settled (promises s3) (promises (res_state (main_open env userParams mixinParams s3)))"
proof -
  let ?s4 = "log (SetCurrentInstance (currentInstance s3)) (s3\<lparr>gs_currentInstance := currentInstance s3\<rparr>)"
  from main_open_prefix [of env userParams s3 mixinParams]
  obtain n s5 tp s1 where
    g: "call_val (getTemplateParams env userParams) (GetTemplateParams userParams) ?s4 = (tp, s1)"
    and p5: "promises s5 = promises s1"
    and fo: "follows env
         ((call env (SetParameters (JRef n)) s5)
            \<lparr>heap := object_freeze (JRef n) (heap (call env (SetParameters (JRef n)) s5))\<rparr>)
         (res_state (main_open env userParams mixinParams s3))"
    by (elim exE conjE)
  from g have "s1 = snd (getTemplateParams env userParams (log (GetTemplateParams userParams) ?s4))"
    by (simp add: call_val_def)
  with rs have "keeps_settled (promises (log (GetTemplateParams userParams) ?s4)) (promises s1)"
    by (simp add: respects_settled_def)
  then have 1: "keeps_settled (promises s3) (promises s5)"
    by (simp add: log_def p5)
  have "follows env s5 (call env (SetParameters (JRef n)) s5)"
    by (simp add: follows_call)
  with rs have 2: "keeps_settled (promises s5) (promises (call env (SetParameters (JRef n)) s5))"
    by (simp add: follows_def)
  from fo rs have 3: "keeps_settled (promises (call env (SetParameters (JRef n)) s5))
       (promises (res_state (main_open env userParams mixinParams s3)))"
    by (simp add: follows_def)
  from keeps_settled_trans [OF keeps_settled_trans [OF 1 2] 3] show ?thesis .
qed

lemma main_open_registry:
  assumes i: "inert env"
  shows "gs_currentInstance (res_state (main_open env userParams mixinParams s3)) = currentInstance s3"
    and "currentInstance (res_state (main_open env userParams mixinParams s3)) = currentInstance s3"
proof -
  let ?s4 = "log (SetCurrentInstance (currentInstance s3)) (s3\<lparr>gs_currentInstance := currentInstance s3\<rparr>)"
  from main_open_prefix [of env userParams s3 mixinParams]
  obtain n s5 tp s1 where
    g: "call_val (getTemplateParams env userParams) (GetTemplateParams userParams) ?s4 = (tp, s1)"
    and f5: "currentInstance s5 = currentInstance s1" "gs_currentInstance s5 = gs_currentInstance s1"
    and fo: "follows env
         ((call env (SetParameters (JRef n)) s5)
            \<lparr>heap := object_freeze (JRef n) (heap (call env (SetParameters (JRef n)) s5))\<rparr>)
         (res_state (main_open env userParams mixinParams s3))"
    by (elim exE conjE)
  from g have "s1 = snd (getTemplateParams env userParams (log (GetTemplateParams userParams) ?s4))"
    by (simp add: call_val_def)
  with i have "s1 = log (GetTemplateParams userParams) ?s4"
    by (simp add: inert_def)
  then have 1: "currentInstance s1 = currentInstance s3" "gs_currentInstance s1 = currentInstance s3"
    by (simp_all add: log_def)
  from fo i 1 f5
  show "gs_currentInstance (res_state (main_open env userParams mixinParams s3)) = currentInstance s3"
    and "currentInstance (res_state (main_open env userParams mixinParams s3)) = currentInstance s3"
    by (simp_all add: follows_def inert_call log_fields)
qed

text \<open>
  The configuration in the opening proper: it is built unfrozen, handed to
  \<^verbatim>\<open>setParameters\<close>, frozen, and only then rendered and attached; from the moment
  it is frozen it stays what it is.
\<close>

lemma main_open_frozen:
  assumes rf: "respects_frozen env"
    and ok: "main_open env userParams mixinParams s3 = Inr (q, s')"
  shows "\<exists>ip s5 s10 c0 c domCache.
           prepareParams env userParams mixinParams
             (log (SetCurrentInstance (currentInstance s3))
                (s3\<lparr>gs_currentInstance := currentInstance s3\<rparr>)) = Inr (ip, s5)
         \<and> ip < length (heap s5) \<and> \<not> frozen (heap s5 ! ip)
         \<and> ip < length (heap s10) \<and> frozen (heap s10 ! ip)
         \<and> heap s10 ! ip = (heap (call env (SetParameters (JRef ip)) s5) ! ip)\<lparr>frozen := True\<rparr>
         \<and> (q, s') = swalPromise env (Some c) domCache ip
              ((call env (Render (Some c0) (JRef ip)) s10)
                 \<lparr>pp_innerParams :=
                    (pp_innerParams (call env (Render (Some c0) (JRef ip)) s10))(c \<mapsto> JRef ip)\<rparr>)
         \<and> heap (call env (Render (Some c0) (JRef ip)) s10) ! ip = heap s10 ! ip
         \<and> ip < length (heap s') \<and> heap s' ! ip = heap s10 ! ip"
proof -
  let ?s4 = "log (SetCurrentInstance (currentInstance s3)) (s3\<lparr>gs_currentInstance := currentInstance s3\<rparr>)"
  from main_open_prefix [of env userParams s3 mixinParams]
  obtain n s5 where r: "prepareParams env userParams mixinParams ?s4 = Inr (n, s5)"
    and n5: "n < length (heap s5)" "\<not> frozen (heap s5 ! n)"
    by (elim exE conjE)
  let ?s6 = "call env (SetParameters (JRef n)) s5"
  let ?s7 = "?s6\<lparr>heap := object_freeze (JRef n) (heap ?s6)\<rparr>"
  have "follows env s5 ?s6" by (simp add: follows_call)
  with rf have "keeps_frozen (heap s5) (heap ?s6)"
    by (simp add: follows_def)
  with n5 have n6: "n < length (heap ?s6)"
    by (simp add: keeps_frozen_def)
  then have n7: "n < length (heap ?s7)" and f7: "frozen (heap ?s7 ! n)"
    and h7: "heap ?s7 ! n = (heap ?s6 ! n)\<lparr>frozen := True\<rparr>"
    by (simp_all add: object_freeze_def)
  from main_open_after_freeze(2) [OF r ok]
  obtain s10 c0 c domCache where fo: "follows env ?s7 s10"
    and e: "(q, s') = swalPromise env (Some c) domCache n
                   ((call env (Render (Some c0) (JRef n)) s10)
                      \<lparr>pp_innerParams :=
                         (pp_innerParams (call env (Render (Some c0) (JRef n)) s10))(c \<mapsto> JRef n)\<rparr>)"
    by blast
  from fo rf have "keeps_frozen (heap ?s7) (heap s10)"
    by (simp add: follows_def)
  with n7 f7 have n10: "n < length (heap s10)" and h10: "heap s10 ! n = heap ?s7 ! n"
    by (simp_all add: keeps_frozen_def)
  with f7 have f10: "frozen (heap s10 ! n)" by simp
  have "follows env s10 (call env (Render (Some c0) (JRef n)) s10)"
    by (simp add: follows_call)
  with rf have "keeps_frozen (heap s10) (heap (call env (Render (Some c0) (JRef n)) s10))"
    by (simp add: follows_def)
  with n10 f10 have h11: "heap (call env (Render (Some c0) (JRef n)) s10) ! n = heap s10 ! n"
    by (simp add: keeps_frozen_def)
  from main_open_after_freeze(1) [OF r] ok rf
  have "keeps_frozen (heap ?s7) (heap s')"
    by (simp add: follows_def res_state_def)
  with n7 f7 have fin: "n < length (heap s')" "heap s' ! n = heap ?s7 ! n"
    by (simp_all add: keeps_frozen_def)
  have "heap s10 ! n = (heap ?s6 ! n)\<lparr>frozen := True\<rparr>"
    using h10 h7 by simp
  moreover have "heap s' ! n = heap s10 ! n"
    using fin(2) h10 by simp
  ultimately show ?thesis
    using r n5 n10 f10 e h11 fin(1) by blast
qed

text \<open>The eviction, lines 56--66, case by case.\<close>

lemma main_evict_exact:
  assumes "gs_currentInstance s2 = Some a"
  shows "main_evict env s2 =
     (if isAwaitingPromise (instances s2 a) = Some True
      then Inr ((), if isModal env (call env (Destroy a) s2)
                    then call env UnsetAriaHidden (call env (Destroy a) s2)
                    else call env (Destroy a) s2)
      else case pm_swalPromiseResolve s2 a of
             None \<Rightarrow> Inl (TypeError, call env (Destroy a) s2)
           | Some p \<Rightarrow>
               Inr ((), if isModal env (resolve p [(''isDismissed'', JBool True)]
                                         (call env (Destroy a) s2))
                        then call env UnsetAriaHidden
                               (resolve p [(''isDismissed'', JBool True)] (call env (Destroy a) s2))
                        else resolve p [(''isDismissed'', JBool True)] (call env (Destroy a) s2)))"
  using assms by (simp add: main_evict_def Let_def bindE_def split: option.splits)

lemma main_unfold:
  "main_warnings env userParams mixinParams0 s = (mixinParams, s2) \<Longrightarrow>
   main env userParams mixinParams0 s =
     bindE (main_evict env s2) (\<lambda>(_, s3). main_open env userParams mixinParams s3)"
  by (simp add: main_def)

lemma env0_fields:
  "ext env0 = (\<lambda>ev s. s)" "isModal env0 = (\<lambda>s. True)" "window_defined env0"
  "defaultParams env0 = 0" "getTemplateParams env0 = (\<lambda>u s. (JUndefined, s))"
  "callIfFunction env0 = (\<lambda>v s. (v, s))" "dom_get env0 = (\<lambda>part s. Some (part_elem part))"
  "isVisible env0 = (\<lambda>e s. True)" "querySelectorAll env0 = (\<lambda>e q s. [])"
  "isHTMLElement env0 = (\<lambda>e s. True)" "activeElement env0 = (\<lambda>s. None)"
  "getFocusableElements env0 = (\<lambda>s. [])"
  "argsToParams env0 = (\<lambda>args s. (case args of [] \<Rightarrow> JUndefined | a # _ \<Rightarrow> a, s))"
  by (simp_all add: env0_def)

lemma inert_env0: "inert env0"
  by (simp add: inert_def env0_fields)

lemma respects_frozen_env0: "respects_frozen env0"
  by (rule inert_respects_frozen [OF inert_env0])

lemma respects_settled_env0: "respects_settled env0"
  by (rule inert_respects_settled [OF inert_env0])

lemma not_reentrant_env0: "not_reentrant env0"
  by (rule inert_not_reentrant [OF inert_env0])

lemma call_env0: "call env0 ev s = log ev s"
  by (rule inert_call [OF inert_env0])

lemma main_warnings_env0:
  "fst (main_warnings env0 u JUndefined st) = JRef (length (heap st))"
  "trace (snd (main_warnings env0 u JUndefined st))
     = trace st @ [ShowWarningsForParams (JRef (Suc (length (heap st))))]"
  "gs_currentInstance (snd (main_warnings env0 u JUndefined st)) = gs_currentInstance st"
  "currentInstance (snd (main_warnings env0 u JUndefined st)) = currentInstance st"
  "instances (snd (main_warnings env0 u JUndefined st)) = instances st"
  "pm_swalPromiseResolve (snd (main_warnings env0 u JUndefined st)) = pm_swalPromiseResolve st"
  "promises (snd (main_warnings env0 u JUndefined st)) = promises st"
  by (simp_all add: main_warnings_def allocS_eq object_assign_newS_eq call_env0 log_def Let_def
      split_def)

lemma open_state_fields:
  "length (heap open_state) = 2" "trace open_state = []"
  "gs_currentInstance open_state = Some 0"
  "isAwaitingPromise (instances open_state 0) = Some False"
  "pm_swalPromiseResolve open_state 0 = Some 0"
  "pm_swalPromiseResolve awaiting_state 0 = Some 0"
  "length (heap awaiting_state) = 2" "trace awaiting_state = []"
  "gs_currentInstance awaiting_state = Some 0"
  "isAwaitingPromise (instances awaiting_state 0) = Some True"
  "promises open_state = [Pending]" "promises awaiting_state = [Pending]"
  "currentInstance open_state = Some 1" "currentInstance awaiting_state = Some 1"
  by (simp_all add: open_state_def awaiting_state_def state0_def)

lemma orphan_state_fields:
  "length (heap orphan_state) = 2" "trace orphan_state = []"
  "gs_currentInstance orphan_state = Some 0"
  "currentInstance orphan_state = Some 1"
  "isAwaitingPromise (instances orphan_state 0) = Some False"
  "pm_swalPromiseResolve orphan_state 0 = None"
  "promises orphan_state = []"
  by (simp_all add: orphan_state_def open_state_def state0_def)

lemma main_open_returns:
  assumes pp: "prepareParams env userParams mixinParams
                 (log (SetCurrentInstance (currentInstance s3))
                    (s3\<lparr>gs_currentInstance := currentInstance s3\<rparr>)) = Inr (n, s5)"
    and i: "inert env" and c: "currentInstance s5 = Some c"
  shows "\<exists>q s'. main_open env userParams mixinParams s3 = Inr (q, s')"
proof -
  have e: "\<And>ev s. ext env ev s = s" using i by (simp add: inert_def)
  show ?thesis
    unfolding main_open_def Let_def pp
    by (auto simp add: bindE_def call_def log_def e populateDomCache_def c timer_stop_def Let_def
        split: option.splits intro: prod.exhaust)
qed

lemma main_open_inert:
  assumes i: "inert env" and c: "currentInstance s3 = Some c"
  shows "\<exists>q s' sc. main_open env userParams mixinParams s3 = Inr (q, s')
           \<and> length (heap s3) < length (heap s') \<and> frozen (heap s' ! length (heap s3))
           \<and> props (heap s' ! length (heap s3)) ''showClass'' = Some (JRef sc)
           \<and> sc < length (heap s') \<and> \<not> frozen (heap s' ! sc)
           \<and> currentInstance s' = Some c \<and> gs_currentInstance s' = Some c
           \<and> (merged_props env (heap s3) mixinParams
                  (fst (getTemplateParams env userParams
                     (log (GetTemplateParams userParams)
                        (log (SetCurrentInstance (currentInstance s3))
                           (s3\<lparr>gs_currentInstance := currentInstance s3\<rparr>)))))
                  userParams ''animation'' \<noteq> Some (JBool False)
                \<longrightarrow> sc = Suc (length (heap s3)))"
proof -
  have e: "\<And>ev s. ext env ev s = s" using i by (simp add: inert_def)
  let ?s4 = "log (SetCurrentInstance (currentInstance s3)) (s3\<lparr>gs_currentInstance := currentInstance s3\<rparr>)"
  obtain tp s1 where g: "call_val (getTemplateParams env userParams) (GetTemplateParams userParams) ?s4 = (tp, s1)"
    by (cases "call_val (getTemplateParams env userParams) (GetTemplateParams userParams) ?s4")
  from g have tp: "tp = fst (getTemplateParams env userParams (log (GetTemplateParams userParams) ?s4))"
    and "s1 = snd (getTemplateParams env userParams (log (GetTemplateParams userParams) ?s4))"
    by (simp_all add: call_val_def)
  with i have s1: "s1 = log (GetTemplateParams userParams) ?s4"
    by (simp add: inert_def)
  have g1: "gs_currentInstance s1 = Some c" and c1: "currentInstance s1 = Some c"
    and h1: "heap s1 = heap s3"
    unfolding s1 by (simp_all add: log_def c)
  let ?n = "length (heap s1)"
  from prepareParams_result [OF g, of mixinParams]
  obtain s5 sc hc where big: "prepareParams env userParams mixinParams ?s4 = Inr (?n, s5)
     \<and> s5 = s1\<lparr>heap := heap s5\<rparr>
     \<and> take ?n (heap s5) = heap s1
     \<and> ?n < length (heap s5) \<and> \<not> frozen (heap s5 ! ?n)
     \<and> (\<forall>k. k \<noteq> ''showClass'' \<longrightarrow> k \<noteq> ''hideClass'' \<longrightarrow> props (heap s5 ! ?n) k = merged_props env (heap s1) mixinParams tp userParams k)
     \<and> props (heap s5 ! ?n) ''showClass'' = Some (JRef sc)
     \<and> props (heap s5 ! ?n) ''hideClass'' = Some (JRef hc)
     \<and> ?n < sc \<and> sc < length (heap s5) \<and> \<not> frozen (heap s5 ! sc)
     \<and> ?n < hc \<and> hc < length (heap s5) \<and> \<not> frozen (heap s5 ! hc)
     \<and> sc = (if merged_props env (heap s1) mixinParams tp userParams ''animation'' = Some (JBool False) then ?n + 3 else ?n + 1)
     \<and> (merged_props env (heap s1) mixinParams tp userParams ''animation'' = Some (JBool False) \<longrightarrow>
          props (heap s5 ! sc) = [''backdrop'' \<mapsto> JStr ''swal2-noanimation'']
          \<and> props (heap s5 ! hc) = Map.empty)"
    by (elim exE)
  from big have r: "prepareParams env userParams mixinParams ?s4 = Inr (?n, s5)"
    by (elim conjE)
  from big have f: "s5 = s1\<lparr>heap := heap s5\<rparr>"
    by (elim conjE)
  from big have n5: "?n < length (heap s5)"
    by (elim conjE)
  from big have sc1: "props (heap s5 ! ?n) ''showClass'' = Some (JRef sc)"
    by (elim conjE)
  from big have sc2: "?n < sc" by (elim conjE)
  from big have sc3: "sc < length (heap s5)" by (elim conjE)
  from big have sc4: "\<not> frozen (heap s5 ! sc)" by (elim conjE)
  note sc = sc1 sc2 sc3 sc4
  from big have loc: "sc = (if merged_props env (heap s1) mixinParams tp userParams ''animation'' = Some (JBool False) then ?n + 3 else ?n + 1)"
    by (elim conjE)
  from arg_cong [OF f, of currentInstance] c1 have c5: "currentInstance s5 = Some c"
    by simp
  from arg_cong [OF f, of gs_currentInstance] g1 have g5: "gs_currentInstance s5 = Some c"
    by simp
  let ?s6 = "call env (SetParameters (JRef ?n)) s5"
  let ?s7 = "?s6\<lparr>heap := object_freeze (JRef ?n) (heap ?s6)\<rparr>"
  have h7: "heap ?s7 = (heap s5)[?n := (heap s5 ! ?n)\<lparr>frozen := True\<rparr>]"
    using n5 by (simp add: call_def log_def e object_freeze_def)
  from main_open_returns [OF r i c5]
  obtain q s' where ok: "main_open env userParams mixinParams s3 = Inr (q, s')"
    by blast
  from main_open_after_freeze(1) [OF r] ok i
  have "heap s' = heap ?s7" and cg: "currentInstance s' = Some c" "gs_currentInstance s' = Some c"
    by (simp_all add: follows_def res_state_def call_def log_def e c5 g5)
  with h7 have h: "heap s' = (heap s5)[?n := (heap s5 ! ?n)\<lparr>frozen := True\<rparr>]"
    by simp
  have "?n < length (heap s')" "frozen (heap s' ! ?n)"
    "props (heap s' ! ?n) ''showClass'' = Some (JRef sc)"
    "sc < length (heap s')" "\<not> frozen (heap s' ! sc)"
    using n5 sc by (simp_all add: h)
  moreover have "merged_props env (heap s1) mixinParams tp userParams ''animation'' \<noteq> Some (JBool False)
      \<longrightarrow> sc = Suc ?n"
    using loc by simp
  ultimately show ?thesis
    using ok cg unfolding h1 tp by blast
qed

lemma main_warnings_env0_heap:
  "\<exists>w. heap (snd (main_warnings env0 u JUndefined st))
         = heap st @ [\<lparr>props = Map.empty, frozen = False\<rparr>, w]"
  by (simp add: main_warnings_def allocS_eq object_assign_newS_eq call_env0 log_def Let_def
      split_def)

lemma open_state_evict:
  "\<exists>s3 w. main_evict env0 (snd (main_warnings env0 (JRef 1) JUndefined open_state)) = Inr ((), s3)
      \<and> currentInstance s3 = Some 1
      \<and> heap s3 = [\<lparr>props = Map.empty, frozen = False\<rparr>,
                   \<lparr>props = [''title'' \<mapsto> JStr ''B''], frozen = True\<rparr>,
                   \<lparr>props = Map.empty, frozen = False\<rparr>, w]"
proof -
  define so where "so = snd (main_warnings env0 (JRef 1) JUndefined open_state)"
  have o: "gs_currentInstance so = Some 0" "isAwaitingPromise (instances so 0) = Some False"
    "pm_swalPromiseResolve so 0 = Some 0" "currentInstance so = Some 1"
    unfolding so_def
    by (simp_all add: main_warnings_env0 open_state_fields)
  from main_warnings_env0_heap [of "JRef 1" open_state]
  obtain w where h: "heap so = [\<lparr>props = Map.empty, frozen = False\<rparr>,
                   \<lparr>props = [''title'' \<mapsto> JStr ''B''], frozen = True\<rparr>,
                   \<lparr>props = Map.empty, frozen = False\<rparr>, w]"
    unfolding so_def by (auto simp add: open_state_def state0_def)
  have "\<exists>s3. main_evict env0 so = Inr ((), s3) \<and> currentInstance s3 = Some 1 \<and> heap s3 = heap so"
    by (simp add: main_evict_exact [OF o(1)] o call_env0 resolve_def log_def settle_def env0_fields)
  then show ?thesis unfolding so_def [symmetric] h by blast
qed

lemma main_inert:
  assumes i: "inert env"
    and w: "main_warnings env userParams mixinParams0 s = (mixinParams, s2)"
    and ev: "main_evict env s2 = Inr ((), s3)"
    and c: "currentInstance s3 = Some c"
  shows "\<exists>q s' sc. main env userParams mixinParams0 s = Inr (q, s')
           \<and> length (heap s3) < length (heap s') \<and> frozen (heap s' ! length (heap s3))
           \<and> props (heap s' ! length (heap s3)) ''showClass'' = Some (JRef sc)
           \<and> sc < length (heap s') \<and> \<not> frozen (heap s' ! sc)
           \<and> currentInstance s' = Some c \<and> gs_currentInstance s' = Some c
           \<and> (merged_props env (heap s3) mixinParams
                  (fst (getTemplateParams env userParams
                     (log (GetTemplateParams userParams)
                        (log (SetCurrentInstance (currentInstance s3))
                           (s3\<lparr>gs_currentInstance := currentInstance s3\<rparr>)))))
                  userParams ''animation'' \<noteq> Some (JBool False)
                \<longrightarrow> sc = Suc (length (heap s3)))"
  using main_open_inert [OF i c, of userParams mixinParams]
  by (simp add: main_unfold [OF w] ev bindE_def)

text \<open>
  The run of the example: opening instance 1 over instance 0 in the inert browser
  returns; the configuration is the object at address 4 and is frozen; its
  \<^verbatim>\<open>showClass\<close> is the object at address 5, which is not frozen.
\<close>

lemma open_state_run:
  defines "r \<equiv> main env0 (JRef 1) JUndefined open_state"
  shows "\<not> isl r" and "4 < length (heap (res_state r))" and "frozen (heap (res_state r) ! 4)"
    and "props (heap (res_state r) ! 4) ''showClass'' = Some (JRef 5)"
    and "5 < length (heap (res_state r))" and "\<not> frozen (heap (res_state r) ! 5)"
proof -
  from open_state_evict obtain s3 w where
    ev: "main_evict env0 (snd (main_warnings env0 (JRef 1) JUndefined open_state)) = Inr ((), s3)"
    and c: "currentInstance s3 = Some 1"
    and h: "heap s3 = [\<lparr>props = Map.empty, frozen = False\<rparr>,
                   \<lparr>props = [''title'' \<mapsto> JStr ''B''], frozen = True\<rparr>,
                   \<lparr>props = Map.empty, frozen = False\<rparr>, w]"
    by blast
  have m: "fst (main_warnings env0 (JRef 1) JUndefined open_state) = JRef 2"
    by (simp add: main_warnings_env0 open_state_fields)
  have a: "merged_props env0 (heap s3) (JRef 2)
             (fst (getTemplateParams env0 (JRef 1)
                (log (GetTemplateParams (JRef 1))
                   (log (SetCurrentInstance (currentInstance s3))
                      (s3\<lparr>gs_currentInstance := currentInstance s3\<rparr>)))))
             (JRef 1) ''animation'' \<noteq> Some (JBool False)"
    by (simp add: merged_props_def own_props_def h env0_fields)
  from main_inert [OF inert_env0 surjective_pairing ev c, unfolded m] a
  obtain q s' where ok: "main env0 (JRef 1) JUndefined open_state = Inr (q, s')"
    and r: "length (heap s3) < length (heap s')" "frozen (heap s' ! length (heap s3))"
      "props (heap s' ! length (heap s3)) ''showClass'' = Some (JRef (Suc (length (heap s3))))"
      "Suc (length (heap s3)) < length (heap s')" "\<not> frozen (heap s' ! Suc (length (heap s3)))"
    by blast
  have l: "length (heap s3) = 4" by (simp add: h)
  have rs: "res_state r = s'" "\<not> isl r"
    unfolding r_def ok by (simp_all add: res_state_def)
  from rs(2) show "\<not> isl r" .
  from r show "4 < length (heap (res_state r))" and "frozen (heap (res_state r) ! 4)"
    and "props (heap (res_state r) ! 4) ''showClass'' = Some (JRef 5)"
    and "5 < length (heap (res_state r))" and "\<not> frozen (heap (res_state r) ! 5)"
    unfolding rs(1) l by simp_all
qed

section \<open>Opening a dialog: the claims\<close>

text \<open>
  Claim C1, where the code departs from it. Let \<^verbatim>\<open>_main\<close> reach line 56 in a
  state \<open>s2\<close> in which instance \<open>a\<close> is the registry's current instance, awaits
  nothing, and has no resolver registered: the state of an instance whose own opening is
  still under way, since the registry is written at line 68 and the resolver is
  registered at line 118, after the helpers of lines 71 and 85 have run. Then
  \<^verbatim>\<open>_main\<close> calls \<^verbatim>\<open>_destroy\<close> on \<open>a\<close> and throws a \<^verbatim>\<open>TypeError\<close> at
  line 61, in the very state in which \<^verbatim>\<open>_destroy\<close> returned: no result is resolved
  and the opening goes no further, although \<open>a\<close> awaits nothing.
\<close>

theorem main_eviction_throws:
  assumes "main_warnings env userParams mixinParams0 s = (mixinParams, s2)"
    and "gs_currentInstance s2 = Some a"
    and "isAwaitingPromise (instances s2 a) \<noteq> Some True"
    and "pm_swalPromiseResolve s2 a = None"
  shows "main env userParams mixinParams0 s = Inl (TypeError, call env (Destroy a) s2)"
  using assms by (simp add: main_unfold main_evict_exact bindE_def)

text \<open>
  The case at hand: while the dialog of instance 0 is being opened, instance 1 is
  constructed and opened. The call throws; all that has happened is the warning and the
  destruction of instance 0; no promise exists, none is settled, and the registry still
  names instance 0.
\<close>

theorem main_eviction_throws_witness:
  "gs_currentInstance (snd (main_warnings env0 (JRef 1) JUndefined orphan_state)) = Some 0
   \<and> isAwaitingPromise (instances (snd (main_warnings env0 (JRef 1) JUndefined orphan_state)) 0)
       = Some False
   \<and> pm_swalPromiseResolve (snd (main_warnings env0 (JRef 1) JUndefined orphan_state)) 0 = None
   \<and> main env0 (JRef 1) JUndefined orphan_state
       = Inl (TypeError,
              call env0 (Destroy 0) (snd (main_warnings env0 (JRef 1) JUndefined orphan_state)))
   \<and> trace (res_state (main env0 (JRef 1) JUndefined orphan_state))
       = [ShowWarningsForParams (JRef 3), Destroy 0]
   \<and> promises (res_state (main env0 (JRef 1) JUndefined orphan_state)) = []
   \<and> gs_currentInstance (res_state (main env0 (JRef 1) JUndefined orphan_state)) = Some 0"
proof -
  define sr where "sr = snd (main_warnings env0 (JRef 1) JUndefined orphan_state)"
  have wr: "main_warnings env0 (JRef 1) JUndefined orphan_state = (JRef 2, sr)"
    using main_warnings_env0(1) [of "JRef 1" orphan_state]
    by (simp add: orphan_state_fields prod_eq_iff sr_def)
  have r: "gs_currentInstance sr = Some 0" "isAwaitingPromise (instances sr 0) = Some False"
    "pm_swalPromiseResolve sr 0 = None" "trace sr = [ShowWarningsForParams (JRef 3)]"
    "promises sr = []"
    unfolding sr_def
    by (simp_all add: main_warnings_env0 orphan_state_fields)
  have na: "isAwaitingPromise (instances sr 0) \<noteq> Some True"
    by (simp add: r)
  note th = main_eviction_throws [OF wr r(1) na r(3)]
  have "trace (res_state (main env0 (JRef 1) JUndefined orphan_state))
       = [ShowWarningsForParams (JRef 3), Destroy 0]"
    and "promises (res_state (main env0 (JRef 1) JUndefined orphan_state)) = []"
    and "gs_currentInstance (res_state (main env0 (JRef 1) JUndefined orphan_state)) = Some 0"
    unfolding th by (simp_all add: res_state_def call_env0 log_fields r)
  with th r show ?thesis
    unfolding sr_def by simp
qed

text \<open>
  Claim C2. The registry has a single slot for the current instance, so it never holds
  more than one. Let \<^verbatim>\<open>_main\<close> reach line 56 in a state \<open>s2\<close> in which instance
  \<open>a\<close> is current. If \<open>a\<close> awaits nothing and has no resolver, the call throws
  when \<^verbatim>\<open>_destroy\<close> has returned, and line 68 is never reached: no instance is
  installed. Otherwise \<open>a\<close> awaits a promise or has the resolver \<open>p\<close>; then
  the eviction returns, in a state \<open>s3\<close>, and the rest of \<^verbatim>\<open>_main\<close>, which begins
  with the write of the registry at line 68, runs from \<open>s3\<close>. The state \<open>s3\<close> is
  the one reached by calling \<^verbatim>\<open>_destroy\<close> on \<open>a\<close>, then, when \<open>a\<close> awaits
  nothing, calling the resolver with \<^verbatim>\<open>{ isDismissed: true }\<close>, then unsetting
  \<^verbatim>\<open>aria-hidden\<close> for a modal. When \<open>a\<close> awaits nothing and its result is pending
  as \<^verbatim>\<open>_destroy\<close> returns, the result is fulfilled with
  \<^verbatim>\<open>{ isDismissed: true }\<close> in \<open>s3\<close>, before the registry is written, and is so
  at the end of the call. When no helper is re-entrant, the destruction of \<open>a\<close>
  precedes the one write of the registry in the trace. When the helpers leave the state
  alone, the registry still holds \<open>a\<close> in \<open>s3\<close> (and the promises are untouched in
  \<open>s3\<close> when \<open>a\<close> awaits a promise), and at the end of the call it holds the
  module's current instance.
\<close>

theorem main_evicts_before_install:
  assumes w: "main_warnings env userParams mixinParams0 s = (mixinParams, s2)"
    and cur: "gs_currentInstance s2 = Some a"
  shows
   "(isAwaitingPromise (instances s2 a) \<noteq> Some True \<and> pm_swalPromiseResolve s2 a = None \<longrightarrow>
       main env userParams mixinParams0 s = Inl (TypeError, call env (Destroy a) s2))
    \<and> (isAwaitingPromise (instances s2 a) = Some True \<or> pm_swalPromiseResolve s2 a = Some p \<longrightarrow>
       (\<exists>s3.
          main_evict env s2 = Inr ((), s3)
        \<and> main env userParams mixinParams0 s = main_open env userParams mixinParams s3
        \<and> (let s1 = call env (Destroy a) s2;
               r = (if isAwaitingPromise (instances s2 a) = Some True then s1
                    else resolve p [(''isDismissed'', JBool True)] s1)
           in s3 = (if isModal env r then call env UnsetAriaHidden r else r)
              \<and> (isAwaitingPromise (instances s2 a) \<noteq> Some True \<and> respects_settled env
                   \<and> p < length (promises s1) \<and> promises s1 ! p = Pending \<longrightarrow>
                   promises s3 ! p = Fulfilled [(''isDismissed'', JBool True)]
                   \<and> promises (res_state (main env userParams mixinParams0 s)) ! p
                       = Fulfilled [(''isDismissed'', JBool True)]))
        \<and> (not_reentrant env \<longrightarrow>
             (\<exists>pre post. trace s3 = trace s2 @ Destroy a # pre
                \<and> trace (res_state (main env userParams mixinParams0 s))
                    = trace s3 @ SetCurrentInstance (currentInstance s3) # post
                \<and> (\<forall>i. SetCurrentInstance i \<notin> set pre \<and> SetCurrentInstance i \<notin> set post)))
        \<and> (inert env \<longrightarrow>
             gs_currentInstance s3 = Some a
             \<and> (isAwaitingPromise (instances s2 a) = Some True \<longrightarrow> promises s3 = promises s2)
             \<and> gs_currentInstance (res_state (main env userParams mixinParams0 s))
                 = currentInstance s3)))"
proof (intro conjI impI)
  assume "isAwaitingPromise (instances s2 a) \<noteq> Some True \<and> pm_swalPromiseResolve s2 a = None"
  then show "main env userParams mixinParams0 s = Inl (TypeError, call env (Destroy a) s2)"
    by (simp add: main_unfold [OF w] main_evict_exact [OF cur] bindE_def)
next
  assume reg: "isAwaitingPromise (instances s2 a) = Some True \<or> pm_swalPromiseResolve s2 a = Some p"
  define v where "v = [(''isDismissed'', JBool True)]"
  define s1 where "s1 = call env (Destroy a) s2"
  define r where "r = (if isAwaitingPromise (instances s2 a) = Some True then s1 else resolve p v s1)"
  define s3 where "s3 = (if isModal env r then call env UnsetAriaHidden r else r)"
  have ev: "main_evict env s2 = Inr ((), s3)"
    using reg by (auto simp add: main_evict_exact [OF cur] s3_def r_def s1_def v_def)
  have m: "main env userParams mixinParams0 s = main_open env userParams mixinParams s3"
    by (simp add: main_unfold [OF w] ev bindE_def)
  have f3: "follows env r s3"
    by (simp add: s3_def follows_refl follows_call)
  have settled: "promises s3 ! p = Fulfilled v
      \<and> promises (res_state (main env userParams mixinParams0 s)) ! p = Fulfilled v"
    if na: "isAwaitingPromise (instances s2 a) \<noteq> Some True" and rs: "respects_settled env"
      and p: "p < length (promises s1)" "promises s1 ! p = Pending"
  proof -
    from na p have pr: "p < length (promises r)" "promises r ! p = Fulfilled v"
      by (simp_all add: r_def resolve_def settle_def log_def)
    from f3 rs have "keeps_settled (promises r) (promises s3)"
      by (simp add: follows_def)
    with pr have p3: "p < length (promises s3)" "promises s3 ! p = Fulfilled v"
      by (simp_all add: keeps_settled_def)
    from main_open_settled [OF rs, of s3 userParams mixinParams] p3
    have "promises (res_state (main_open env userParams mixinParams s3)) ! p = Fulfilled v"
      by (simp add: keeps_settled_def)
    with p3 show ?thesis by (simp add: m)
  qed
  have order: "\<exists>pre post. trace s3 = trace s2 @ Destroy a # pre
            \<and> trace (res_state (main env userParams mixinParams0 s))
                = trace s3 @ SetCurrentInstance (currentInstance s3) # post
            \<and> (\<forall>i. SetCurrentInstance i \<notin> set pre \<and> SetCurrentInstance i \<notin> set post)"
    if nr: "not_reentrant env"
  proof -
    from nr have "extends_quietly (trace (log (Destroy a) s2)) (trace s1)"
      by (simp add: s1_def call_def not_reentrant_def)
    then obtain e1 where e1: "trace s1 = trace s2 @ Destroy a # e1"
      "list_all (\<lambda>e. \<not> registry_event e) e1"
      by (auto simp add: extends_quietly_def log_fields)
    obtain e2 where e2: "trace r = trace s1 @ e2" "\<forall>i. SetCurrentInstance i \<notin> set e2"
      by (cases "isAwaitingPromise (instances s2 a) = Some True")
        (simp_all add: r_def resolve_def settle_def log_def)
    from f3 nr obtain e3 where e3: "trace s3 = trace r @ e3" "list_all (\<lambda>e. \<not> registry_event e) e3"
      by (auto simp add: follows_def extends_quietly_def)
    from main_open_trace [OF nr, of userParams mixinParams s3]
    obtain post where po: "trace (res_state (main_open env userParams mixinParams s3))
            = trace s3 @ SetCurrentInstance (currentInstance s3) # post"
      "list_all (\<lambda>e. \<not> registry_event e) post" by blast
    have "trace s3 = trace s2 @ Destroy a # (e1 @ e2 @ e3)"
      by (simp add: e3(1) e2(1) e1(1))
    moreover have "SetCurrentInstance i \<notin> set (e1 @ e2 @ e3) \<and> SetCurrentInstance i \<notin> set post" for i
      using e1(2) e2(2) e3(2) po(2) by (auto simp add: list_all_iff)
    ultimately show ?thesis using po(1) m by auto
  qed
  have quiet: "gs_currentInstance s3 = Some a
         \<and> (isAwaitingPromise (instances s2 a) = Some True \<longrightarrow> promises s3 = promises s2)
         \<and> gs_currentInstance (res_state (main env userParams mixinParams0 s)) = currentInstance s3"
    if i: "inert env"
  proof -
    have "gs_currentInstance s3 = Some a"
      by (simp add: s3_def r_def s1_def inert_call [OF i] resolve_def settle_def log_def cur)
    moreover have "promises s3 = promises s2" if "isAwaitingPromise (instances s2 a) = Some True"
      using that by (simp add: s3_def r_def s1_def inert_call [OF i] log_def)
    ultimately show ?thesis
      using main_open_registry(1) [OF i, of userParams mixinParams s3] by (simp add: m)
  qed
  show "\<exists>s3.
          main_evict env s2 = Inr ((), s3)
        \<and> main env userParams mixinParams0 s = main_open env userParams mixinParams s3
        \<and> (let s1 = call env (Destroy a) s2;
               r = (if isAwaitingPromise (instances s2 a) = Some True then s1
                    else resolve p [(''isDismissed'', JBool True)] s1)
           in s3 = (if isModal env r then call env UnsetAriaHidden r else r)
              \<and> (isAwaitingPromise (instances s2 a) \<noteq> Some True \<and> respects_settled env
                   \<and> p < length (promises s1) \<and> promises s1 ! p = Pending \<longrightarrow>
                   promises s3 ! p = Fulfilled [(''isDismissed'', JBool True)]
                   \<and> promises (res_state (main env userParams mixinParams0 s)) ! p
                       = Fulfilled [(''isDismissed'', JBool True)]))
        \<and> (not_reentrant env \<longrightarrow>
             (\<exists>pre post. trace s3 = trace s2 @ Destroy a # pre
                \<and> trace (res_state (main env userParams mixinParams0 s))
                    = trace s3 @ SetCurrentInstance (currentInstance s3) # post
                \<and> (\<forall>i. SetCurrentInstance i \<notin> set pre \<and> SetCurrentInstance i \<notin> set post)))
        \<and> (inert env \<longrightarrow>
             gs_currentInstance s3 = Some a
             \<and> (isAwaitingPromise (instances s2 a) = Some True \<longrightarrow> promises s3 = promises s2)
             \<and> gs_currentInstance (res_state (main env userParams mixinParams0 s))
                 = currentInstance s3)"
    apply (rule exI [of _ s3])
    apply (intro conjI)
        apply (rule ev)
       apply (rule m)
      apply (simp only: Let_def s1_def [symmetric])
      apply (fold v_def)
      apply (fold r_def)
      apply (intro conjI impI)
        apply (rule s3_def)
       apply (simp add: settled)
      apply (simp add: settled)
     apply (intro impI)
     apply (erule order)
    apply (intro impI)
    apply (erule quiet)
    done
qed

text \<open>
  Opening instance 1 while instance 0 is current, in the inert browser. When instance 0
  awaits nothing: its result (promise 0) is fulfilled in the state in which the eviction
  returns, where the registry still holds instance 0; afterwards the registry is written,
  once, and holds instance 1. When instance 0 awaits the result of an action: the
  eviction returns with the promises untouched, and then the registry is written. When
  the opening of instance 0 is still under way: the call throws and the registry still
  holds instance 0.
\<close>

theorem main_evicts_before_install_witness:
  "gs_currentInstance (snd (main_warnings env0 (JRef 1) JUndefined open_state)) = Some 0
   \<and> isAwaitingPromise (instances (snd (main_warnings env0 (JRef 1) JUndefined open_state)) 0)
        = Some False
   \<and> pm_swalPromiseResolve (snd (main_warnings env0 (JRef 1) JUndefined open_state)) 0 = Some 0
   \<and> promises (call env0 (Destroy 0) (snd (main_warnings env0 (JRef 1) JUndefined open_state)))
        = [Pending]
   \<and> respects_settled env0 \<and> not_reentrant env0 \<and> inert env0
   \<and> (\<exists>s3 post.
         main_evict env0 (snd (main_warnings env0 (JRef 1) JUndefined open_state)) = Inr ((), s3)
       \<and> main env0 (JRef 1) JUndefined open_state = main_open env0 (JRef 1) (JRef 2) s3
       \<and> trace s3 = [ShowWarningsForParams (JRef 3), Destroy 0,
                     Resolve 0 [(''isDismissed'', JBool True)], UnsetAriaHidden]
       \<and> promises s3 = [Fulfilled [(''isDismissed'', JBool True)]]
       \<and> gs_currentInstance s3 = Some 0 \<and> currentInstance s3 = Some 1
       \<and> trace (res_state (main env0 (JRef 1) JUndefined open_state))
           = trace s3 @ SetCurrentInstance (Some 1) # post
       \<and> (\<forall>i. SetCurrentInstance i \<notin> set post)
       \<and> promises (res_state (main env0 (JRef 1) JUndefined open_state)) ! 0
           = Fulfilled [(''isDismissed'', JBool True)]
       \<and> gs_currentInstance (res_state (main env0 (JRef 1) JUndefined open_state)) = Some 1)
   \<and> gs_currentInstance (snd (main_warnings env0 (JRef 1) JUndefined awaiting_state)) = Some 0
   \<and> isAwaitingPromise (instances (snd (main_warnings env0 (JRef 1) JUndefined awaiting_state)) 0)
        = Some True
   \<and> (\<exists>s3 post.
         main_evict env0 (snd (main_warnings env0 (JRef 1) JUndefined awaiting_state)) = Inr ((), s3)
       \<and> main env0 (JRef 1) JUndefined awaiting_state = main_open env0 (JRef 1) (JRef 2) s3
       \<and> trace s3 = [ShowWarningsForParams (JRef 3), Destroy 0, UnsetAriaHidden]
       \<and> promises s3 = [Pending]
       \<and> gs_currentInstance s3 = Some 0 \<and> currentInstance s3 = Some 1
       \<and> trace (res_state (main env0 (JRef 1) JUndefined awaiting_state))
           = trace s3 @ SetCurrentInstance (Some 1) # post
       \<and> (\<forall>i. SetCurrentInstance i \<notin> set post)
       \<and> gs_currentInstance (res_state (main env0 (JRef 1) JUndefined awaiting_state)) = Some 1)
   \<and> gs_currentInstance (snd (main_warnings env0 (JRef 1) JUndefined orphan_state)) = Some 0
   \<and> isAwaitingPromise (instances (snd (main_warnings env0 (JRef 1) JUndefined orphan_state)) 0)
        = Some False
   \<and> pm_swalPromiseResolve (snd (main_warnings env0 (JRef 1) JUndefined orphan_state)) 0 = None
   \<and> isl (main env0 (JRef 1) JUndefined orphan_state)
   \<and> gs_currentInstance (res_state (main env0 (JRef 1) JUndefined orphan_state)) = Some 0"
proof -
  define sr where "sr = snd (main_warnings env0 (JRef 1) JUndefined orphan_state)"
  have wr: "main_warnings env0 (JRef 1) JUndefined orphan_state = (JRef 2, sr)"
    using main_warnings_env0(1) [of "JRef 1" orphan_state]
    by (simp add: orphan_state_fields prod_eq_iff sr_def)
  have r: "gs_currentInstance sr = Some 0" "isAwaitingPromise (instances sr 0) = Some False"
    "pm_swalPromiseResolve sr 0 = None"
    unfolding sr_def
    by (simp_all add: main_warnings_env0 orphan_state_fields)
  from main_evicts_before_install [OF wr r(1), THEN conjunct1] r
  have "main env0 (JRef 1) JUndefined orphan_state = Inl (TypeError, call env0 (Destroy 0) sr)"
    by simp
  then have third: "isl (main env0 (JRef 1) JUndefined orphan_state)"
    "gs_currentInstance (res_state (main env0 (JRef 1) JUndefined orphan_state)) = Some 0"
    by (simp_all add: res_state_def call_env0 log_fields r)
  define so where "so = snd (main_warnings env0 (JRef 1) JUndefined open_state)"
  define sa where "sa = snd (main_warnings env0 (JRef 1) JUndefined awaiting_state)"
  define v where "v = [(''isDismissed'', JBool True)]"
  have wo: "main_warnings env0 (JRef 1) JUndefined open_state = (JRef 2, so)"
    and wa: "main_warnings env0 (JRef 1) JUndefined awaiting_state = (JRef 2, sa)"
    using main_warnings_env0(1) [of "JRef 1" open_state]
      main_warnings_env0(1) [of "JRef 1" awaiting_state]
    by (simp_all add: open_state_fields prod_eq_iff so_def sa_def)
  have o: "gs_currentInstance so = Some 0" "isAwaitingPromise (instances so 0) = Some False"
    "pm_swalPromiseResolve so 0 = Some 0" "trace so = [ShowWarningsForParams (JRef 3)]"
    "currentInstance so = Some 1" "promises so = [Pending]"
    unfolding so_def
    by (simp_all add: main_warnings_env0 open_state_fields)
  have a: "gs_currentInstance sa = Some 0" "isAwaitingPromise (instances sa 0) = Some True"
    "trace sa = [ShowWarningsForParams (JRef 3)]"
    "currentInstance sa = Some 1" "promises sa = [Pending]"
    unfolding sa_def
    by (simp_all add: main_warnings_env0 open_state_fields)
  have pd: "promises (call env0 (Destroy 0) so) = [Pending]"
    by (simp add: call_env0 log_fields o)
  have ro: "isAwaitingPromise (instances so 0) = Some True \<or> pm_swalPromiseResolve so 0 = Some 0"
    by (simp add: o)
  have ra: "isAwaitingPromise (instances sa 0) = Some True \<or> pm_swalPromiseResolve sa 0 = Some 0"
    by (simp add: a)
  from main_evicts_before_install [OF wo o(1), THEN conjunct2, rule_format, OF ro]
  obtain s3 where 1: "main_evict env0 so = Inr ((), s3)"
    and 2: "main env0 (JRef 1) JUndefined open_state = main_open env0 (JRef 1) (JRef 2) s3"
    and 3: "(let s1 = call env0 (Destroy 0) so;
           r = (if isAwaitingPromise (instances so 0) = Some True then s1
                else resolve 0 [(''isDismissed'', JBool True)] s1)
       in s3 = (if isModal env0 r then call env0 UnsetAriaHidden r else r)
          \<and> (isAwaitingPromise (instances so 0) \<noteq> Some True \<and> respects_settled env0
               \<and> 0 < length (promises s1) \<and> promises s1 ! 0 = Pending \<longrightarrow>
               promises s3 ! 0 = Fulfilled [(''isDismissed'', JBool True)]
               \<and> promises (res_state (main env0 (JRef 1) JUndefined open_state)) ! 0
                   = Fulfilled [(''isDismissed'', JBool True)]))"
    and 4: "not_reentrant env0 \<longrightarrow>
         (\<exists>pre post. trace s3 = trace so @ Destroy 0 # pre
            \<and> trace (res_state (main env0 (JRef 1) JUndefined open_state))
                = trace s3 @ SetCurrentInstance (currentInstance s3) # post
            \<and> (\<forall>i. SetCurrentInstance i \<notin> set pre \<and> SetCurrentInstance i \<notin> set post))"
    and 5: "inert env0 \<longrightarrow>
         gs_currentInstance s3 = Some 0
         \<and> (isAwaitingPromise (instances so 0) = Some True \<longrightarrow> promises s3 = promises so)
         \<and> gs_currentInstance (res_state (main env0 (JRef 1) JUndefined open_state)) = currentInstance s3"
    by (elim exE conjE)
  from 3 have s3: "s3 = log UnsetAriaHidden (resolve 0 v (log (Destroy 0) so))"
    by (simp add: Let_def o call_env0 env0_fields v_def)
  have t3: "trace s3 = [ShowWarningsForParams (JRef 3), Destroy 0, Resolve 0 v, UnsetAriaHidden]"
    and p3: "promises s3 = [Fulfilled v]" and c3: "currentInstance s3 = Some 1"
    unfolding s3 by (simp_all add: resolve_def settle_def log_def o)
  from 3 pd have f: "promises (res_state (main env0 (JRef 1) JUndefined open_state)) ! 0 = Fulfilled v"
    by (simp add: Let_def o respects_settled_env0 v_def)
  from 4 not_reentrant_env0 obtain post where
    po: "trace (res_state (main env0 (JRef 1) JUndefined open_state))
                = trace s3 @ SetCurrentInstance (Some 1) # post"
      "\<forall>i. SetCurrentInstance i \<notin> set post"
    by (auto simp add: c3)
  from 5 inert_env0 have g: "gs_currentInstance s3 = Some 0"
    "gs_currentInstance (res_state (main env0 (JRef 1) JUndefined open_state)) = Some 1"
    by (simp_all add: c3)
  have first: "\<exists>s3 post.
         main_evict env0 so = Inr ((), s3)
       \<and> main env0 (JRef 1) JUndefined open_state = main_open env0 (JRef 1) (JRef 2) s3
       \<and> trace s3 = [ShowWarningsForParams (JRef 3), Destroy 0, Resolve 0 v, UnsetAriaHidden]
       \<and> promises s3 = [Fulfilled v]
       \<and> gs_currentInstance s3 = Some 0 \<and> currentInstance s3 = Some 1
       \<and> trace (res_state (main env0 (JRef 1) JUndefined open_state))
           = trace s3 @ SetCurrentInstance (Some 1) # post
       \<and> (\<forall>i. SetCurrentInstance i \<notin> set post)
       \<and> promises (res_state (main env0 (JRef 1) JUndefined open_state)) ! 0 = Fulfilled v
       \<and> gs_currentInstance (res_state (main env0 (JRef 1) JUndefined open_state)) = Some 1"
    using 1 2 t3 p3 g c3 po f by blast
  from main_evicts_before_install [OF wa a(1), THEN conjunct2, rule_format, OF ra]
  obtain s3' where 1: "main_evict env0 sa = Inr ((), s3')"
    and 2: "main env0 (JRef 1) JUndefined awaiting_state = main_open env0 (JRef 1) (JRef 2) s3'"
    and 3: "(let s1 = call env0 (Destroy 0) sa;
           r = (if isAwaitingPromise (instances sa 0) = Some True then s1
                else resolve 0 [(''isDismissed'', JBool True)] s1)
       in s3' = (if isModal env0 r then call env0 UnsetAriaHidden r else r)
          \<and> (isAwaitingPromise (instances sa 0) \<noteq> Some True \<and> respects_settled env0
               \<and> 0 < length (promises s1) \<and> promises s1 ! 0 = Pending \<longrightarrow>
               promises s3' ! 0 = Fulfilled [(''isDismissed'', JBool True)]
               \<and> promises (res_state (main env0 (JRef 1) JUndefined awaiting_state)) ! 0
                   = Fulfilled [(''isDismissed'', JBool True)]))"
    and 4: "not_reentrant env0 \<longrightarrow>
         (\<exists>pre post. trace s3' = trace sa @ Destroy 0 # pre
            \<and> trace (res_state (main env0 (JRef 1) JUndefined awaiting_state))
                = trace s3' @ SetCurrentInstance (currentInstance s3') # post
            \<and> (\<forall>i. SetCurrentInstance i \<notin> set pre \<and> SetCurrentInstance i \<notin> set post))"
    and 5: "inert env0 \<longrightarrow>
         gs_currentInstance s3' = Some 0
         \<and> (isAwaitingPromise (instances sa 0) = Some True \<longrightarrow> promises s3' = promises sa)
         \<and> gs_currentInstance (res_state (main env0 (JRef 1) JUndefined awaiting_state)) = currentInstance s3'"
    by (elim exE conjE)
  from 3 have s3': "s3' = log UnsetAriaHidden (log (Destroy 0) sa)"
    by (simp add: Let_def a call_env0 env0_fields)
  have t3: "trace s3' = [ShowWarningsForParams (JRef 3), Destroy 0, UnsetAriaHidden]"
    and c3: "currentInstance s3' = Some 1"
    unfolding s3' by (simp_all add: log_def a)
  from 4 not_reentrant_env0 obtain post where
    po: "trace (res_state (main env0 (JRef 1) JUndefined awaiting_state))
                = trace s3' @ SetCurrentInstance (Some 1) # post"
      "\<forall>i. SetCurrentInstance i \<notin> set post"
    by (auto simp add: c3)
  from 5 inert_env0 have g: "gs_currentInstance s3' = Some 0" "promises s3' = [Pending]"
    "gs_currentInstance (res_state (main env0 (JRef 1) JUndefined awaiting_state)) = Some 1"
    by (simp_all add: c3 a)
  have second: "\<exists>s3 post.
         main_evict env0 sa = Inr ((), s3)
       \<and> main env0 (JRef 1) JUndefined awaiting_state = main_open env0 (JRef 1) (JRef 2) s3
       \<and> trace s3 = [ShowWarningsForParams (JRef 3), Destroy 0, UnsetAriaHidden]
       \<and> promises s3 = [Pending]
       \<and> gs_currentInstance s3 = Some 0 \<and> currentInstance s3 = Some 1
       \<and> trace (res_state (main env0 (JRef 1) JUndefined awaiting_state))
           = trace s3 @ SetCurrentInstance (Some 1) # post
       \<and> (\<forall>i. SetCurrentInstance i \<notin> set post)
       \<and> gs_currentInstance (res_state (main env0 (JRef 1) JUndefined awaiting_state)) = Some 1"
    using 1 2 t3 g c3 po by blast
  from o(1,2,3) pd respects_settled_env0 not_reentrant_env0 inert_env0 first a(1,2) second
    r third
  show ?thesis
    unfolding so_def [symmetric] sa_def [symmetric] sr_def [symmetric] v_def [symmetric] by simp
qed

text \<open>
  Claim C10. Without \<^verbatim>\<open>window\<close> the constructor returns at once: the state,
  with the module's \<^verbatim>\<open>currentInstance\<close>, the registry, the fields \<^verbatim>\<open>params\<close>,
  \<^verbatim>\<open>isAwaitingPromise\<close> and \<^verbatim>\<open>#promise\<close> of the new instance, and the trace, is
  what it was.
\<close>

theorem constructor_without_window:
  "\<not> window_defined env \<Longrightarrow> constructor env this args s = Inr ((), s)"
  by (simp add: constructor_def)

theorem constructor_without_window_witness:
  "\<not> window_defined node_env
   \<and> constructor node_env 1 [JRef 1] open_state = Inr ((), open_state)"
proof -
  have "\<not> window_defined node_env"
    by (simp add: node_env_def env0_def)
  with constructor_without_window [of node_env 1 "[JRef 1]" open_state]
  show ?thesis by simp
qed

text \<open>
  Claim C8, as amended. The effective configuration is frozen, shallowly, by
  \<^verbatim>\<open>_main\<close> (line 72), after \<^verbatim>\<open>prepareParams\<close> has built it and
  \<^verbatim>\<open>setParameters\<close> has run on it, and before it is rendered and attached to the
  instance. In every run of \<^verbatim>\<open>_main\<close> that returns, in an environment whose
  helpers respect frozen objects: \<^verbatim>\<open>prepareParams\<close>, called when the registry
  has just been written, returns the configuration \<open>ip\<close> unfrozen, in a state
  \<open>s5\<close> in which \<^verbatim>\<open>setParameters\<close> is called on it; in the state \<open>s10\<close> in which \<^verbatim>\<open>dom.render\<close> is called on it, it is what
  \<^verbatim>\<open>setParameters\<close> left, frozen; rendering does not change it; it is attached to
  the instance in the state in which the renderer returned, and the promise is built from
  there; and in the final state it is still what it was when it was rendered, so that every
  attempt to write a property or to delete one that it has throws a \<^verbatim>\<open>TypeError\<close>
  (deleting a property that it does not have changes nothing), and no helper called later
  changes it: a re-configuration can only take effect through a new object. When the
  helpers leave the state alone, it is the configuration attached to the instance in the
  final state. No such guarantee is given for the objects that the configuration refers
  to.
\<close>

theorem main_freezes_configuration:
  assumes rf: "respects_frozen env"
    and ok: "main env userParams mixinParams0 s = Inr (q, s')"
  shows "\<exists>mixinParams s3 ip s5 s10 c0 c domCache.
           main env userParams mixinParams0 s = main_open env userParams mixinParams s3
         \<and> prepareParams env userParams mixinParams
             (log (SetCurrentInstance (currentInstance s3))
                (s3\<lparr>gs_currentInstance := currentInstance s3\<rparr>)) = Inr (ip, s5)
         \<and> ip < length (heap s5) \<and> \<not> frozen (heap s5 ! ip)
         \<and> ip < length (heap s10) \<and> frozen (heap s10 ! ip)
         \<and> heap s10 ! ip = (heap (call env (SetParameters (JRef ip)) s5) ! ip)\<lparr>frozen := True\<rparr>
         \<and> (q, s') = swalPromise env (Some c) domCache ip
              ((call env (Render (Some c0) (JRef ip)) s10)
                 \<lparr>pp_innerParams :=
                    (pp_innerParams (call env (Render (Some c0) (JRef ip)) s10))(c \<mapsto> JRef ip)\<rparr>)
         \<and> heap (call env (Render (Some c0) (JRef ip)) s10) ! ip = heap s10 ! ip
         \<and> ip < length (heap s') \<and> heap s' ! ip = heap s10 ! ip
         \<and> (\<forall>k v. set_prop ip k v (heap s') = Inl TypeError)
         \<and> (\<forall>k. delete_prop ip k (heap s')
                   = (if k \<in> dom (props (heap s' ! ip)) then Inl TypeError else Inr (heap s')))
         \<and> (\<forall>ev. heap (call env ev s') ! ip = heap s' ! ip)
         \<and> (inert env \<longrightarrow> pp_innerParams s' c = Some (JRef ip))"
proof -
  obtain mixinParams s2 where w: "main_warnings env userParams mixinParams0 s = (mixinParams, s2)"
    by (cases "main_warnings env userParams mixinParams0 s")
  from ok obtain s3 where op: "main_open env userParams mixinParams s3 = Inr (q, s')"
    and 0: "main env userParams mixinParams0 s = main_open env userParams mixinParams s3"
    by (auto simp add: main_unfold [OF w] bindE_def split: sum.splits)
  from main_open_frozen [OF rf op]
  obtain ip s5 s10 c0 c domCache where
    1: "prepareParams env userParams mixinParams
             (log (SetCurrentInstance (currentInstance s3))
                (s3\<lparr>gs_currentInstance := currentInstance s3\<rparr>)) = Inr (ip, s5)"
    and 2: "ip < length (heap s5)" "\<not> frozen (heap s5 ! ip)"
    and 3: "ip < length (heap s10)" "frozen (heap s10 ! ip)"
    and 4: "heap s10 ! ip = (heap (call env (SetParameters (JRef ip)) s5) ! ip)\<lparr>frozen := True\<rparr>"
    and 5: "(q, s') = swalPromise env (Some c) domCache ip
              ((call env (Render (Some c0) (JRef ip)) s10)
                 \<lparr>pp_innerParams :=
                    (pp_innerParams (call env (Render (Some c0) (JRef ip)) s10))(c \<mapsto> JRef ip)\<rparr>)"
    and 6: "heap (call env (Render (Some c0) (JRef ip)) s10) ! ip = heap s10 ! ip"
    and 7: "ip < length (heap s')" "heap s' ! ip = heap s10 ! ip"
    by (elim exE conjE)
  from 7 3 have f: "frozen (heap s' ! ip)" by simp
  have 8: "set_prop ip k v (heap s') = Inl TypeError" for k v
    using f by (simp add: set_prop_def)
  have "(heap s')[ip := (heap s' ! ip)\<lparr>props := (props (heap s' ! ip))(k := None)\<rparr>] = heap s'"
    if "k \<notin> dom (props (heap s' ! ip))" for k
  proof -
    from that have "(props (heap s' ! ip))(k := None) = props (heap s' ! ip)"
      by (auto simp add: fun_upd_idem_iff)
    then show ?thesis by simp
  qed
  then have 9: "delete_prop ip k (heap s')
                   = (if k \<in> dom (props (heap s' ! ip)) then Inl TypeError else Inr (heap s'))" for k
    using f 7(1) by (simp add: delete_prop_def)
  have 10: "heap (call env ev s') ! ip = heap s' ! ip" for ev
  proof -
    from rf have "keeps_frozen (heap (log ev s')) (heap (call env ev s'))"
      by (simp add: call_def respects_frozen_def)
    with f 7(1) show ?thesis
      by (simp add: keeps_frozen_def log_fields)
  qed
  have 11: "pp_innerParams s' c = Some (JRef ip)" if i: "inert env"
  proof -
    from arg_cong [OF 5, of snd] have "pp_innerParams s'
        = pp_innerParams (snd (swalPromise env (Some c) domCache ip
              ((call env (Render (Some c0) (JRef ip)) s10)
                 \<lparr>pp_innerParams :=
                    (pp_innerParams (call env (Render (Some c0) (JRef ip)) s10))(c \<mapsto> JRef ip)\<rparr>)))"
      by simp
    then show ?thesis
      by (simp add: innerParams_swalPromise [OF i])
  qed
  from 0 1 2 3 4 5 6 7 8 9 10 11 show ?thesis by blast
qed

text \<open>
  Opening instance 1 over instance 0 in the inert browser: the run returns, and the
  configuration, the object at address 4, is frozen and rejects the deletion of its
  \<^verbatim>\<open>showClass\<close>.
\<close>

theorem main_freezes_configuration_witness:
  "respects_frozen env0
   \<and> (\<exists>q s'. main env0 (JRef 1) JUndefined open_state = Inr (q, s')
        \<and> (\<exists>mixinParams s3 ip s5 s10 c0 c domCache.
           main env0 (JRef 1) JUndefined open_state = main_open env0 (JRef 1) mixinParams s3
         \<and> prepareParams env0 (JRef 1) mixinParams
             (log (SetCurrentInstance (currentInstance s3))
                (s3\<lparr>gs_currentInstance := currentInstance s3\<rparr>)) = Inr (ip, s5)
         \<and> ip < length (heap s5) \<and> \<not> frozen (heap s5 ! ip)
         \<and> ip < length (heap s10) \<and> frozen (heap s10 ! ip)
         \<and> heap s10 ! ip = (heap (call env0 (SetParameters (JRef ip)) s5) ! ip)\<lparr>frozen := True\<rparr>
         \<and> (q, s') = swalPromise env0 (Some c) domCache ip
              ((call env0 (Render (Some c0) (JRef ip)) s10)
                 \<lparr>pp_innerParams :=
                    (pp_innerParams (call env0 (Render (Some c0) (JRef ip)) s10))(c \<mapsto> JRef ip)\<rparr>)
         \<and> heap (call env0 (Render (Some c0) (JRef ip)) s10) ! ip = heap s10 ! ip
         \<and> ip < length (heap s') \<and> heap s' ! ip = heap s10 ! ip
         \<and> (\<forall>k v. set_prop ip k v (heap s') = Inl TypeError)
         \<and> (\<forall>k. delete_prop ip k (heap s')
                   = (if k \<in> dom (props (heap s' ! ip)) then Inl TypeError else Inr (heap s')))
         \<and> (\<forall>ev. heap (call env0 ev s') ! ip = heap s' ! ip)
         \<and> pp_innerParams s' c = Some (JRef ip)))
   \<and> inert env0
   \<and> frozen (heap (res_state (main env0 (JRef 1) JUndefined open_state)) ! 4)
   \<and> delete_prop 4 ''showClass'' (heap (res_state (main env0 (JRef 1) JUndefined open_state)))
       = Inl TypeError"
proof -
  define H where "H = heap (res_state (main env0 (JRef 1) JUndefined open_state))"
  note r = open_state_run [folded H_def]
  from open_state_run(1)
  obtain q s' where ok: "main env0 (JRef 1) JUndefined open_state = Inr (q, s')"
    by (cases "main env0 (JRef 1) JUndefined open_state") auto
  note th = main_freezes_configuration [OF respects_frozen_env0 ok]
  have 1: "delete_prop 4 ''showClass'' H = Inl TypeError"
    using r(2,3,4) by (simp add: delete_prop_def dom_def)
  from th ok respects_frozen_env0 inert_env0 r(3) 1 show ?thesis
    unfolding H_def by blast
qed

text \<open>
  Claim C8 as stated fails: the configuration is not deep-frozen. After the same run of
  \<^verbatim>\<open>_main\<close> the configuration (the object at address 4) is frozen and rejects a
  write, but its \<^verbatim>\<open>showClass\<close> (the object at address 5) accepts the write
  \<^verbatim>\<open>showClass.popup = 'mine'\<close>, which is then read back through the configuration.
\<close>

theorem nested_classes_mutable_counterexample:
  "\<not> isl (main env0 (JRef 1) JUndefined open_state)
   \<and> frozen (heap (res_state (main env0 (JRef 1) JUndefined open_state)) ! 4)
   \<and> set_prop 4 ''showClass'' JNull (heap (res_state (main env0 (JRef 1) JUndefined open_state)))
       = Inl TypeError
   \<and> get_prop (heap (res_state (main env0 (JRef 1) JUndefined open_state))) 4 ''showClass''
       = JRef 5
   \<and> \<not> isl (set_prop 5 ''popup'' (JStr ''mine'')
              (heap (res_state (main env0 (JRef 1) JUndefined open_state))))
   \<and> get_prop (projr (set_prop 5 ''popup'' (JStr ''mine'')
                 (heap (res_state (main env0 (JRef 1) JUndefined open_state))))) 4 ''showClass''
       = JRef 5
   \<and> get_prop (projr (set_prop 5 ''popup'' (JStr ''mine'')
                 (heap (res_state (main env0 (JRef 1) JUndefined open_state))))) 5 ''popup''
       = JStr ''mine''"
proof -
  define H where "H = heap (res_state (main env0 (JRef 1) JUndefined open_state))"
  note r = open_state_run [folded H_def]
  have 1: "set_prop 4 ''showClass'' JNull H = Inl TypeError"
    using r(3) by (simp add: set_prop_def)
  have 2: "get_prop H 4 ''showClass'' = JRef 5"
    using r(2,4) by (simp add: get_prop_valid)
  have 3: "set_prop 5 ''popup'' (JStr ''mine'') H
             = Inr (H[5 := (H ! 5)\<lparr>props := (props (H ! 5))(''popup'' \<mapsto> JStr ''mine'')\<rparr>])"
    using r(5,6) by (simp add: set_prop_def)
  have 4: "get_prop (H[5 := (H ! 5)\<lparr>props := (props (H ! 5))(''popup'' \<mapsto> JStr ''mine'')\<rparr>]) 4
             ''showClass'' = JRef 5"
    using r(2,4) by (simp add: get_prop_valid)
  have 5: "get_prop (H[5 := (H ! 5)\<lparr>props := (props (H ! 5))(''popup'' \<mapsto> JStr ''mine'')\<rparr>]) 5
             ''popup'' = JStr ''mine''"
    using r(5) by (simp add: get_prop_valid)
  from r(1,3) 1 2 3 4 5 show ?thesis
    unfolding H_def by simp
qed

section \<open>The static proxy: the claim\<close>

lemma method_env_fields:
  "instanceMethods method_env ''getInput'' = Some (JFun 0)"
  "instanceMethods method_env ''close'' = Some (JFun 1)"
  "instanceMethods method_env ''isAwaitingPromise'' = Some (JFun 2)"
  "instanceMethods method_env ''update'' = None"
  "apply_function method_env 0 = (\<lambda>i args s. (JStr ''input'', s))"
  "apply_function method_env (Suc 0) = (\<lambda>i args s.
     (JUndefined, if gs_currentInstance s = Some i then s\<lparr>gs_currentInstance := None\<rparr> else s))"
  by (simp_all add: method_env_def)

lemma main_warnings_inert:
  assumes "inert env"
  shows "currentInstance (snd (main_warnings env u m s)) = currentInstance s"
    and "gs_currentInstance (snd (main_warnings env u m s)) = gs_currentInstance s"
  using assms
  by (simp_all add: main_warnings_def allocS_eq object_assign_newS_eq inert_call log_def Let_def
      split_def)

text \<open>The first dialog: constructing an instance while the registry is empty.\<close>

lemma first_open:
  assumes i: "inert env" and w: "window_defined env"
    and a: "\<And>args s. snd (argsToParams env args s) = s"
    and g: "gs_currentInstance s = None"
  shows "\<exists>s'. constructor env this args s = Inr ((), s')
           \<and> currentInstance s' = Some this \<and> gs_currentInstance s' = Some this"
proof -
  define s5 where "s5 =
    (let s1 = s\<lparr>currentInstance := Some this\<rparr>;
         p = call_val (argsToParams env args) (ArgsToParams args) s1;
         s3 = (snd p)\<lparr>heap := object_freeze (fst p) (heap (snd p))\<rparr>;
         s4 = s3\<lparr>instances := (instances s3)(this := (instances s3 this)\<lparr>params := Some (fst p)\<rparr>)\<rparr>
     in s4\<lparr>instances := (instances s4)(this := (instances s4 this)\<lparr>isAwaitingPromise := Some False\<rparr>)\<rparr>)"
  have c5: "currentInstance s5 = Some this" and g5: "gs_currentInstance s5 = None"
    by (simp_all add: s5_def Let_def call_val_def log_def a g)
  define u where "u = (case params (instances s5 this) of Some v \<Rightarrow> v | None \<Rightarrow> JUndefined)"
  have cu: "constructor env this args s =
     bindE (main env u JUndefined s5)
       (\<lambda>(p, s6). Inr ((), s6\<lparr>instances := (instances s6)(this := (instances s6 this)\<lparr>promise := Some p\<rparr>)\<rparr>))"
  proof -
    have "constructor env this args s =
      (case currentInstance s5 of
         None \<Rightarrow> Inl (TypeError, s5)
       | Some c \<Rightarrow>
           bindE (main env (case params (instances s5 c) of Some v \<Rightarrow> v | None \<Rightarrow> JUndefined)
                    JUndefined s5)
             (\<lambda>(p, s6).
                Inr ((), s6\<lparr>instances := (instances s6)(this := (instances s6 this)\<lparr>promise := Some p\<rparr>)\<rparr>)))"
      using w unfolding constructor_def s5_def Let_def split_def by simp
    then show ?thesis by (simp add: c5 u_def)
  qed
  obtain mp s2 where mw: "main_warnings env u JUndefined s5 = (mp, s2)"
    by (cases "main_warnings env u JUndefined s5")
  from main_warnings_inert [OF i, of u JUndefined s5] mw
  have c2: "currentInstance s2 = Some this" and g2: "gs_currentInstance s2 = None"
    by (simp_all add: c5 g5)
  have ev: "main_evict env s2 = Inr ((), s2)"
    by (simp add: main_evict_def g2)
  from main_inert [OF i mw ev c2]
  obtain q s' where m: "main env u JUndefined s5 = Inr (q, s')"
    and r: "currentInstance s' = Some this" "gs_currentInstance s' = Some this"
    by blast
  have "constructor env this args s =
          Inr ((), s'\<lparr>instances := (instances s')(this := (instances s' this)\<lparr>promise := Some q\<rparr>)\<rparr>)"
    by (simp add: cu m bindE_def)
  with r show ?thesis by simp
qed

lemma method_env_inert:
  "inert method_env" "window_defined method_env"
  "snd (argsToParams method_env args s) = s"
  by (simp_all add: inert_def method_env_def env0_def split: list.splits)

lemma instance_member_prototype:
  "key \<in> set prototype_methods \<Longrightarrow>
   instance_member env s c key
     = Value (case instanceMethods env key of Some v \<Rightarrow> v | None \<Rightarrow> JUndefined)"
  by (auto simp add: instance_member_def prototype_methods_def)

text \<open>
  Claim C9, as amended. A static method call reads the property of that name of the
  instance that the module-level variable \<^verbatim>\<open>currentInstance\<close> holds, the instance
  constructed last, whether or not it is still open. It returns \<^verbatim>\<open>null\<close>, and does
  nothing, when no instance has been constructed yet or when the value of the property is
  falsy (\<^verbatim>\<open>undefined\<close> for a property that the instance does not have); it forwards
  its arguments to a value that is a function, called on the instance, and returns its
  result; and it throws a \<^verbatim>\<open>TypeError\<close> for a truthy value that is not a function.
  For each of the sixteen methods of lines 436--451 the value is what the module
  \<^verbatim>\<open>instanceMethods\<close> exports under the name. The own properties come first:
  \<^verbatim>\<open>params\<close>, and \<^verbatim>\<open>isAwaitingPromise\<close>, which gives \<^verbatim>\<open>null\<close> while the
  flag is false and a \<^verbatim>\<open>TypeError\<close> while it is true. The members of the class are
  called as they are: \<^verbatim>\<open>_main\<close> with the first two arguments, \<^verbatim>\<open>then\<close> and
  \<^verbatim>\<open>finally\<close> on the promise of the instance with the first argument (a
  \<^verbatim>\<open>TypeError\<close> while the instance has no promise yet), and the constructor, which
  throws. Every other key is read from \<^verbatim>\<open>Object.prototype\<close>.
\<close>

theorem static_proxy_forwards:
  "(currentInstance s = None \<longrightarrow> static_proxy env key args s = Inr (JNull, s))
   \<and> (currentInstance s = Some c \<longrightarrow>
        (key \<in> set prototype_methods \<longrightarrow>
           static_proxy env key args s
             = proxy_call env key c args
                 (case instanceMethods env key of Some v \<Rightarrow> v | None \<Rightarrow> JUndefined) s)
        \<and> (key = ''params'' \<and> params (instances s c) = Some v \<longrightarrow>
             static_proxy env key args s = proxy_call env key c args v s)
        \<and> (key = ''isAwaitingPromise'' \<and> isAwaitingPromise (instances s c) = Some b \<longrightarrow>
             static_proxy env key args s = (if b then Inl (TypeError, s) else Inr (JNull, s)))
        \<and> (key = ''_main'' \<longrightarrow>
             static_proxy env key args s
               = bindE (main env (nth_arg args 0) (nth_arg args 1) s) (\<lambda>(p, s'). Inr (JPromise p, s')))
        \<and> (key = ''then'' \<longrightarrow>
             static_proxy env key args s
               = (case promise (instances s c) of
                    None \<Rightarrow> Inl (TypeError, s)
                  | Some p \<Rightarrow> Inr (call_val (promise_then env p (nth_arg args 0))
                                      (PromiseThen p (nth_arg args 0)) s)))
        \<and> (key = ''finally'' \<longrightarrow>
             static_proxy env key args s
               = (case promise (instances s c) of
                    None \<Rightarrow> Inl (TypeError, s)
                  | Some p \<Rightarrow> Inr (call_val (promise_finally env p (nth_arg args 0))
                                      (PromiseFinally p (nth_arg args 0)) s)))
        \<and> (key = ''constructor'' \<longrightarrow> static_proxy env key args s = Inl (TypeError, s))
        \<and> (key \<notin> set prototype_methods
             \<and> key \<notin> {''_main'', ''then'', ''finally'', ''constructor''}
             \<and> (key = ''params'' \<longrightarrow> params (instances s c) = None)
             \<and> (key = ''isAwaitingPromise'' \<longrightarrow> isAwaitingPromise (instances s c) = None) \<longrightarrow>
             static_proxy env key args s = proxy_call env key c args (object_prototype env key) s))
   \<and> (\<not> truthy w \<longrightarrow> proxy_call env key c args w s = Inr (JNull, s))
   \<and> proxy_call env key c args (JFun f) s
       = Inr (call_val (apply_function env f c args) (InstanceMethod key c args) s)
   \<and> (truthy w \<and> (\<forall>g. w \<noteq> JFun g) \<longrightarrow> proxy_call env key c args w s = Inl (TypeError, s))"
  apply (intro conjI impI)
             apply (simp add: static_proxy_def)
            apply (simp add: static_proxy_def instance_member_prototype)
           apply (simp add: static_proxy_def instance_member_def)
          apply (simp add: static_proxy_def instance_member_def proxy_call_def)
         apply (simp add: static_proxy_def instance_member_def prototype_methods_def)
        apply (simp add: static_proxy_def instance_member_def prototype_methods_def)
       apply (simp add: static_proxy_def instance_member_def prototype_methods_def)
      apply (simp add: static_proxy_def instance_member_def prototype_methods_def)
     apply (auto simp add: static_proxy_def instance_member_def)[1]
    apply (simp add: proxy_call_def)
   apply (simp add: proxy_call_def)
  apply (cases w; simp add: proxy_call_def)
  done

text \<open>
  Before any instance is constructed the proxy returns \<^verbatim>\<open>null\<close>. With instance 1
  constructed, \<^verbatim>\<open>getInput\<close> is forwarded to instance 1 with its argument;
  \<^verbatim>\<open>update\<close>, which the module does not export, gives \<^verbatim>\<open>null\<close>;
  \<^verbatim>\<open>params\<close>, an object, and the constructor throw; so does \<^verbatim>\<open>then\<close>, since
  instance 1 has no promise yet; \<^verbatim>\<open>_main\<close> opens a dialog; and
  \<^verbatim>\<open>toString\<close>, which this \<^verbatim>\<open>Object.prototype\<close> does not have, gives
  \<^verbatim>\<open>null\<close>. With instance 0 constructed last, \<^verbatim>\<open>finally\<close> is called on its
  promise, and \<^verbatim>\<open>isAwaitingPromise\<close> gives \<^verbatim>\<open>null\<close> while instance 0 awaits
  nothing and throws while it awaits the result of an action, although the module exports
  a function of that name.
\<close>

theorem static_proxy_forwards_witness:
  "currentInstance fresh_state = None
   \<and> static_proxy method_env ''getInput'' [] fresh_state = Inr (JNull, fresh_state)
   \<and> currentInstance open_state = Some 1
   \<and> ''getInput'' \<in> set prototype_methods
   \<and> instanceMethods method_env ''getInput'' = Some (JFun 0)
   \<and> static_proxy method_env ''getInput'' [JNum 7] open_state
       = Inr (JStr ''input'', open_state\<lparr>trace := [InstanceMethod ''getInput'' 1 [JNum 7]]\<rparr>)
   \<and> ''update'' \<in> set prototype_methods
   \<and> static_proxy method_env ''update'' [] open_state = Inr (JNull, open_state)
   \<and> params (instances open_state 1) = Some (JRef 1)
   \<and> static_proxy method_env ''params'' [] open_state = Inl (TypeError, open_state)
   \<and> static_proxy method_env ''constructor'' [] open_state = Inl (TypeError, open_state)
   \<and> promise (instances open_state 1) = None
   \<and> static_proxy method_env ''then'' [] open_state = Inl (TypeError, open_state)
   \<and> static_proxy method_env ''_main'' [JRef 1] open_state
       = bindE (main method_env (JRef 1) JUndefined open_state) (\<lambda>(p, s'). Inr (JPromise p, s'))
   \<and> ''toString'' \<notin> set prototype_methods
   \<and> object_prototype method_env ''toString'' = JUndefined
   \<and> static_proxy method_env ''toString'' [] open_state = Inr (JNull, open_state)
   \<and> currentInstance idle_state = Some 0
   \<and> promise (instances idle_state 0) = Some 0
   \<and> static_proxy method_env ''finally'' [JFun 9] idle_state
       = Inr (call_val (promise_finally method_env 0 (JFun 9)) (PromiseFinally 0 (JFun 9)) idle_state)
   \<and> fst (call_val (promise_finally method_env 0 (JFun 9)) (PromiseFinally 0 (JFun 9)) idle_state)
       = JPromise 1
   \<and> isAwaitingPromise (instances idle_state 0) = Some False
   \<and> static_proxy method_env ''isAwaitingPromise'' [] idle_state = Inr (JNull, idle_state)
   \<and> currentInstance busy_state = Some 0
   \<and> isAwaitingPromise (instances busy_state 0) = Some True
   \<and> instanceMethods method_env ''isAwaitingPromise'' = Some (JFun 2)
   \<and> static_proxy method_env ''isAwaitingPromise'' [] busy_state = Inl (TypeError, busy_state)"
proof -
  have a: "currentInstance fresh_state = None"
    by (simp add: fresh_state_def state0_def)
  have b: "currentInstance open_state = Some 1" "trace open_state = []"
    "params (instances open_state 1) = Some (JRef 1)" "promise (instances open_state 1) = None"
    by (simp_all add: open_state_def state0_def)
  have c: "currentInstance idle_state = Some 0"
    "isAwaitingPromise (instances idle_state 0) = Some False"
    "currentInstance busy_state = Some 0"
    "isAwaitingPromise (instances busy_state 0) = Some True"
    "promise (instances idle_state 0) = Some 0"
    by (simp_all add: idle_state_def busy_state_def awaiting_state_def open_state_def state0_def)
  have d: "''toString'' \<notin> set prototype_methods"
    "object_prototype method_env ''toString'' = JUndefined"
    by (simp_all add: prototype_methods_def method_env_def env0_def)
  have 9: "static_proxy method_env ''_main'' [JRef 1] open_state
       = bindE (main method_env (JRef 1) JUndefined open_state) (\<lambda>(p, s'). Inr (JPromise p, s'))"
    using static_proxy_forwards [where env = method_env and s = open_state and c = 1
        and key = "''_main''" and args = "[JRef 1]", THEN conjunct2, THEN conjunct1] b
    by (simp add: nth_arg_def)
  have 10: "static_proxy method_env ''toString'' [] open_state = Inr (JNull, open_state)"
    using static_proxy_forwards [where env = method_env and s = open_state and c = 1
        and key = "''toString''" and args = "[]" and w = JUndefined] b d
    by simp
  have 11: "static_proxy method_env ''finally'' [JFun 9] idle_state
       = Inr (call_val (promise_finally method_env 0 (JFun 9)) (PromiseFinally 0 (JFun 9)) idle_state)"
    using static_proxy_forwards [where env = method_env and s = idle_state and c = 0
        and key = "''finally''" and args = "[JFun 9]", THEN conjunct2, THEN conjunct1] c
    by (simp add: nth_arg_def)
  have 12: "fst (call_val (promise_finally method_env 0 (JFun 9)) (PromiseFinally 0 (JFun 9)) idle_state)
       = JPromise 1"
    by (simp add: call_val_def log_def method_env_def env0_def idle_state_def open_state_def state0_def)
  have m: "''getInput'' \<in> set prototype_methods" "''update'' \<in> set prototype_methods"
    by (simp_all add: prototype_methods_def)
  have 1: "static_proxy method_env ''getInput'' [] fresh_state = Inr (JNull, fresh_state)"
    using static_proxy_forwards [where env = method_env and s = fresh_state
        and key = "''getInput''" and args = "[]", THEN conjunct1] a by blast
  have 2: "static_proxy method_env ''getInput'' [JNum 7] open_state
       = Inr (JStr ''input'', open_state\<lparr>trace := [InstanceMethod ''getInput'' 1 [JNum 7]]\<rparr>)"
    using static_proxy_forwards [where env = method_env and s = open_state and c = 1
        and key = "''getInput''" and args = "[JNum 7]", THEN conjunct2, THEN conjunct1] b m
    by (simp add: method_env_fields proxy_call_def call_val_def log_def)
  have 3: "static_proxy method_env ''update'' [] open_state = Inr (JNull, open_state)"
    using static_proxy_forwards [where env = method_env and s = open_state and c = 1
        and key = "''update''" and args = "[]", THEN conjunct2, THEN conjunct1] b m
    by (simp add: method_env_fields proxy_call_def)
  have 4: "static_proxy method_env ''params'' [] open_state = Inl (TypeError, open_state)"
    using static_proxy_forwards [where env = method_env and s = open_state and c = 1
        and key = "''params''" and args = "[]" and v = "JRef 1", THEN conjunct2, THEN conjunct1] b
    by (simp add: proxy_call_def)
  have 5: "static_proxy method_env ''constructor'' [] open_state = Inl (TypeError, open_state)"
    using static_proxy_forwards [where env = method_env and s = open_state and c = 1
        and key = "''constructor''" and args = "[]", THEN conjunct2, THEN conjunct1] b
    by simp
  have 6: "static_proxy method_env ''then'' [] open_state = Inl (TypeError, open_state)"
    using static_proxy_forwards [where env = method_env and s = open_state and c = 1
        and key = "''then''" and args = "[]", THEN conjunct2, THEN conjunct1] b
    by simp
  have 7: "static_proxy method_env ''isAwaitingPromise'' [] idle_state = Inr (JNull, idle_state)"
    using static_proxy_forwards [where env = method_env and s = idle_state and c = 0
        and key = "''isAwaitingPromise''" and args = "[]" and b = False,
        THEN conjunct2, THEN conjunct1] c
    by simp
  have 8: "static_proxy method_env ''isAwaitingPromise'' [] busy_state = Inl (TypeError, busy_state)"
    using static_proxy_forwards [where env = method_env and s = busy_state and c = 0
        and key = "''isAwaitingPromise''" and args = "[]" and b = True,
        THEN conjunct2, THEN conjunct1] c
    by simp
  from a b(1,3,4) c d m method_env_fields(1,3) 1 2 3 4 5 6 7 8 9 10 11 12 show ?thesis
    by (simp only: simp_thms)
qed

text \<open>
  Claim C9 as stated fails: after instance 0 has been constructed and then closed
  through the facade, no instance is open (the registry's slot is empty), and yet the
  static \<^verbatim>\<open>getInput\<close> is forwarded to instance 0 and returns its result, not
  \<^verbatim>\<open>null\<close>.
\<close>

theorem static_proxy_closed_instance_counterexample:
  "\<not> isl (static_proxy method_env ''close'' []
            (res_state (constructor method_env 0 [JRef 1] fresh_state)))
   \<and> gs_currentInstance
       (res_state (static_proxy method_env ''close'' []
          (res_state (constructor method_env 0 [JRef 1] fresh_state)))) = None
   \<and> \<not> isl (static_proxy method_env ''getInput'' []
              (res_state (static_proxy method_env ''close'' []
                 (res_state (constructor method_env 0 [JRef 1] fresh_state)))))
   \<and> fst (projr (static_proxy method_env ''getInput'' []
        (res_state (static_proxy method_env ''close'' []
           (res_state (constructor method_env 0 [JRef 1] fresh_state)))))) = JStr ''input''"
proof -
  have g: "gs_currentInstance fresh_state = None"
    by (simp add: fresh_state_def state0_def)
  from first_open [OF method_env_inert(1,2) method_env_inert(3) g, of 0 "[JRef 1]"]
  obtain s1 where c: "constructor method_env 0 [JRef 1] fresh_state = Inr ((), s1)"
    and r: "currentInstance s1 = Some 0" "gs_currentInstance s1 = Some 0"
    by blast
  have s1: "res_state (constructor method_env 0 [JRef 1] fresh_state) = s1"
    unfolding c by (simp add: res_state_def)
  have mc: "instance_member method_env s 0 ''close'' = Value (JFun 1)"
    and mg: "instance_member method_env s 0 ''getInput'' = Value (JFun 0)" for s :: "unit state"
    by (simp_all add: instance_member_prototype prototype_methods_def method_env_fields)
  define s2 where "s2 = res_state (static_proxy method_env ''close'' [] s1)"
  have cl: "static_proxy method_env ''close'' [] s1
              = Inr (JUndefined, (log (InstanceMethod ''close'' 0 []) s1)\<lparr>gs_currentInstance := None\<rparr>)"
    by (simp add: static_proxy_def r mc proxy_call_def call_val_def method_env_fields log_fields)
  have 2: "gs_currentInstance s2 = None" "currentInstance s2 = Some 0"
    unfolding s2_def cl by (simp_all add: res_state_def log_fields r)
  have 3: "static_proxy method_env ''getInput'' [] s2
             = Inr (JStr ''input'', log (InstanceMethod ''getInput'' 0 []) s2)"
    by (simp add: static_proxy_def 2 mg proxy_call_def call_val_def method_env_fields)
  from cl 2(1) 3 show ?thesis
    unfolding s1 s2_def [symmetric] by simp
qed

section \<open>Dismissal by the timer: the claim\<close>

lemma timer_elapse_idle:
  "t < length (timers s) \<longrightarrow> status (timers s ! t) \<noteq> Running \<Longrightarrow> timer_elapse env dt t s = s"
  by (auto simp add: timer_elapse_def)

lemma fold_timer_elapse_idle:
  "\<forall>t\<in>set ts. t < length (timers s) \<longrightarrow> status (timers s ! t) \<noteq> Running \<Longrightarrow>
   fold (timer_elapse env dt) ts s = s"
  by (induction ts) (simp_all add: timer_elapse_idle)

lemma elapse_idle:
  "list_all (\<lambda>tm. status tm \<noteq> Running) (timers s) \<Longrightarrow> elapse env dt s = s"
  unfolding elapse_def
  by (rule fold_timer_elapse_idle) (simp add: list_all_length)

lemma elapse_armed:
  assumes a: "armed t i p r s"
  shows "elapse env dt s = timer_elapse env dt t s"
proof -
  from a have l: "length (timers s) = Suc t"
    and o: "list_all (\<lambda>tm. status tm \<noteq> Running) (take t (timers s))"
    by (simp_all add: armed_def)
  have "fold (timer_elapse env dt) [0..<t] s = s"
    using o l by (intro fold_timer_elapse_idle) (auto simp add: list_all_length)
  then show ?thesis
    by (simp add: elapse_def l)
qed


lemma elapse_all_idle:
  "list_all (\<lambda>tm. status tm \<noteq> Running) (timers s) \<Longrightarrow> elapse_all env dts s = s"
  unfolding elapse_all_def
  by (induction dts) (simp_all add: elapse_idle)

lemma elapse_armed_before:
  assumes a: "armed t i p r s" and d: "dt < r"
  shows "armed t i p (r - dt) (elapse env dt s)" and "trace (elapse env dt s) = trace s"
  using a d
  by (simp_all add: elapse_armed [OF a] timer_elapse_def armed_def)

lemma timer_result:
  "fill_result [(''isDismissed'', JBool True), (''dismiss'', JStr ''timer'')]
     = [(''isConfirmed'', JBool False), (''isDenied'', JBool False),
        (''isDismissed'', JBool True), (''dismiss'', JStr ''timer'')]"
  by (simp add: fill_result_def)

lemma elapse_armed_fire:
  assumes i: "inert env" and a: "armed t i p r s" and d: "r \<le> dt"
  shows "list_all (\<lambda>tm. status tm \<noteq> Running) (timers (elapse env dt s))"
    and "promises (elapse env dt s) ! p
           = Fulfilled [(''isConfirmed'', JBool False), (''isDenied'', JBool False),
                        (''isDismissed'', JBool True), (''dismiss'', JStr ''timer'')]"
    and "trace (elapse env dt s)
           = trace s @ [TimerFired t,
                Resolve p [(''isConfirmed'', JBool False), (''isDenied'', JBool False),
                           (''isDismissed'', JBool True), (''dismiss'', JStr ''timer'')],
                Close i [(''isDismissed'', JBool True), (''dismiss'', JStr ''timer'')]]"
proof -
  have e: "\<And>ev s. ext env ev s = s" using i by (simp add: inert_def)
  from a have l: "length (timers s) = Suc t"
    and o: "list_all (\<lambda>tm. status tm \<noteq> Running) (take t (timers s))"
    by (simp_all add: armed_def)
  have tk: "take t ((timers s)[t := x]) = take t (timers s)" for x
    by simp
  have la: "list_all (\<lambda>tm. status tm \<noteq> Running) ((timers s)[t := x])" if "status x \<noteq> Running" for x
  proof -
    have "(timers s)[t := x] = take t (timers s) @ [x]"
      using l by (simp add: list_eq_iff_nth_eq nth_append nth_list_update less_Suc_eq)
    then show ?thesis using o that by simp
  qed
  show "list_all (\<lambda>tm. status tm \<noteq> Running) (timers (elapse env dt s))"
    using a d
    by (simp add: elapse_armed [OF a] timer_elapse_def armed_def timer_callback_def
        dismissWith_def close_def Let_def resolve_def log_def settle_def call_def e
        timer_stop_def la)
  show "promises (elapse env dt s) ! p
           = Fulfilled [(''isConfirmed'', JBool False), (''isDenied'', JBool False),
                        (''isDismissed'', JBool True), (''dismiss'', JStr ''timer'')]"
    using a d
    by (simp add: elapse_armed [OF a] timer_elapse_def armed_def timer_callback_def
        dismissWith_def close_def Let_def resolve_def log_def settle_def call_def e
        timer_stop_def timer_result)
  show "trace (elapse env dt s)
           = trace s @ [TimerFired t,
                Resolve p [(''isConfirmed'', JBool False), (''isDenied'', JBool False),
                           (''isDismissed'', JBool True), (''dismiss'', JStr ''timer'')],
                Close i [(''isDismissed'', JBool True), (''dismiss'', JStr ''timer'')]]"
    using a d
    by (simp add: elapse_armed [OF a] timer_elapse_def armed_def timer_callback_def
        dismissWith_def close_def Let_def resolve_def log_def settle_def call_def e
        timer_stop_def timer_result)
qed

lemma elapse_all_Cons: "elapse_all env (dt # dts) s = elapse_all env dts (elapse env dt s)"
  by (simp add: elapse_all_def)

lemma elapse_all_armed:
  assumes i: "inert env"
  shows "armed t i p r s \<Longrightarrow> 0 < r \<Longrightarrow>
     (sum_list dts < r \<longrightarrow>
        promises (elapse_all env dts s) ! p = Pending \<and> trace (elapse_all env dts s) = trace s)
     \<and> (r \<le> sum_list dts \<longrightarrow>
        promises (elapse_all env dts s) ! p
          = Fulfilled [(''isConfirmed'', JBool False), (''isDenied'', JBool False),
                       (''isDismissed'', JBool True), (''dismiss'', JStr ''timer'')]
        \<and> trace (elapse_all env dts s)
          = trace s @ [TimerFired t,
               Resolve p [(''isConfirmed'', JBool False), (''isDenied'', JBool False),
                          (''isDismissed'', JBool True), (''dismiss'', JStr ''timer'')],
               Close i [(''isDismissed'', JBool True), (''dismiss'', JStr ''timer'')]])"
proof (induction dts arbitrary: s r)
  case Nil
  then show ?case
    by (simp add: elapse_all_def armed_def)
next
  case (Cons dt dts)
  show ?case
  proof (cases "dt < r")
    case True
    note b = elapse_armed_before [OF Cons.prems(1) True, of env]
    from True have "0 < r - dt" by simp
    from Cons.IH [OF b(1) this] b(2) True show ?thesis
      by (auto simp add: elapse_all_Cons)
  next
    case False
    then have d: "r \<le> dt" by simp
    note f = elapse_armed_fire [OF i Cons.prems(1) d]
    from f d show ?thesis
      by (simp add: elapse_all_Cons elapse_all_idle)
  qed
qed

lemma setupTimer_armed:
  assumes i: "inert env"
    and t: "get_prop (heap s) innerParams ''timer'' = JNum d" "0 < d"
    and r: "pm_swalPromiseResolve s instance = Some p" "p < length (promises s)"
      "promises s ! p = Pending"
    and o: "list_all (\<lambda>tm. status tm \<noteq> Running) (timers s)"
  shows "armed (length (timers s)) instance p (nat d) (setupTimer env innerParams instance s)"
proof -
  have e: "\<And>ev s. ext env ev s = s" using i by (simp add: inert_def)
  show ?thesis
    using t r o
    by (simp add: setupTimer_def new_Timer_def Let_def call_def log_def e armed_def delay_ms_def)
qed

lemma timer_state_fields:
  "get_prop (heap timer_state) 2 ''timer'' = JNum 3000"
  "get_prop (heap timer_state) 2 ''timerProgressBar'' = JUndefined"
  "pm_swalPromiseResolve timer_state 0 = Some 0"
  "0 < length (promises timer_state)" "promises timer_state ! 0 = Pending"
  "timers timer_state = []" "trace timer_state = []"
  by (simp_all add: timer_state_def open_state_def state0_def get_prop_def own_props_def)

text \<open>
  Claim C3. Let \<^verbatim>\<open>setupTimer\<close> run for an instance whose result is pending, with a
  positive \<^verbatim>\<open>timer\<close> of \<open>d\<close> milliseconds, while no other timer is running, and
  let then time pass in steps with no other event (the helpers leave the state alone).
  As long as less than \<open>d\<close> milliseconds have passed the result is pending and nothing
  has happened. Once \<open>d\<close> milliseconds or more have passed, the result is settled with
  \<^verbatim>\<open>{ isDismissed: true, dismiss: 'timer' }\<close> (\<^verbatim>\<open>isConfirmed\<close> and
  \<^verbatim>\<open>isDenied\<close> filled in as false), and all that has happened is that the timer
  fired, once, and that its callback closed the instance with that result, however much
  more time passes.
\<close>

theorem timer_dismisses_once:
  assumes "inert env"
    and "get_prop (heap s) innerParams ''timer'' = JNum d" and "0 < d"
    and "pm_swalPromiseResolve s instance = Some p" and "p < length (promises s)"
    and "promises s ! p = Pending"
    and "list_all (\<lambda>tm. status tm \<noteq> Running) (timers s)"
  shows
    "(sum_list dts < nat d \<longrightarrow>
        promises (elapse_all env dts (setupTimer env innerParams instance s)) ! p = Pending
        \<and> trace (elapse_all env dts (setupTimer env innerParams instance s))
            = trace (setupTimer env innerParams instance s))
     \<and> (nat d \<le> sum_list dts \<longrightarrow>
        promises (elapse_all env dts (setupTimer env innerParams instance s)) ! p
          = Fulfilled [(''isConfirmed'', JBool False), (''isDenied'', JBool False),
                       (''isDismissed'', JBool True), (''dismiss'', JStr ''timer'')]
        \<and> trace (elapse_all env dts (setupTimer env innerParams instance s))
          = trace (setupTimer env innerParams instance s)
            @ [TimerFired (length (timers s)),
               Resolve p [(''isConfirmed'', JBool False), (''isDenied'', JBool False),
                          (''isDismissed'', JBool True), (''dismiss'', JStr ''timer'')],
               Close instance [(''isDismissed'', JBool True), (''dismiss'', JStr ''timer'')]])"
proof -
  from assms(3) have "0 < nat d" by simp
  from elapse_all_armed [OF assms(1) setupTimer_armed [OF assms] this]
  show ?thesis .
qed

text \<open>
  A timer of 3000 milliseconds: after two steps of 1000 the result is pending; after
  steps of 2000, 2000 and 5000 it is settled, and the timer has fired once.
\<close>

theorem timer_dismisses_once_witness:
  "inert env0
   \<and> get_prop (heap timer_state) 2 ''timer'' = JNum 3000
   \<and> pm_swalPromiseResolve timer_state 0 = Some 0
   \<and> promises timer_state ! 0 = Pending
   \<and> promises (elapse_all env0 [1000, 1000] (setupTimer env0 2 0 timer_state)) ! 0 = Pending
   \<and> trace (elapse_all env0 [1000, 1000] (setupTimer env0 2 0 timer_state)) = [Hide (Some 10)]
   \<and> promises (elapse_all env0 [2000, 2000, 5000] (setupTimer env0 2 0 timer_state)) ! 0
       = Fulfilled [(''isConfirmed'', JBool False), (''isDenied'', JBool False),
                    (''isDismissed'', JBool True), (''dismiss'', JStr ''timer'')]
   \<and> trace (elapse_all env0 [2000, 2000, 5000] (setupTimer env0 2 0 timer_state))
       = [Hide (Some 10), TimerFired 0,
          Resolve 0 [(''isConfirmed'', JBool False), (''isDenied'', JBool False),
                     (''isDismissed'', JBool True), (''dismiss'', JStr ''timer'')],
          Close 0 [(''isDismissed'', JBool True), (''dismiss'', JStr ''timer'')]]"
proof -
  have o: "list_all (\<lambda>tm. status tm \<noteq> Running) (timers timer_state)"
    by (simp add: timer_state_fields)
  have z: "(0::int) < 3000" by simp
  note th = timer_dismisses_once [OF inert_env0 timer_state_fields(1) z timer_state_fields(3,4,5) o]
  have t: "trace (setupTimer env0 2 0 timer_state) = [Hide (Some 10)]"
    by (simp add: setupTimer_def new_Timer_def Let_def call_def log_def env0_fields timer_state_fields)
  have 1: "promises (elapse_all env0 [1000, 1000] (setupTimer env0 2 0 timer_state)) ! 0 = Pending"
    and 2: "trace (elapse_all env0 [1000, 1000] (setupTimer env0 2 0 timer_state)) = [Hide (Some 10)]"
    using th [of "[1000, 1000]", THEN conjunct1] t by simp_all
  have 3: "promises (elapse_all env0 [2000, 2000, 5000] (setupTimer env0 2 0 timer_state)) ! 0
       = Fulfilled [(''isConfirmed'', JBool False), (''isDenied'', JBool False),
                    (''isDismissed'', JBool True), (''dismiss'', JStr ''timer'')]"
    and 4: "trace (elapse_all env0 [2000, 2000, 5000] (setupTimer env0 2 0 timer_state))
       = [Hide (Some 10), TimerFired 0,
          Resolve 0 [(''isConfirmed'', JBool False), (''isDenied'', JBool False),
                     (''isDismissed'', JBool True), (''dismiss'', JStr ''timer'')],
          Close 0 [(''isDismissed'', JBool True), (''dismiss'', JStr ''timer'')]]"
    using th [of "[2000, 2000, 5000]", THEN conjunct2] t by (simp_all add: timer_state_fields)
  from inert_env0 timer_state_fields(1,3,5) 1 2 3 4 show ?thesis by blast
qed

end
